(* ===== verification/Prelude.thy ===== *)
theory Prelude
  imports Main "HOL-Library.Word" "HOL-Library.Sublist"
begin

text \<open>
  Shared vocabulary of the HoneyDew development: bytes, C strings and the part of the C
  standard library that the sources use (\<open>strlen\<close>, \<open>strstr\<close>, \<open>strchr\<close>,
  \<open>strncasecmp\<close>, \<open>strncpy\<close>, \<open>strncat\<close>, \<open>snprintf\<close>, \<open>atoi\<close>,
  \<open>toupper\<close>, \<open>strtok_r\<close>), with the lemmas every component uses.

  A \<open>char\<close> array that holds text is a \<^typ>\<open>string\<close> (HOL characters are bytes). A C
  string is such a list without the NUL character; \<open>cstr\<close> cuts a buffer at its first
  NUL, which is what every \<open>str*\<close> function sees of it. An \<open>unsigned char\<close> array of
  a binary protocol is a list of \<open>8 word\<close>.
\<close>

section \<open>Types\<close>

type_synonym byte = "8 word"
type_synonym size_t = "64 word"

abbreviation NUL :: char where "NUL \<equiv> CHR 0x00"
abbreviation CR :: char where "CR \<equiv> CHR 0x0D"
abbreviation LF :: char where "LF \<equiv> CHR 0x0A"
abbreviation TAB :: char where "TAB \<equiv> CHR 0x09"
abbreviation CRLF :: string where "CRLF \<equiv> [CR, LF]"

definition bytes_of :: "string \<Rightarrow> byte list" where
  "bytes_of = map of_char"

definition chars_of :: "byte list \<Rightarrow> string" where
  "chars_of = map (\<lambda>w. char_of (unat w))"

section \<open>C strings\<close>

definition cstr :: "string \<Rightarrow> string" where
  "cstr = takeWhile (\<lambda>c. c \<noteq> NUL)"

definition nul_free :: "string \<Rightarrow> bool" where
  "nul_free s \<longleftrightarrow> NUL \<notin> set s"

definition toupper :: "char \<Rightarrow> char" where
  "toupper c = (let n = of_char c :: nat in
     if 97 \<le> n \<and> n \<le> 122 then char_of (n - 32) else c)"

definition tolower :: "char \<Rightarrow> char" where
  "tolower c = (let n = of_char c :: nat in
     if 65 \<le> n \<and> n \<le> 90 then char_of (n + 32) else c)"

text \<open>\<open>strncasecmp(a, b, n) == 0\<close> and \<open>strcasecmp(a, b) == 0\<close> on C strings.\<close>

definition strncaseeq :: "string \<Rightarrow> string \<Rightarrow> nat \<Rightarrow> bool" where
  "strncaseeq a b n \<longleftrightarrow> map tolower (take n a) = map tolower (take n b)"

definition strcaseeq :: "string \<Rightarrow> string \<Rightarrow> bool" where
  "strcaseeq a b \<longleftrightarrow> map tolower a = map tolower b"

text \<open>\<open>strstr\<close> and \<open>strchr\<close>/\<open>memchr\<close>, returning the offset of the match.\<close>

fun strstr :: "string \<Rightarrow> string \<Rightarrow> nat option" where
  "strstr [] p = (if p = [] then Some 0 else None)"
| "strstr (c # s) p =
     (if take (length p) (c # s) = p then Some 0 else map_option Suc (strstr s p))"

definition contains :: "string \<Rightarrow> string \<Rightarrow> bool" where
  "contains s p \<longleftrightarrow> strstr s p \<noteq> None"

fun find_index :: "('a \<Rightarrow> bool) \<Rightarrow> 'a list \<Rightarrow> nat option" where
  "find_index P [] = None"
| "find_index P (x # xs) = (if P x then Some 0 else map_option Suc (find_index P xs))"

definition strchr :: "string \<Rightarrow> char \<Rightarrow> nat option" where
  "strchr s c = find_index (\<lambda>d. d = c) s"

text \<open>
  \<open>strncpy\<close> into a zeroed or explicitly terminated buffer, \<open>strncat\<close> and the text
  \<open>snprintf\<close> leaves in a buffer of \<open>cap\<close> bytes.
\<close>

definition strncpy :: "string \<Rightarrow> nat \<Rightarrow> string" where
  "strncpy src n = take n src"

definition strncat :: "string \<Rightarrow> string \<Rightarrow> nat \<Rightarrow> string" where
  "strncat dst src n = dst @ take n src"

definition snprintf :: "nat \<Rightarrow> string \<Rightarrow> string" where
  "snprintf cap txt = take (cap - 1) txt"

text \<open>The \<open>xxx_strip_crlf\<close> helper that five of the services share word for word.\<close>

definition strip_crlf :: "string \<Rightarrow> string" where
  "strip_crlf s = rev (dropWhile (\<lambda>c. c = CR \<or> c = LF) (rev s))"

definition skip_spaces :: "string \<Rightarrow> string" where
  "skip_spaces = dropWhile (\<lambda>c. c = CHR '' '')"

text \<open>\<open>strnlen\<close>, and what the memory from a buffer on holds after \<open>recv\<close> or \<open>memset\<close> has
  written \<open>d\<close> to its beginning.\<close>

definition strnlen :: "string \<Rightarrow> nat \<Rightarrow> nat" where
  "strnlen s n = length (cstr (take n s))"

definition overlay :: "string \<Rightarrow> string \<Rightarrow> string" where
  "overlay d mem = d @ drop (length d) mem"

text \<open>Numbers in network byte order: \<open>htonl\<close> in memory, and four bytes shifted together.\<close>

definition htonl :: "nat \<Rightarrow> string" where
  "htonl n = map char_of [n div 2 ^ 24, n div 2 ^ 16, n div 2 ^ 8, n]"

definition be32 :: "string \<Rightarrow> nat" where
  "be32 s = of_char (s ! 0) * 2 ^ 24 + of_char (s ! 1) * 2 ^ 16 + of_char (s ! 2) * 2 ^ 8 + of_char (s ! 3)"

section \<open>Decimal numbers\<close>

definition digit_char :: "nat \<Rightarrow> char" where
  "digit_char d = char_of (48 + d)"

fun dec :: "nat \<Rightarrow> string" where
  "dec n = (if n < 10 then [digit_char n] else dec (n div 10) @ [digit_char (n mod 10)])"

declare dec.simps [simp del]

definition dec_int :: "int \<Rightarrow> string" where
  "dec_int i = (if i < 0 then ''-'' @ dec (nat (- i)) else dec (nat i))"

definition isdigit :: "char \<Rightarrow> bool" where
  "isdigit c \<longleftrightarrow> 48 \<le> (of_char c :: nat) \<and> (of_char c :: nat) \<le> 57"

definition isspace :: "char \<Rightarrow> bool" where
  "isspace c \<longleftrightarrow> (of_char c :: nat) = 32 \<or> 9 \<le> (of_char c :: nat) \<and> (of_char c :: nat) \<le> 13"

fun digits_val :: "nat \<Rightarrow> string \<Rightarrow> nat" where
  "digits_val acc [] = acc"
| "digits_val acc (c # s) =
     (if isdigit c then digits_val (10 * acc + (of_char c - 48)) s else acc)"

text \<open>
  \<open>atoi\<close> as the C library computes it, \<open>(int) strtol(s, NULL, 10)\<close>: leading white
  space, an optional sign, digits; \<open>strtol\<close> saturates at the limits of a 64-bit
  \<open>long\<close> and the cast keeps the low 32 bits.
\<close>

definition strtol :: "string \<Rightarrow> int" where
  "strtol s = (case dropWhile isspace s of
       [] \<Rightarrow> 0
     | c # t \<Rightarrow>
         if c = CHR ''-'' then max (- (2 ^ 63)) (- int (digits_val 0 t))
         else if c = CHR ''+'' then min (2 ^ 63 - 1) (int (digits_val 0 t))
         else min (2 ^ 63 - 1) (int (digits_val 0 (c # t))))"

definition atoi :: "string \<Rightarrow> int" where
  "atoi s = signed_take_bit 31 (strtol s)"

section \<open>Tokens\<close>

text \<open>\<open>strtok_r(line, " \t", &saveptr)\<close> called until it returns NULL.\<close>

definition is_sep :: "char \<Rightarrow> bool" where
  "is_sep c \<longleftrightarrow> c = CHR '' '' \<or> c = TAB"

function strtok :: "string \<Rightarrow> string list" where
  "strtok s = (case dropWhile is_sep s of
       [] \<Rightarrow> []
     | c # t \<Rightarrow> (c # takeWhile (\<lambda>d. \<not> is_sep d) t)
                 # strtok (dropWhile (\<lambda>d. \<not> is_sep d) t))"
  by pat_completeness auto
termination
proof (relation "measure length", goal_cases)
  case (2 s c t)
  have "length (dropWhile (\<lambda>d. \<not> is_sep d) t) \<le> length t" by (rule length_dropWhile_le)
  also have "length t < length (dropWhile is_sep s)" using 2 by simp
  also have "length (dropWhile is_sep s) \<le> length s" by (rule length_dropWhile_le)
  finally show ?case by simp
qed simp

declare strtok.simps [simp del]

section \<open>Lists\<close>

lemma distinct_concat_nth:
  assumes "\<And>i. i < length xss \<Longrightarrow> distinct (xss ! i)"
    and "\<And>i j. i < length xss \<Longrightarrow> j < length xss \<Longrightarrow> i \<noteq> j \<Longrightarrow> set (xss ! i) \<inter> set (xss ! j) = {}"
  shows "distinct (concat xss)"
  using assms
proof (induction xss)
  case (Cons xs xss)
  have "distinct (concat xss)"
    using Cons.prems(1) [of "Suc _"] Cons.prems(2) [of "Suc _" "Suc _"] by (intro Cons.IH) auto
  moreover have "set xs \<inter> set ys = {}" if ys: "ys \<in> set xss" for ys
    using ys Cons.prems(2) [of 0 "Suc _"] by (auto simp: in_set_conv_nth)
  ultimately show ?case using Cons.prems(1) [of 0] by auto
qed simp

lemma take_fill: "take m xs @ take (m - length (take m xs)) ys = take m (xs @ ys)"
  by (cases "length xs \<le> m") simp_all

lemma take_take_append: "take m (take m xs @ ys) = take m (xs @ ys)"
  by (cases "length xs \<le> m") simp_all

section \<open>Lemmas on C strings\<close>

lemmas char_eval = char_of_def bit_0 tolower_def toupper_def digit_char_def
  isdigit_def isspace_def Let_def

lemma cstr_nil [simp]: "cstr [] = []"
  by (simp add: cstr_def)

lemma cstr_cons [simp]: "cstr (c # s) = (if c = NUL then [] else c # cstr s)"
  by (simp add: cstr_def)

lemma nul_free_nil [simp]: "nul_free []"
  by (simp add: nul_free_def)

lemma nul_free_cons [simp]: "nul_free (c # s) \<longleftrightarrow> c \<noteq> NUL \<and> nul_free s"
  by (auto simp: nul_free_def)

lemma nul_free_append [simp]: "nul_free (s @ t) \<longleftrightarrow> nul_free s \<and> nul_free t"
  by (auto simp: nul_free_def)

lemma nul_free_take [intro]: "nul_free s \<Longrightarrow> nul_free (take n s)"
  by (auto simp: nul_free_def dest: in_set_takeD)

lemma nul_free_drop [intro]: "nul_free s \<Longrightarrow> nul_free (drop n s)"
  by (auto simp: nul_free_def dest: in_set_dropD)

lemma nul_free_cstr [simp, intro]: "nul_free (cstr s)"
  by (auto simp: nul_free_def cstr_def dest: set_takeWhileD)

lemma cstr_id [simp]: "nul_free s \<Longrightarrow> cstr s = s"
  by (induction s) auto

lemma cstr_append_nul [simp]: "nul_free s \<Longrightarrow> cstr (s @ NUL # t) = s"
  by (induction s) auto

lemma cstr_append_free: "nul_free s \<Longrightarrow> cstr (s @ t) = s @ cstr t"
  by (induction s) auto

lemma length_cstr_le: "length (cstr s) \<le> length s"
  by (simp add: cstr_def length_takeWhile_le)

lemma cstr_take_prefix: "\<exists>n \<le> length s. cstr s = take n s"
  by (metis cstr_def length_takeWhile_le takeWhile_eq_take)

lemma length_strncpy [simp]: "length (strncpy s n) = min n (length s)"
  by (simp add: strncpy_def)

lemma strncpy_all: "length s \<le> n \<Longrightarrow> strncpy s n = s"
  by (simp add: strncpy_def)

lemma length_snprintf_le: "length (snprintf n s) \<le> n - 1"
  by (simp add: snprintf_def)

lemma snprintf_fits: "length s < n \<Longrightarrow> snprintf n s = s"
  by (simp add: snprintf_def)

lemma length_strip_crlf_le: "length (strip_crlf s) \<le> length s"
  by (metis length_dropWhile_le length_rev strip_crlf_def)

lemma strip_crlf_crlf [simp]: "strip_crlf (s @ [CR, LF]) = strip_crlf s"
  by (simp add: strip_crlf_def)

lemma strip_crlf_cr [simp]: "strip_crlf (s @ [CR]) = strip_crlf s"
  by (simp add: strip_crlf_def)

lemma strip_crlf_id:
  assumes "s = [] \<or> last s \<noteq> CR \<and> last s \<noteq> LF"
  shows "strip_crlf s = s"
proof (cases s rule: rev_cases)
  case Nil
  then show ?thesis by (simp add: strip_crlf_def)
next
  case (snoc t c)
  with assms show ?thesis by (simp add: strip_crlf_def)
qed

lemma strip_crlf_no_crlf: "CR \<notin> set s \<Longrightarrow> LF \<notin> set s \<Longrightarrow> strip_crlf s = s"
  by (rule strip_crlf_id) (metis last_in_set)

lemma nul_free_strip_crlf [simp]: "nul_free s \<Longrightarrow> nul_free (strip_crlf s)"
  by (auto simp: nul_free_def strip_crlf_def dest: set_dropWhileD)

lemma skip_spaces_suffix: "\<exists>n. skip_spaces s = drop n s"
  by (metis dropWhile_eq_drop skip_spaces_def)

lemma length_skip_spaces_le: "length (skip_spaces s) \<le> length s"
  by (simp add: skip_spaces_def length_dropWhile_le)

subsection \<open>Machine integers\<close>

lemma unat_size_t_less: "unat (w :: size_t) < 2 ^ 64"
  using unsigned_less [of w, where ?'a = nat] by simp

lemma unat_byte_less: "unat (w :: byte) < 256"
  using unsigned_less [of w, where ?'a = nat] by simp

lemma of_char_char_of_byte [simp]: "of_char (char_of (unat w)) = (w :: byte)"
proof -
  have "(of_char (char_of (unat w)) :: byte) = of_nat (of_char (char_of (unat w)))"
    by (simp only: of_nat_of_char)
  then show ?thesis using unat_byte_less [of w] by simp
qed

lemma bytes_of_chars_of [simp]: "bytes_of (chars_of bs) = bs"
  by (simp add: bytes_of_def chars_of_def comp_def)

lemma length_chars_of [simp]: "length (chars_of bs) = length bs"
  by (simp add: chars_of_def)

lemma length_bytes_of [simp]: "length (bytes_of s) = length s"
  by (simp add: bytes_of_def)

text \<open>The byte at bit \<open>k\<close> of a 32-bit number.\<close>

lemma unat_byte_at: "k < 32 \<Longrightarrow> unat (and (drop_bit k x) 0xFF) = unat x div 2 ^ k mod 256" for x :: "32 word"
proof -
  have "and (drop_bit k x) 0xFF = take_bit 8 (drop_bit k x)" by (simp add: take_bit_eq_mask mask_eq_exp_minus_1)
  moreover have "unat (take_bit 8 (drop_bit k x)) = take_bit 8 (unat (drop_bit k x))"
    by (simp only: unsigned_take_bit_eq)
  moreover have "unat (drop_bit k x) = drop_bit k (unat x)"
    by (metis unsigned_drop_bit_eq unsigned_take_bit_eq take_bit_word_eq_self order_refl)
  ultimately show ?thesis by (simp only: take_bit_eq_mod drop_bit_eq_div) simp
qed

subsection \<open>Searching\<close>

lemma strstr_SomeD:
  "strstr s p = Some i \<Longrightarrow> take (length p) (drop i s) = p \<and> i + length p \<le> length s"
proof (induction s arbitrary: i)
  case Nil
  then show ?case by (auto split: if_splits)
next
  case (Cons c s)
  show ?case
  proof (cases "take (length p) (c # s) = p")
    case True
    with Cons.prems have "i = 0" by simp
    moreover from True have "length p \<le> length (c # s)"
      by (metis linorder_not_less take_all_iff less_imp_le)
    ultimately show ?thesis using True by simp
  next
    case False
    with Cons.prems obtain j where "strstr s p = Some j" "i = Suc j" by auto
    with Cons.IH [of j] show ?thesis by simp
  qed
qed

lemma strstr_Some_le: "strstr s p = Some i \<Longrightarrow> i + length p \<le> length s"
  by (simp add: strstr_SomeD)

lemma strstr_skip:
  assumes "\<And>j. j < length s \<Longrightarrow> take (length p) (drop j (s @ t)) \<noteq> p"
  shows "strstr (s @ t) p = map_option ((+) (length s)) (strstr t p)"
  using assms
proof (induction s)
  case Nil
  then show ?case by (simp add: option.map_ident)
next
  case (Cons c s)
  have "take (length p) (drop j (s @ t)) \<noteq> p" if "j < length s" for j
    using Cons.prems [of "Suc j"] that by simp
  then have "strstr (s @ t) p = map_option ((+) (length s)) (strstr t p)"
    by (rule Cons.IH)
  moreover have "take (length p) (c # s @ t) \<noteq> p" using Cons.prems [of 0] by simp
  ultimately show ?case by (simp add: option.map_comp comp_def)
qed

lemma strstr_crlf:
  assumes "CR \<notin> set s"
  shows "strstr (s @ [CR, LF] @ t) [CR, LF] = Some (length s)"
proof -
  have "take (length [CR, LF]) (drop j (s @ [CR, LF] @ t)) \<noteq> [CR, LF]"
    if "j < length s" for j
  proof -
    from that have "drop j (s @ [CR, LF] @ t) = s ! j # drop (Suc j) (s @ [CR, LF] @ t)"
      by (simp add: Cons_nth_drop_Suc [symmetric] nth_append)
    moreover from that assms have "s ! j \<noteq> CR" by (metis nth_mem)
    ultimately show ?thesis by simp
  qed
  then show ?thesis by (subst strstr_skip) simp_all
qed

lemma find_index_SomeD:
  "find_index P xs = Some i \<Longrightarrow> i < length xs \<and> P (xs ! i) \<and> (\<forall>j < i. \<not> P (xs ! j))"
proof (induction xs arbitrary: i)
  case (Cons x xs)
  show ?case
  proof (cases "P x")
    case True
    with Cons.prems show ?thesis by simp
  next
    case False
    with Cons.prems obtain k where k: "find_index P xs = Some k" "i = Suc k" by auto
    from Cons.IH [OF k(1)] False k(2) show ?thesis
      by (auto simp: nth_Cons split: nat.splits)
  qed
qed simp

lemma find_index_None: "find_index P xs = None \<longleftrightarrow> (\<forall>x \<in> set xs. \<not> P x)"
  by (induction xs) auto

lemma find_index_append:
  "(\<forall>x \<in> set xs. \<not> P x) \<Longrightarrow> find_index P (xs @ ys) = map_option ((+) (length xs)) (find_index P ys)"
  by (induction xs) (cases "find_index P ys"; simp)+

lemma strchr_fresh: "c \<notin> set u \<Longrightarrow> strchr (u @ c # t) c = Some (length u)"
  unfolding strchr_def by (subst find_index_append) auto

lemma strnlen_nul: "nul_free s \<Longrightarrow> length s < n \<Longrightarrow> strnlen (s @ NUL # t) n = length s"
  by (simp add: strnlen_def take_Cons')

lemma find_index_split:
  assumes "find_index P xs = Some i"
  shows "xs = take i xs @ xs ! i # drop (Suc i) xs" and "\<forall>x \<in> set (take i xs). \<not> P x"
proof -
  from find_index_SomeD [OF assms] have i: "i < length xs" and none: "\<forall>j < i. \<not> P (xs ! j)"
    by auto
  from i show "xs = take i xs @ xs ! i # drop (Suc i) xs" by (rule id_take_nth_drop)
  from i none show "\<forall>x \<in> set (take i xs). \<not> P x" by (auto simp: in_set_conv_nth)
qed

subsection \<open>Decimal text\<close>

lemma of_char_digit [simp]: "d < 10 \<Longrightarrow> (of_char (digit_char d) :: nat) = 48 + d"
  by (simp add: digit_char_def)

lemma isdigit_digit_char [simp]: "d < 10 \<Longrightarrow> isdigit (digit_char d)"
  by (simp add: isdigit_def)

lemma isdigit_dec: "c \<in> set (dec n) \<Longrightarrow> isdigit c"
proof (induction n rule: dec.induct)
  case (1 n)
  show ?case
  proof (cases "n < 10")
    case True
    with "1.prems" show ?thesis by (simp add: dec.simps [of n])
  next
    case False
    with 1 show ?thesis by (auto simp: dec.simps [of n])
  qed
qed

lemma not_isdigit [simp]: "\<not> isdigit CR" "\<not> isdigit LF" "\<not> isdigit NUL"
  "\<not> isdigit (CHR ''$'')" "\<not> isdigit (CHR ''-'')" "\<not> isdigit (CHR ''+'')" "\<not> isdigit (CHR '' '')"
  by (simp_all add: isdigit_def)

lemma dec_not_in_set [simp]: "CR \<notin> set (dec n)" "NUL \<notin> set (dec n)" "LF \<notin> set (dec n)"
  using isdigit_dec not_isdigit by blast+

lemma nul_free_dec [simp]: "nul_free (dec n)"
  by (simp add: nul_free_def)

lemma dec_nonempty [simp]: "dec n \<noteq> []"
  by (subst dec.simps) simp

lemma digits_val_dec_append:
  "digits_val acc (dec n @ t) = digits_val (acc * 10 ^ length (dec n) + n) t"
proof (induction n arbitrary: acc t rule: dec.induct)
  case (1 n)
  show ?case
  proof (cases "n < 10")
    case True
    then show ?thesis by (simp add: dec.simps [of n] mult.commute)
  next
    case False
    from "1.IH" [OF False] False show ?thesis
      by (simp add: dec.simps [of n] algebra_simps)
  qed
qed

lemma digits_val_stop: "t = [] \<or> \<not> isdigit (hd t) \<Longrightarrow> digits_val acc t = acc"
  by (cases t) auto

lemma atoi_dec:
  assumes "n < 2 ^ 31" and "t = [] \<or> \<not> isdigit (hd t)"
  shows "atoi (dec n @ t) = int n"
proof -
  obtain c s where cs: "dec n = c # s" by (cases "dec n") auto
  then have c: "isdigit c" using isdigit_dec [of c n] by simp
  then have "\<not> isspace c" "c \<noteq> CHR ''-''" "c \<noteq> CHR ''+''"
    by (auto simp: isspace_def isdigit_def)
  then have "strtol (dec n @ t) = min (2 ^ 63 - 1) (int (digits_val 0 (dec n @ t)))"
    by (simp add: strtol_def cs)
  also have "digits_val 0 (dec n @ t) = n"
    using digits_val_stop [OF assms(2)] by (simp add: digits_val_dec_append)
  finally have "strtol (dec n @ t) = int n" using assms(1) by simp
  then show ?thesis using assms(1)
    by (simp add: atoi_def signed_take_bit_int_eq_self)
qed

end
