(* ===== verification/Platform.thy ===== *)
theory Platform
  imports Prelude
begin

text \<open>
  What every service of HoneyDew shares: the enumerations of the headers
  (\<open>protocol_type\<close> of include/session.h, the audit enumerations of include/audit.h, the
  log levels of include/logger.h), the peer's socket as a script of \<open>recv\<close> results, and
  the externally visible effects of a service as a trace.

  None of \<open>audit_record_*\<close>, \<open>utilities_log\<close> and \<open>close\<close> returns anything to its
  caller, and all services but two ignore what \<open>send\<close> returns, so a service is the list of
  effects it performs, in order. A log call keeps its level and its arguments; the
  fixed wording of its format string is left out.
\<close>

section \<open>Enumerations\<close>

datatype protocol_type =
    UNKNOWN_PROTOCOL | HTTP_PROTOCOL | HTTPS_PROTOCOL | FTP_PROTOCOL | FTPS_PROTOCOL
  | SSH_PROTOCOL | TELNET_PROTOCOL | SMTP_PROTOCOL | POP3_PROTOCOL | IMAP_PROTOCOL
  | DNS_PROTOCOL | MYSQL_PROTOCOL | POSTGRESQL_PROTOCOL | REDIS_PROTOCOL | QUESTDB_PROTOCOL

text \<open>The value an enumerator has when it is passed as an \<open>int\<close>.\<close>

fun protocol_num :: "protocol_type \<Rightarrow> int" where
  "protocol_num UNKNOWN_PROTOCOL = 0"
| "protocol_num HTTP_PROTOCOL = 1"
| "protocol_num HTTPS_PROTOCOL = 2"
| "protocol_num FTP_PROTOCOL = 3"
| "protocol_num FTPS_PROTOCOL = 4"
| "protocol_num SSH_PROTOCOL = 5"
| "protocol_num TELNET_PROTOCOL = 6"
| "protocol_num SMTP_PROTOCOL = 7"
| "protocol_num POP3_PROTOCOL = 8"
| "protocol_num IMAP_PROTOCOL = 9"
| "protocol_num DNS_PROTOCOL = 10"
| "protocol_num MYSQL_PROTOCOL = 11"
| "protocol_num POSTGRESQL_PROTOCOL = 12"
| "protocol_num REDIS_PROTOCOL = 13"
| "protocol_num QUESTDB_PROTOCOL = 14"

datatype audit_event_type =
    AUDIT_EVENT_CONNECTION | AUDIT_EVENT_DISCONNECTION | AUDIT_EVENT_AUTH_ATTEMPT
  | AUDIT_EVENT_AUTH_SUCCESS | AUDIT_EVENT_AUTH_FAILURE | AUDIT_EVENT_COMMAND
  | AUDIT_EVENT_FILE_ACCESS | AUDIT_EVENT_FILE_MODIFY | AUDIT_EVENT_DATA_EXFIL
  | AUDIT_EVENT_SCAN_PROBE | AUDIT_EVENT_EXPLOIT_ATTEMPT | AUDIT_EVENT_PROTOCOL_ERROR

datatype audit_severity =
    AUDIT_SEVERITY_LOW | AUDIT_SEVERITY_MEDIUM | AUDIT_SEVERITY_HIGH | AUDIT_SEVERITY_CRITICAL

datatype UtilitiesLogLevel =
    UTILITIES_VERBOSE | UTILITIES_DEBUG | UTILITIES_INFO | UTILITIES_WARN | UTILITIES_ERROR

section \<open>Audit requests\<close>

text \<open>
  The arguments of one call of \<open>audit_record_event(&g_audit, ...)\<close>: \<open>None\<close> is a NULL
  pointer, and the details are the text the format and its arguments expand to, before
  \<open>vsnprintf\<close> cuts it to the size of the record.
\<close>

record audit_req =
  req_type :: audit_event_type
  req_severity :: audit_severity
  req_protocol :: int
  req_ip :: "string option"
  req_port :: int
  req_session :: "string option"
  req_user :: "string option"
  req_details :: string

text \<open>The UTF-8 text of the format strings of src/utilities/audit.c.\<close>

definition txt_new_connection :: string where
  "txt_new_connection = [CHR 0xE6, CHR 0x96, CHR 0xB0, CHR 0xE8, CHR 0xBF, CHR 0x9E,
     CHR 0xE6, CHR 0x8E, CHR 0xA5, CHR 0xE5, CHR 0xBB, CHR 0xBA, CHR 0xE7, CHR 0xAB, CHR 0x8B]"

definition txt_disconnected :: string where
  "txt_disconnected = [CHR 0xE8, CHR 0xBF, CHR 0x9E, CHR 0xE6, CHR 0x8E, CHR 0xA5,
     CHR 0xE6, CHR 0x96, CHR 0xAD, CHR 0xE5, CHR 0xBC, CHR 0x80]"

definition txt_password :: string where
  "txt_password = [CHR 0xE5, CHR 0xAF, CHR 0x86, CHR 0xE7, CHR 0xA0, CHR 0x81]"

definition txt_command :: string where
  "txt_command = [CHR 0xE5, CHR 0x91, CHR 0xBD, CHR 0xE4, CHR 0xBB, CHR 0xA4]"

definition txt_empty :: string where
  "txt_empty = ''('' @ [CHR 0xE7, CHR 0xA9, CHR 0xBA] @ '')''"

abbreviation QUOTE :: char where "QUOTE \<equiv> CHR 0x22"

definition audit_record_connection :: "protocol_type \<Rightarrow> string \<Rightarrow> int \<Rightarrow> string \<Rightarrow> audit_req" where
  "audit_record_connection p ip port sid =
     \<lparr>req_type = AUDIT_EVENT_CONNECTION, req_severity = AUDIT_SEVERITY_LOW,
      req_protocol = protocol_num p, req_ip = Some ip, req_port = port,
      req_session = Some sid, req_user = None, req_details = txt_new_connection\<rparr>"

definition audit_record_auth ::
  "protocol_type \<Rightarrow> string \<Rightarrow> int \<Rightarrow> string \<Rightarrow> string \<Rightarrow> string option \<Rightarrow> bool \<Rightarrow> audit_req" where
  "audit_record_auth p ip port sid user password success =
     \<lparr>req_type = (if success then AUDIT_EVENT_AUTH_SUCCESS else AUDIT_EVENT_AUTH_FAILURE),
      req_severity = (if success then AUDIT_SEVERITY_HIGH else AUDIT_SEVERITY_MEDIUM),
      req_protocol = protocol_num p, req_ip = Some ip, req_port = port,
      req_session = Some sid, req_user = Some user,
      req_details = txt_password @ [CHR ''='', QUOTE]
        @ (case password of Some pw \<Rightarrow> pw | None \<Rightarrow> txt_empty) @ [QUOTE]\<rparr>"

definition audit_record_command :: "protocol_type \<Rightarrow> string \<Rightarrow> int \<Rightarrow> string \<Rightarrow> string \<Rightarrow> audit_req" where
  "audit_record_command p ip port sid command =
     \<lparr>req_type = AUDIT_EVENT_COMMAND, req_severity = AUDIT_SEVERITY_HIGH,
      req_protocol = protocol_num p, req_ip = Some ip, req_port = port,
      req_session = Some sid, req_user = None,
      req_details = txt_command @ [CHR ''='', QUOTE] @ command @ [QUOTE]\<rparr>"

definition audit_record_disconnect :: "protocol_type \<Rightarrow> string \<Rightarrow> int \<Rightarrow> string \<Rightarrow> audit_req" where
  "audit_record_disconnect p ip port sid =
     \<lparr>req_type = AUDIT_EVENT_DISCONNECTION, req_severity = AUDIT_SEVERITY_LOW,
      req_protocol = protocol_num p, req_ip = Some ip, req_port = port,
      req_session = Some sid, req_user = None, req_details = txt_disconnected\<rparr>"

section \<open>Effects\<close>

datatype log_arg = Str string | Num int

datatype eff =
    Send string
  | Audit audit_req
  | Log UtilitiesLogLevel "log_arg list"
  | Close int

fun sends :: "eff list \<Rightarrow> string list" where
  "sends [] = []"
| "sends (e # es) = (case e of Send s \<Rightarrow> s # sends es | _ \<Rightarrow> sends es)"

fun audits :: "eff list \<Rightarrow> audit_req list" where
  "audits [] = []"
| "audits (e # es) = (case e of Audit r \<Rightarrow> r # audits es | _ \<Rightarrow> audits es)"

fun closes :: "eff list \<Rightarrow> int list" where
  "closes [] = []"
| "closes (e # es) = (case e of Close fd \<Rightarrow> fd # closes es | _ \<Rightarrow> closes es)"

lemma sends_append [simp]: "sends (xs @ ys) = sends xs @ sends ys"
  by (induction xs) (auto split: eff.splits)

lemma audits_append [simp]: "audits (xs @ ys) = audits xs @ audits ys"
  by (induction xs) (auto split: eff.splits)

lemma closes_append [simp]: "closes (xs @ ys) = closes xs @ closes ys"
  by (induction xs) (auto split: eff.splits)

section \<open>The peer's socket\<close>

text \<open>
  A connected TCP socket delivers what the peer sends in segments. \<open>recv\<close> with room for
  \<open>cap\<close> bytes returns at most that many and leaves the rest for the next call; it
  returns 0 when the peer has closed (the script is used up) and a negative number on an
  error.
\<close>

datatype segment = Data string | Fail

datatype recv_ret = Got string | Eof | Err

fun recv :: "nat \<Rightarrow> segment list \<Rightarrow> recv_ret \<times> segment list" where
  "recv cap [] = (Eof, [])"
| "recv cap (Fail # ib) = (Err, ib)"
| "recv cap (Data s # ib) =
     (if take cap s = [] then (Eof, ib)
      else if length s \<le> cap then (Got s, ib)
      else (Got (take cap s), Data (drop cap s) # ib))"

fun inbox_size :: "segment list \<Rightarrow> nat" where
  "inbox_size [] = 0"
| "inbox_size (Fail # ib) = Suc (inbox_size ib)"
| "inbox_size (Data s # ib) = Suc (length s + inbox_size ib)"

text \<open>The bytes that arrive before the connection ends or fails.\<close>

fun stream :: "segment list \<Rightarrow> string" where
  "stream [] = []"
| "stream (Fail # ib) = []"
| "stream (Data s # ib) = (if s = [] then [] else s @ stream ib)"

lemma recv_Got:
  assumes "recv cap ib = (Got d, ib')"
  shows "d \<noteq> []" and "length d \<le> cap" and "inbox_size ib' < inbox_size ib"
    and "stream ib = d @ stream ib'"
  using assms by (induction cap ib rule: recv.induct) (auto split: if_splits)

lemma recv_end:
  assumes "recv cap ib = (r, ib')" and "\<And>d. r \<noteq> Got d" and "0 < cap"
  shows "stream ib = []"
  using assms by (induction cap ib rule: recv.induct) (auto split: if_splits)

lemma recv_one [simp]:
  "s \<noteq> [] \<Longrightarrow> length s \<le> cap \<Longrightarrow> recv cap (Data s # ib) = (Got s, ib)"
  by auto

text \<open>A line that one \<open>recv\<close> of \<open>cap\<close> bytes takes with its line end.\<close>

definition sent_line :: "nat \<Rightarrow> string \<Rightarrow> bool" where
  "sent_line cap l \<longleftrightarrow> set l \<inter> {NUL, CR, LF} = {} \<and> length l + 2 \<le> cap"

lemma recv_sent_line: "sent_line cap l \<Longrightarrow> recv cap (Data (l @ CRLF) # ib) = (Got (l @ CRLF), ib)"
  by (simp add: sent_line_def)

lemma sent_line_text: "sent_line cap l \<Longrightarrow> strip_crlf (cstr (l @ CRLF)) = l"
  by (subst cstr_id) (auto simp: sent_line_def nul_free_def strip_crlf_no_crlf)

lemma recv_decreases': "fst (recv cap ib) = Got d \<Longrightarrow> inbox_size (snd (recv cap ib)) < inbox_size ib"
  by (metis prod.collapse recv_Got(3))

lemmas recv_decreases [termination_simp] = recv_Got(3) recv_Got(3) [OF sym]

end
