(* ===== verification/Interfaces.thy ===== *)
theory Interfaces
  imports Platform
begin

text \<open>
  The interfaces between the components, as locales: the operations a client calls, the
  laws the provider promises, and what follows from the laws alone. Each is interpreted on
  the model of the code in the theory of the component that provides it.
\<close>

section \<open>A byte buffer between the network and a parser\<close>

text \<open>
  \<open>pending\<close> are the bytes received and not yet consumed. Appending may fail to return
  once more than \<open>limit\<close> bytes are pending.
\<close>

locale byte_buffer =
  fixes inv :: "'b \<Rightarrow> bool"
    and pending :: "'b \<Rightarrow> string"
    and append :: "'b \<Rightarrow> string \<Rightarrow> 'b option"
    and consume :: "'b \<Rightarrow> nat \<Rightarrow> 'b"
    and limit :: nat
  assumes append_ok:
      "inv b \<Longrightarrow> length (pending b) + length d \<le> limit \<Longrightarrow>
       \<exists>b'. append b d = Some b' \<and> inv b' \<and> pending b' = pending b @ d"
    and consume_ok:
      "inv b \<Longrightarrow> n \<le> length (pending b) \<Longrightarrow>
       inv (consume b n) \<and> pending (consume b n) = drop n (pending b)"
begin

text \<open>How the bytes are cut into segments does not matter.\<close>

lemma append_chunks:
  "inv b \<Longrightarrow> length (pending b) + length (concat ds) \<le> limit \<Longrightarrow>
   \<exists>b'. foldl (\<lambda>r d. Option.bind r (\<lambda>b. append b d)) (Some b) ds = Some b'
        \<and> inv b' \<and> pending b' = pending b @ concat ds"
proof (induction ds arbitrary: b)
  case Nil
  then show ?case by simp
next
  case (Cons d ds)
  then obtain b' where b': "append b d = Some b'" "inv b'" "pending b' = pending b @ d"
    using append_ok [of b d] by auto
  with Cons.prems have "length (pending b') + length (concat ds) \<le> limit" by simp
  from Cons.IH [OF b'(2) this] b' show ?case by simp
qed

lemma consume_appended:
  assumes "inv b" and "pending b = []" and "length d \<le> limit" and "n \<le> length d"
  shows "\<exists>b'. append b d = Some b' \<and> pending (consume b' n) = drop n d"
  using append_ok [of b d] consume_ok assms by fastforce

end

section \<open>A store of sessions by descriptor\<close>

text \<open>
  Several sessions may carry the same descriptor number: \<open>sessions s fd\<close> are their
  addresses, the newest first. \<open>fd_of s a\<close> is the descriptor of the object at
  \<open>a\<close>, \<open>None\<close> once it has been freed.
\<close>

locale session_store =
  fixes inv :: "'s \<Rightarrow> bool"
    and sessions :: "'s \<Rightarrow> int \<Rightarrow> 'a list"
    and fd_of :: "'s \<Rightarrow> 'a \<Rightarrow> int option"
    and add :: "'s \<Rightarrow> 'a \<Rightarrow> 'e + 's"
    and get :: "'s \<Rightarrow> int \<Rightarrow> 'e + 'a option"
    and remove :: "'s \<Rightarrow> int \<Rightarrow> 'e + 's"
  assumes add_ok:
      "inv s \<Longrightarrow> fd_of s a = Some fd \<Longrightarrow> a \<notin> set (sessions s fd) \<Longrightarrow>
       \<exists>s'. add s a = Inr s' \<and> inv s' \<and> sessions s' = (sessions s)(fd := a # sessions s fd)
            \<and> fd_of s' = fd_of s"
    and get_ok:
      "inv s \<Longrightarrow> get s fd = Inr (case sessions s fd of [] \<Rightarrow> None | a # _ \<Rightarrow> Some a)"
    and remove_none: "inv s \<Longrightarrow> sessions s fd = [] \<Longrightarrow> remove s fd = Inr s"
    and remove_ok:
      "inv s \<Longrightarrow> sessions s fd = a # as \<Longrightarrow>
       \<exists>s'. remove s fd = Inr s' \<and> inv s' \<and> sessions s' = (sessions s)(fd := as)
            \<and> fd_of s' = (fd_of s)(a := None)"
begin

lemma get_after_add:
  assumes "inv s" "fd_of s a = Some fd" "a \<notin> set (sessions s fd)"
  shows "\<exists>s'. add s a = Inr s' \<and> get s' fd = Inr (Some a)
              \<and> (\<forall>fd'. fd' \<noteq> fd \<longrightarrow> get s' fd' = get s fd')"
proof -
  from add_ok [OF assms] obtain s' where s':
    "add s a = Inr s'" "inv s'" "sessions s' = (sessions s)(fd := a # sessions s fd)" by auto
  then show ?thesis using get_ok assms(1) by (intro exI [of _ s']) simp
qed

text \<open>The life of one connection: added, then removed by its descriptor.\<close>

lemma add_remove:
  assumes "inv s" "fd_of s a = Some fd" "a \<notin> set (sessions s fd)"
  shows "\<exists>s' s''. add s a = Inr s' \<and> remove s' fd = Inr s'' \<and> inv s''
              \<and> sessions s'' = sessions s \<and> fd_of s'' = (fd_of s)(a := None)"
proof -
  from add_ok [OF assms] obtain s' where s':
    "add s a = Inr s'" "inv s'" "sessions s' = (sessions s)(fd := a # sessions s fd)"
    "fd_of s' = fd_of s" by auto
  then have "sessions s' fd = a # sessions s fd" by simp
  from remove_ok [OF s'(2) this] s' show ?thesis by auto
qed

text \<open>
  A descriptor number that is used again before the old session is removed: removing by
  the number frees the newer session's object and leaves the older one in the store.
\<close>

lemma remove_frees_newest:
  assumes "inv s" "sessions s fd = [old]" "fd_of s new = Some fd" "new \<noteq> old"
  shows "\<exists>s' s''. add s new = Inr s' \<and> remove s' fd = Inr s''
              \<and> fd_of s'' new = None \<and> get s'' fd = Inr (Some old)"
proof -
  have "new \<notin> set (sessions s fd)" using assms by simp
  from add_remove [OF assms(1,3) this] obtain s' s'' where
    "add s new = Inr s'" "remove s' fd = Inr s''" "inv s''"
    "sessions s'' = sessions s" "fd_of s'' = (fd_of s)(new := None)" by auto
  with get_ok assms(2) show ?thesis by auto
qed

end

section \<open>A bounded first-in first-out queue\<close>

text \<open>
  \<open>items q\<close> are the elements, the oldest first. Nothing is put into a full queue.
\<close>

locale bounded_fifo =
  fixes inv :: "'q \<Rightarrow> bool"
    and items :: "'q \<Rightarrow> 'x list"
    and bound :: nat
    and full :: "'q \<Rightarrow> bool"
    and put :: "'q \<Rightarrow> 'x \<Rightarrow> 'q"
    and first :: "'q \<Rightarrow> 'x"
    and pop :: "'q \<Rightarrow> 'q"
  assumes bounded: "inv q \<Longrightarrow> length (items q) \<le> bound"
    and full_iff: "inv q \<Longrightarrow> full q \<longleftrightarrow> length (items q) = bound"
    and put_ok: "inv q \<Longrightarrow> \<not> full q \<Longrightarrow> inv (put q x) \<and> items (put q x) = items q @ [x]"
    and pop_ok: "inv q \<Longrightarrow> items q = x # xs \<Longrightarrow> first q = x \<and> inv (pop q) \<and> items (pop q) = xs"
begin

text \<open>Offering elements one after the other keeps as many of them as there is room for.\<close>

lemma offer_all:
  "inv q \<Longrightarrow> inv (foldl (\<lambda>q x. if full q then q else put q x) q xs)
     \<and> items (foldl (\<lambda>q x. if full q then q else put q x) q xs) = take bound (items q @ xs)"
proof (induction xs arbitrary: q)
  case Nil
  then show ?case using bounded by simp
next
  case (Cons x xs)
  show ?case
  proof (cases "full q")
    case True
    with Cons show ?thesis using full_iff by simp
  next
    case False
    with Cons.IH [of "put q x"] Cons.prems put_ok [of q x] show ?thesis by simp
  qed
qed

text \<open>Taking elements out one after the other yields them in the order of the queue.\<close>

lemma pop_all:
  "inv q \<Longrightarrow> n \<le> length (items q) \<Longrightarrow>
   inv ((pop ^^ n) q) \<and> items ((pop ^^ n) q) = drop n (items q)
   \<and> map (\<lambda>k. first ((pop ^^ k) q)) [0..<n] = take n (items q)"
proof (induction n)
  case (Suc n)
  then have inv: "inv ((pop ^^ n) q)" and items: "items ((pop ^^ n) q) = drop n (items q)"
    and taken: "map (\<lambda>k. first ((pop ^^ k) q)) [0..<n] = take n (items q)" by auto
  from Suc.prems have "drop n (items q) = items q ! n # drop (Suc n) (items q)"
    by (simp add: Cons_nth_drop_Suc)
  with items have "items ((pop ^^ n) q) = items q ! n # drop (Suc n) (items q)" by simp
  from pop_ok [OF inv this] taken Suc.prems show ?case
    by (simp add: take_Suc_conv_app_nth)
qed simp

end

end
