(* ===== verification/Audit_Trail.thy ===== *)
theory Audit_Trail
  imports Interfaces
begin

text \<open>
  src/utilities/audit.c with include/audit.h: the audit trail. Any thread may record an
  event; the event goes into a ring buffer of \<open>AUDIT_RING_BUFFER_SIZE\<close> records under the
  mutex of the trail, or is counted as dropped when the ring is full. One thread drains the
  ring into the log file.

  The world outside (the clock, the time zone, whether \<open>open\<close>, \<open>fdopen\<close>, \<open>mkdir\<close> and
  \<open>calloc\<close> succeed) is a parameter of each operation; a file is its contents, and writing to a file that is
  open succeeds. Counters and
  indices are 64-bit words, as \<open>size_t\<close> and \<open>uint64_t\<close> are.
\<close>

section \<open>Data\<close>

definition AUDIT_MAX_IP_LEN :: nat where "AUDIT_MAX_IP_LEN = 46"
definition AUDIT_MAX_USER_LEN :: nat where "AUDIT_MAX_USER_LEN = 128"
definition AUDIT_MAX_DETAIL_LEN :: nat where "AUDIT_MAX_DETAIL_LEN = 2048"
definition AUDIT_MAX_SESSION_ID_LEN :: nat where "AUDIT_MAX_SESSION_ID_LEN = 64"
definition AUDIT_LOG_DIR :: string where "AUDIT_LOG_DIR = ''audit_logs''"
definition AUDIT_RING_BUFFER_SIZE :: size_t where "AUDIT_RING_BUFFER_SIZE = 4096"

record audit_record =
  timestamp :: int
  sequence_number :: "64 word"
  event_type :: audit_event_type
  severity :: audit_severity
  rec_protocol :: int
  source_port :: int
  source_ip :: string
  session_id :: string
  username :: string
  details :: string

text \<open>\<open>current_log_file\<close> is the path the open stream writes to, \<open>None\<close> a NULL stream.\<close>

record audit_trail =
  ring_buffer :: "audit_record list"
  capacity :: size_t
  head :: size_t
  count :: size_t
  next_sequence :: "64 word"
  current_log_file :: "string option"
  current_log_path :: string
  running :: bool
  total_records :: size_t
  dropped_records :: size_t

record tm =
  tm_year :: int
  tm_mon :: int
  tm_mday :: int
  tm_hour :: int
  tm_min :: int
  tm_sec :: int

text \<open>What the system calls of one operation answer.\<close>

record audit_env =
  env_now :: int
  env_isdir :: bool
  env_mkdir :: bool
  env_open :: bool
  env_fdopen :: bool
  env_calloc :: bool
  env_thread :: bool

text \<open>The files by path, and the lines sent to the logger.\<close>

record audit_world =
  files :: "string \<Rightarrow> string"
  diag :: "eff list"

section \<open>Names\<close>

fun audit_event_type_str :: "audit_event_type \<Rightarrow> string" where
  "audit_event_type_str AUDIT_EVENT_CONNECTION =
     [CHR 0xE8, CHR 0xBF, CHR 0x9E, CHR 0xE6, CHR 0x8E, CHR 0xA5, CHR 0xE5, CHR 0xBB,
     CHR 0xBA, CHR 0xE7, CHR 0xAB, CHR 0x8B]"
| "audit_event_type_str AUDIT_EVENT_DISCONNECTION =
     [CHR 0xE8, CHR 0xBF, CHR 0x9E, CHR 0xE6, CHR 0x8E, CHR 0xA5, CHR 0xE6, CHR 0x96,
     CHR 0xAD, CHR 0xE5, CHR 0xBC, CHR 0x80]"
| "audit_event_type_str AUDIT_EVENT_AUTH_ATTEMPT =
     [CHR 0xE8, CHR 0xAE, CHR 0xA4, CHR 0xE8, CHR 0xAF, CHR 0x81, CHR 0xE5, CHR 0xB0,
     CHR 0x9D, CHR 0xE8, CHR 0xAF, CHR 0x95]"
| "audit_event_type_str AUDIT_EVENT_AUTH_SUCCESS =
     [CHR 0xE8, CHR 0xAE, CHR 0xA4, CHR 0xE8, CHR 0xAF, CHR 0x81, CHR 0xE6, CHR 0x88,
     CHR 0x90, CHR 0xE5, CHR 0x8A, CHR 0x9F]"
| "audit_event_type_str AUDIT_EVENT_AUTH_FAILURE =
     [CHR 0xE8, CHR 0xAE, CHR 0xA4, CHR 0xE8, CHR 0xAF, CHR 0x81, CHR 0xE5, CHR 0xA4,
     CHR 0xB1, CHR 0xE8, CHR 0xB4, CHR 0xA5]"
| "audit_event_type_str AUDIT_EVENT_COMMAND =
     [CHR 0xE5, CHR 0x91, CHR 0xBD, CHR 0xE4, CHR 0xBB, CHR 0xA4, CHR 0xE6, CHR 0x89,
     CHR 0xA7, CHR 0xE8, CHR 0xA1, CHR 0x8C]"
| "audit_event_type_str AUDIT_EVENT_FILE_ACCESS =
     [CHR 0xE6, CHR 0x96, CHR 0x87, CHR 0xE4, CHR 0xBB, CHR 0xB6, CHR 0xE8, CHR 0xAE,
     CHR 0xBF, CHR 0xE9, CHR 0x97, CHR 0xAE]"
| "audit_event_type_str AUDIT_EVENT_FILE_MODIFY =
     [CHR 0xE6, CHR 0x96, CHR 0x87, CHR 0xE4, CHR 0xBB, CHR 0xB6, CHR 0xE4, CHR 0xBF,
     CHR 0xAE, CHR 0xE6, CHR 0x94, CHR 0xB9]"
| "audit_event_type_str AUDIT_EVENT_DATA_EXFIL =
     [CHR 0xE6, CHR 0x95, CHR 0xB0, CHR 0xE6, CHR 0x8D, CHR 0xAE, CHR 0xE5, CHR 0xA4,
     CHR 0x96, CHR 0xE6, CHR 0xB3, CHR 0x84]"
| "audit_event_type_str AUDIT_EVENT_SCAN_PROBE =
     [CHR 0xE6, CHR 0x89, CHR 0xAB, CHR 0xE6, CHR 0x8F, CHR 0x8F, CHR 0xE6, CHR 0x8E,
     CHR 0xA2, CHR 0xE6, CHR 0xB5, CHR 0x8B]"
| "audit_event_type_str AUDIT_EVENT_EXPLOIT_ATTEMPT =
     [CHR 0xE6, CHR 0xBC, CHR 0x8F, CHR 0xE6, CHR 0xB4, CHR 0x9E, CHR 0xE5, CHR 0x88,
     CHR 0xA9, CHR 0xE7, CHR 0x94, CHR 0xA8]"
| "audit_event_type_str AUDIT_EVENT_PROTOCOL_ERROR =
     [CHR 0xE5, CHR 0x8D, CHR 0x8F, CHR 0xE8, CHR 0xAE, CHR 0xAE, CHR 0xE9, CHR 0x94,
     CHR 0x99, CHR 0xE8, CHR 0xAF, CHR 0xAF]"

fun audit_severity_str :: "audit_severity \<Rightarrow> string" where
  "audit_severity_str AUDIT_SEVERITY_LOW = [CHR 0xE4, CHR 0xBD, CHR 0x8E]"
| "audit_severity_str AUDIT_SEVERITY_MEDIUM = [CHR 0xE4, CHR 0xB8, CHR 0xAD]"
| "audit_severity_str AUDIT_SEVERITY_HIGH = [CHR 0xE9, CHR 0xAB, CHR 0x98]"
| "audit_severity_str AUDIT_SEVERITY_CRITICAL =
     [CHR 0xE4, CHR 0xB8, CHR 0xA5, CHR 0xE9, CHR 0x87, CHR 0x8D]"

definition protocol_name :: "int \<Rightarrow> string" where
  "protocol_name proto =
     (if proto = 1 then ''HTTP'' else if proto = 2 then ''HTTPS''
      else if proto = 3 then ''FTP'' else if proto = 4 then ''FTPS''
      else if proto = 5 then ''SSH'' else if proto = 6 then ''TELNET''
      else if proto = 7 then ''SMTP'' else if proto = 8 then ''POP3''
      else if proto = 9 then ''IMAP'' else if proto = 10 then ''DNS''
      else if proto = 11 then ''MYSQL'' else if proto = 12 then ''POSTGRESQL''
      else if proto = 13 then ''REDIS'' else if proto = 14 then ''QUESTDB''
      else ''UNKNOWN'')"

section \<open>The log file\<close>

definition ensure_audit_dir :: "audit_env \<Rightarrow> audit_world \<Rightarrow> int \<times> audit_world" where
  "ensure_audit_dir e w =
     (if env_isdir e then (0, w)
      else if \<not> env_mkdir e then (- 1, w\<lparr>diag := diag w @ [Log UTILITIES_ERROR []]\<rparr>)
      else (0, w))"

text \<open>\<open>printf("%0*d", width, i)\<close>.\<close>

definition pad_int :: "nat \<Rightarrow> int \<Rightarrow> string" where
  "pad_int width i =
     (let d = dec (nat \<bar>i\<bar>); s = (if i < 0 then ''-'' else '''') in
      s @ replicate (width - length s - length d) CHR ''0'' @ d)"

definition audit_log_name :: "tm \<Rightarrow> string" where
  "audit_log_name t =
     snprintf 512 (AUDIT_LOG_DIR @ ''/audit_'' @ pad_int 4 (tm_year t + 1900)
       @ pad_int 2 (tm_mon t + 1) @ pad_int 2 (tm_mday t) @ ''_'' @ pad_int 2 (tm_hour t)
       @ pad_int 2 (tm_min t) @ pad_int 2 (tm_sec t) @ ''.log'')"

definition rotate_log_file ::
  "(int \<Rightarrow> tm) \<Rightarrow> audit_env \<Rightarrow> audit_trail \<Rightarrow> audit_world \<Rightarrow> int \<times> audit_trail \<times> audit_world" where
  "rotate_log_file localtime e trail w =
     (let new_path = audit_log_name (localtime (env_now e)) in
      if current_log_file trail \<noteq> None \<and> current_log_path trail = new_path then (0, trail, w)
      else
        let trail = trail\<lparr>current_log_file := None\<rparr> in
        if \<not> env_open e \<or> \<not> env_fdopen e then
          (- 1, trail, w\<lparr>diag := diag w @ [Log UTILITIES_ERROR [Str new_path]]\<rparr>)
        else
          (0, trail\<lparr>current_log_file := Some new_path, current_log_path := strncpy new_path 511\<rparr>,
           w\<lparr>diag := diag w @ [Log UTILITIES_INFO [Str new_path]]\<rparr>))"

definition time_text :: "tm \<Rightarrow> string" where
  "time_text t = dec_int (tm_year t + 1900) @ ''-'' @ pad_int 2 (tm_mon t + 1) @ ''-''
     @ pad_int 2 (tm_mday t) @ '' '' @ pad_int 2 (tm_hour t) @ '':'' @ pad_int 2 (tm_min t)
     @ '':'' @ pad_int 2 (tm_sec t)"

definition record_line :: "(int \<Rightarrow> tm) \<Rightarrow> audit_record \<Rightarrow> string" where
  "record_line localtime rec =
     ''['' @ time_text (localtime (timestamp rec)) @ ''] SEQ='' @ dec (unat (sequence_number rec))
     @ [CHR 0x20, CHR 0xE4, CHR 0xB8, CHR 0xA5, CHR 0xE9, CHR 0x87, CHR 0x8D, CHR 0xE6,
     CHR 0x80, CHR 0xA7, CHR 0x3D]
     @ audit_severity_str (severity rec)
     @ [CHR 0x20, CHR 0xE5, CHR 0x8D, CHR 0x8F, CHR 0xE8, CHR 0xAE, CHR 0xAE, CHR 0x3D] @ protocol_name (rec_protocol rec)
     @ [CHR 0x20, CHR 0xE4, CHR 0xBA, CHR 0x8B, CHR 0xE4, CHR 0xBB, CHR 0xB6, CHR 0x3D] @ audit_event_type_str (event_type rec)
     @ [CHR 0x20, CHR 0xE6, CHR 0x9D, CHR 0xA5, CHR 0xE6, CHR 0xBA, CHR 0x90, CHR 0x3D] @ source_ip rec @ '':'' @ dec_int (source_port rec)
     @ [CHR 0x20, CHR 0xE4, CHR 0xBC, CHR 0x9A, CHR 0xE8, CHR 0xAF, CHR 0x9D, CHR 0x3D] @ session_id rec
     @ [CHR 0x20, CHR 0xE7, CHR 0x94, CHR 0xA8, CHR 0xE6, CHR 0x88, CHR 0xB7, CHR 0x3D] @ (if username rec \<noteq> [] then username rec else ''-'')
     @ [CHR 0x20, CHR 0xE8, CHR 0xAF, CHR 0xA6, CHR 0xE6, CHR 0x83, CHR 0x85, CHR 0x3D] @ details rec @ [LF]"

text \<open>
  The results of \<open>fprintf\<close> and \<open>fflush\<close> are ignored by the code; here both succeed on a stream that is
  open, so a full disk is outside of the model. Opening the stream may fail.
\<close>

definition write_record ::
  "(int \<Rightarrow> tm) \<Rightarrow> audit_env \<Rightarrow> audit_trail \<Rightarrow> audit_world \<Rightarrow> audit_record \<Rightarrow> audit_trail \<times> audit_world" where
  "write_record localtime e trail w rec =
     (let (r, trail, w) = (if current_log_file trail = None
                           then rotate_log_file localtime e trail w else (0, trail, w)) in
      if r \<noteq> 0 then (trail, w)
      else (trail, (case current_log_file trail of
                      None \<Rightarrow> w
                    | Some p \<Rightarrow> w\<lparr>files := (files w)(p := files w p @ record_line localtime rec)\<rparr>)))"

section \<open>The ring buffer\<close>

text \<open>
  \<open>&ring_buffer[(head - count) % capacity]\<close>, the oldest record, with the subtraction
  wrapping around at 2 to the 64, and \<open>count--\<close>.
\<close>

definition oldest :: "audit_trail \<Rightarrow> audit_record" where
  "oldest trail = ring_buffer trail ! unat ((head trail - count trail) mod capacity trail)"

definition pop_oldest :: "audit_trail \<Rightarrow> audit_trail" where
  "pop_oldest trail = trail\<lparr>count := count trail - 1\<rparr>"

text \<open>The slot at \<open>head\<close> is filled, then \<open>head\<close> and \<open>count\<close> move.\<close>

definition put_record :: "audit_trail \<Rightarrow> audit_record \<Rightarrow> audit_trail" where
  "put_record trail rec =
     trail\<lparr>ring_buffer := (ring_buffer trail)[unat (head trail) := rec],
           head := (head trail + 1) mod capacity trail,
           count := count trail + 1\<rparr>"

text \<open>
  The record an event becomes. \<open>strncpy\<close> into the zeroed slot leaves the text cut to one
  byte less than the field.
\<close>

definition make_record :: "int \<Rightarrow> 64 word \<Rightarrow> audit_req \<Rightarrow> audit_record" where
  "make_record now seq r =
     \<lparr>timestamp = now, sequence_number = seq, event_type = req_type r,
      severity = req_severity r, rec_protocol = req_protocol r, source_port = req_port r,
      source_ip = strncpy (case req_ip r of Some s \<Rightarrow> s | None \<Rightarrow> ''unknown'') (AUDIT_MAX_IP_LEN - 1),
      session_id = strncpy (case req_session r of Some s \<Rightarrow> s | None \<Rightarrow> ''-'')
                     (AUDIT_MAX_SESSION_ID_LEN - 1),
      username = strncpy (case req_user r of Some s \<Rightarrow> s | None \<Rightarrow> '''') (AUDIT_MAX_USER_LEN - 1),
      details = snprintf AUDIT_MAX_DETAIL_LEN (req_details r)\<rparr>"

definition audit_record_event :: "int \<Rightarrow> audit_req \<Rightarrow> audit_trail \<Rightarrow> audit_trail" where
  "audit_record_event now r trail =
     (if capacity trail \<le> count trail
      then trail\<lparr>dropped_records := dropped_records trail + 1\<rparr>
      else
        let rec = make_record now (next_sequence trail) r;
            trail = put_record (trail\<lparr>next_sequence := next_sequence trail + 1\<rparr>) rec
        in trail\<lparr>total_records := total_records trail + 1\<rparr>)"

text \<open>
  The loop \<open>while (trail->count > 0)\<close> of the flush thread. \<open>env n\<close> is what the
  system answers while \<open>n\<close> records are left.
\<close>

function drain ::
  "(int \<Rightarrow> tm) \<Rightarrow> (size_t \<Rightarrow> audit_env) \<Rightarrow> audit_trail \<Rightarrow> audit_world \<Rightarrow> audit_trail \<times> audit_world" where
  "drain localtime env trail w =
     (if count trail = 0 then (trail, w)
      else
        let (trail', w') = write_record localtime (env (count trail)) trail w (oldest trail) in
        drain localtime env (trail'\<lparr>count := count trail - 1\<rparr>) w')"
  by pat_completeness auto
termination
  by (relation "measure (\<lambda>(_, _, trail, _). unat (count trail))")
    (auto simp: unat_minus_one unat_gt_0)

declare drain.simps [simp del]

section \<open>Session identifiers\<close>

definition hex :: string where
  "hex = ''0123456789abcdef''"

definition hex_pair :: "byte \<Rightarrow> string" where
  "hex_pair b = [hex ! unat (and (drop_bit 4 b) 0x0F), hex ! unat (and b 0x0F)]"

text \<open>A loop over some bytes of the identifier; it stops before the last byte of the buffer.\<close>

fun emit_bytes :: "nat \<Rightarrow> string \<Rightarrow> byte list \<Rightarrow> string" where
  "emit_bytes buf_len buf [] = buf"
| "emit_bytes buf_len buf (b # bs) =
     (if length buf < buf_len - 1 then emit_bytes buf_len (buf @ hex_pair b) bs else buf)"

definition emit_dash :: "nat \<Rightarrow> string \<Rightarrow> string" where
  "emit_dash buf_len buf = (if length buf < buf_len - 1 then buf @ ''-'' else buf)"

text \<open>
  The fallback when \<open>getrandom\<close> fails: \<open>unsigned int\<close> arithmetic wraps around at 2 to
  the 32, \<open>time(NULL) + i\<close> is 64 bits wide. \<open>clock k\<close> is the result of the \<open>k\<close>-th
  call of \<open>time\<close>.
\<close>

fun fallback_bytes :: "(nat \<Rightarrow> int) \<Rightarrow> nat \<Rightarrow> nat \<Rightarrow> 32 word \<Rightarrow> byte list" where
  "fallback_bytes clock i 0 seed = []"
| "fallback_bytes clock i (Suc n) seed =
     (let b = ucast (drop_bit 16 (seed * 1103515245 + 12345)) :: byte;
          seed' = ucast (xor (ucast b) (word_of_int (clock (Suc i)) + of_nat i :: 64 word)) :: 32 word
      in b # fallback_bytes clock (Suc i) n seed')"

definition stamp_version :: "byte list \<Rightarrow> byte list" where
  "stamp_version uuid =
     (let uuid = uuid[6 := or (and (uuid ! 6) 0x0F) 0x40]
      in uuid[8 := or (and (uuid ! 8) 0x3F) 0x80])"

definition uuid_text :: "nat \<Rightarrow> byte list \<Rightarrow> string" where
  "uuid_text buf_len uuid =
     (let buf = emit_bytes buf_len [] (take 4 uuid);
          buf = emit_dash buf_len buf;
          buf = emit_bytes buf_len buf (take 2 (drop 4 uuid));
          buf = emit_dash buf_len buf;
          buf = emit_bytes buf_len buf (take 2 (drop 6 uuid));
          buf = emit_dash buf_len buf;
          buf = emit_bytes buf_len buf (take 2 (drop 8 uuid));
          buf = emit_dash buf_len buf
      in emit_bytes buf_len buf (take 6 (drop 10 uuid)))"

text \<open>\<open>None\<close>: the buffer is too small and left alone. \<open>rnd\<close> are the bytes of \<open>getrandom\<close>.\<close>

definition audit_generate_session_id ::
  "byte list option \<Rightarrow> (nat \<Rightarrow> int) \<Rightarrow> int \<Rightarrow> nat \<Rightarrow> string option" where
  "audit_generate_session_id rnd clock pid buf_len =
     (if buf_len < 37 then None
      else
        let uuid = (case rnd of
                      Some bytes \<Rightarrow> bytes
                    | None \<Rightarrow> fallback_bytes clock 0 16
                                (xor (word_of_int (clock 0)) (word_of_int pid)))
        in Some (uuid_text buf_len (stamp_version uuid)))"

section \<open>Start\<close>

definition empty_record :: audit_record where
  "empty_record = \<lparr>timestamp = 0, sequence_number = 0, event_type = AUDIT_EVENT_CONNECTION,
     severity = AUDIT_SEVERITY_LOW, rec_protocol = 0, source_port = 0, source_ip = [],
     session_id = [], username = [], details = []\<rparr>"

text \<open>A trail set to zero by \<open>memset\<close>, with the values \<open>audit_init\<close> then assigns.\<close>

definition fresh_trail :: audit_trail where
  "fresh_trail = \<lparr>ring_buffer = replicate (unat AUDIT_RING_BUFFER_SIZE) empty_record,
     capacity = AUDIT_RING_BUFFER_SIZE, head = 0, count = 0, next_sequence = 1,
     current_log_file = None, current_log_path = [], running = True, total_records = 0,
     dropped_records = 0\<rparr>"

text \<open>\<open>None\<close> is the result \<open>-1\<close>, after which the program does not use the trail.\<close>

definition audit_init ::
  "(int \<Rightarrow> tm) \<Rightarrow> audit_env \<Rightarrow> audit_world \<Rightarrow> audit_trail option \<times> audit_world" where
  "audit_init localtime e w =
     (let (r, w) = ensure_audit_dir e w in
      if r \<noteq> 0 then (None, w)
      else if \<not> env_calloc e then (None, w\<lparr>diag := diag w @ [Log UTILITIES_ERROR []]\<rparr>)
      else
        let (r, trail, w) = rotate_log_file localtime e fresh_trail w in
        if r \<noteq> 0 then (None, w)
        else if \<not> env_thread e then (None, w\<lparr>diag := diag w @ [Log UTILITIES_ERROR []]\<rparr>)
        else (Some trail,
              w\<lparr>diag := diag w @ [Log UTILITIES_INFO [Num (uint (capacity trail))]]\<rparr>))"

section \<open>The threads\<close>

text \<open>
  The program counter of \<open>flush_thread_func\<close>: before the test of \<open>while (trail->running)\<close>,
  inside that loop, after it, and returned.
\<close>

datatype flush_pc = Loop_Head | In_Loop | After_Loop | Finished

text \<open>
  The trail, the world and the flush thread. \<open>accepted\<close> and \<open>calls\<close> are ghost state, the
  records ever put into the ring and the number of calls of \<open>audit_record_event\<close>.
\<close>

record audit_sys =
  trail :: audit_trail
  world :: audit_world
  flusher :: flush_pc
  accepted :: "audit_record list"
  calls :: nat

text \<open>
  One step of the flush thread. Each critical section is one step; in the loop the thread
  waits on the condition variable while the ring is empty and the trail is running, then it
  has no step (\<open>None\<close>).
\<close>

definition flush_thread_func ::
  "(int \<Rightarrow> tm) \<Rightarrow> (size_t \<Rightarrow> audit_env) \<Rightarrow> audit_sys \<Rightarrow> audit_sys option" where
  "flush_thread_func localtime env s =
     (case flusher s of
        Loop_Head \<Rightarrow> Some (s\<lparr>flusher := if running (trail s) then In_Loop else After_Loop\<rparr>)
      | In_Loop \<Rightarrow>
          if count (trail s) = 0 \<and> running (trail s) then None
          else let (t, w) = drain localtime env (trail s) (world s)
               in Some (s\<lparr>trail := t, world := w, flusher := Loop_Head\<rparr>)
      | After_Loop \<Rightarrow>
          let (t, w) = drain localtime env (trail s) (world s)
          in Some (s\<lparr>trail := t, world := w, flusher := Finished\<rparr>)
      | Finished \<Rightarrow> None)"

definition record_call :: "int \<Rightarrow> audit_req \<Rightarrow> audit_sys \<Rightarrow> audit_sys" where
  "record_call now r s =
     s\<lparr>trail := audit_record_event now r (trail s),
       accepted := accepted s @
         (if capacity (trail s) \<le> count (trail s) then []
          else [make_record now (next_sequence (trail s)) r]),
       calls := Suc (calls s)\<rparr>"

definition audit_stop :: "audit_sys \<Rightarrow> audit_sys" where
  "audit_stop s = s\<lparr>trail := (trail s)\<lparr>running := False\<rparr>\<rparr>"

text \<open>Every interleaving of the recording threads, the flush thread and the shutdown.\<close>

inductive audit_step :: "(int \<Rightarrow> tm) \<Rightarrow> audit_sys \<Rightarrow> audit_sys \<Rightarrow> bool" for localtime where
  step_record: "audit_step localtime s (record_call now r s)"
| step_flush: "flush_thread_func localtime env s = Some s' \<Longrightarrow> audit_step localtime s s'"
| step_stop: "audit_step localtime s (audit_stop s)"

text \<open>The system \<open>audit_init\<close> starts.\<close>

definition audit_start :: "audit_trail \<Rightarrow> audit_world \<Rightarrow> audit_sys" where
  "audit_start t w = \<lparr>trail = t, world = w, flusher = Loop_Head, accepted = [], calls = 0\<rparr>"

text \<open>
  \<open>audit_shutdown\<close>: the flag is cleared, \<open>pthread_join\<close> lets the flush thread run to its
  end, the file is closed. \<open>env\<close> and \<open>n\<close> are what the system answers to the thread and the
  number of steps the thread is given.
\<close>

fun run_flusher ::
  "(int \<Rightarrow> tm) \<Rightarrow> (size_t \<Rightarrow> audit_env) \<Rightarrow> nat \<Rightarrow> audit_sys \<Rightarrow> audit_sys" where
  "run_flusher localtime env 0 s = s"
| "run_flusher localtime env (Suc n) s =
     (case flush_thread_func localtime env s of
        None \<Rightarrow> s
      | Some s' \<Rightarrow> run_flusher localtime env n s')"

definition audit_shutdown ::
  "(int \<Rightarrow> tm) \<Rightarrow> (size_t \<Rightarrow> audit_env) \<Rightarrow> nat \<Rightarrow> audit_sys \<Rightarrow> audit_sys option" where
  "audit_shutdown localtime env n s =
     (let s = run_flusher localtime env n (audit_stop s) in
      if flusher s \<noteq> Finished then None
      else Some (s\<lparr>trail := (trail s)\<lparr>current_log_file := None\<rparr>,
                   world := (world s)\<lparr>diag := diag (world s) @
                     [Log UTILITIES_INFO [Num (uint (total_records (trail s))),
                                          Num (uint (dropped_records (trail s)))]]\<rparr>\<rparr>))"

section \<open>The ring is a bounded queue\<close>

definition ring_ok :: "audit_trail \<Rightarrow> bool" where
  "ring_ok t \<longleftrightarrow> capacity t = AUDIT_RING_BUFFER_SIZE
     \<and> length (ring_buffer t) = unat (capacity t)
     \<and> head t < capacity t \<and> count t \<le> capacity t"

text \<open>The slot of the \<open>i\<close>-th oldest record, and the records from the oldest to the newest.\<close>

definition slot :: "audit_trail \<Rightarrow> nat \<Rightarrow> nat" where
  "slot t i = (unat (head t) + 4096 - unat (count t) + i) mod 4096"

definition queued :: "audit_trail \<Rightarrow> audit_record list" where
  "queued t = map (\<lambda>i. ring_buffer t ! slot t i) [0..<unat (count t)]"

definition full :: "audit_trail \<Rightarrow> bool" where
  "full t \<longleftrightarrow> capacity t \<le> count t"

lemma ring_okD:
  assumes "ring_ok t"
  shows "capacity t = 4096" "length (ring_buffer t) = 4096" "unat (head t) < 4096"
    "unat (count t) \<le> 4096"
  using assms
  by (auto simp: ring_ok_def AUDIT_RING_BUFFER_SIZE_def word_less_nat_alt word_le_nat_alt)

text \<open>The size of the ring divides 2 to the 64, so the wrap-around of the subtraction is harmless.\<close>

lemma unat_diff_mod_4096:
  assumes "unat (c :: size_t) \<le> 4096"
  shows "unat ((h - c) mod 4096) = (unat h + 4096 - unat c) mod 4096"
proof -
  have "int (unat ((h - c) mod 4096)) = uint (h - c) mod 4096"
    by (simp add: uint_mod)
  also have "\<dots> = ((uint h - uint c) mod 2 ^ 64) mod 4096"
    by (simp add: uint_word_ariths)
  also have "\<dots> = (uint h - uint c) mod 4096"
    by (simp add: mod_mod_cancel)
  also have "\<dots> = (uint h + 4096 - uint c) mod 4096"
    by (metis add.commute add_diff_eq mod_add_self1)
  also have "\<dots> = int ((unat h + 4096 - unat c) mod 4096)"
    using assms by (simp add: of_nat_diff zmod_int)
  finally show ?thesis by (simp only: of_nat_eq_iff)
qed

lemma oldest_slot:
  assumes "ring_ok t"
  shows "oldest t = ring_buffer t ! slot t 0"
  using unat_diff_mod_4096 [OF ring_okD(4) [OF assms], of "head t"] ring_okD(1) [OF assms]
  by (simp add: oldest_def slot_def)

lemma length_queued [simp]: "length (queued t) = unat (count t)"
  by (simp add: queued_def)

lemma pop_oldest_fields:
  "head (pop_oldest t) = head t" "count (pop_oldest t) = count t - 1"
  "ring_buffer (pop_oldest t) = ring_buffer t" "capacity (pop_oldest t) = capacity t"
  by (simp_all add: pop_oldest_def)

lemma put_record_fields:
  "head (put_record t r) = (head t + 1) mod capacity t" "count (put_record t r) = count t + 1"
  "ring_buffer (put_record t r) = (ring_buffer t)[unat (head t) := r]"
  "capacity (put_record t r) = capacity t"
  by (simp_all add: put_record_def)

lemma pop_oldest_ok:
  assumes ok: "ring_ok t" and items: "queued t = x # xs"
  shows "oldest t = x \<and> ring_ok (pop_oldest t) \<and> queued (pop_oldest t) = xs"
proof -
  have pos: "0 < unat (count t)" using items length_queued [of t] by simp
  then have nz: "count t \<noteq> 0" by (simp add: unat_gt_0)
  then have dec: "unat (count t - 1) = unat (count t) - 1" by (simp add: unat_minus_one)
  have upt: "[0..<unat (count t)] = 0 # map Suc [0..<unat (count t) - 1]"
    using pos by (metis Suc_diff_1 map_Suc_upt upt_conv_Cons)
  have "slot (pop_oldest t) i = slot t (Suc i)" for i
  proof -
    have "unat (head t) + 4096 - (unat (count t) - 1) + i = unat (head t) + 4096 - unat (count t) + Suc i"
      using ring_okD(4) [OF ok] pos by linarith
    then show ?thesis by (simp only: slot_def pop_oldest_fields dec)
  qed
  then have "queued (pop_oldest t) = map (\<lambda>i. ring_buffer t ! slot t (Suc i)) [0..<unat (count t) - 1]"
    by (simp add: queued_def pop_oldest_def dec)
  moreover have "queued t = ring_buffer t ! slot t 0 # map (\<lambda>i. ring_buffer t ! slot t (Suc i)) [0..<unat (count t) - 1]"
    by (simp only: queued_def upt list.map map_map comp_def)
  moreover have "ring_ok (pop_oldest t)"
    using ok nz by (auto simp: ring_ok_def pop_oldest_def word_le_nat_alt dec)
  ultimately show ?thesis using items oldest_slot [OF ok] by simp
qed

lemma slot_inj:
  assumes "ring_ok t" "i < unat (count t)" "unat (count t) < 4096"
  shows "slot t i \<noteq> unat (head t)"
proof
  assume eq: "slot t i = unat (head t)"
  let ?h = "unat (head t)" let ?c = "unat (count t)"
  have h: "?h < 4096" using ring_okD [OF assms(1)] by simp
  have "?h + 4096 - ?c + i = ?h + (4096 - ?c + i)" using assms(3) by linarith
  then have "(?h + (4096 - ?c + i)) mod 4096 = ?h mod 4096"
    using eq h by (simp only: slot_def mod_less)
  then have "4096 dvd (?h + (4096 - ?c + i)) - ?h"
    by (metis le_add1 mod_eq_dvd_iff_nat)
  then have "4096 dvd 4096 - ?c + i" by simp
  then have "4096 \<le> 4096 - ?c + i" using assms(3) by (intro dvd_imp_le) auto
  with assms(2,3) show False by simp
qed

lemma put_record_ok:
  assumes ok: "ring_ok t" and room: "\<not> full t"
  shows "ring_ok (put_record t r) \<and> queued (put_record t r) = queued t @ [r]"
proof -
  note d = ring_okD [OF ok]
  have lt: "unat (count t) < 4096" using room d by (simp add: full_def word_le_nat_alt)
  then have inc: "unat (count t + 1) = Suc (unat (count t))"
    by (subst unat_add_lem [THEN iffD1]) auto
  have hd1: "unat ((head t + 1) mod 4096) = (unat (head t) + 1) mod 4096"
  proof -
    have "unat (head t + 1) = unat (head t) + 1"
      using d by (subst unat_add_lem [THEN iffD1]) auto
    then show ?thesis by (simp add: unat_mod)
  qed
  have ok': "ring_ok (put_record t r)"
    using ok lt hd1 d by (simp add: ring_ok_def put_record_def AUDIT_RING_BUFFER_SIZE_def
        word_less_nat_alt word_le_nat_alt inc)
  have slots: "slot (put_record t r) i = slot t i" for i
  proof -
    have "slot (put_record t r) i = ((unat (head t) + 1) mod 4096 + (4095 - unat (count t) + i)) mod 4096"
    proof -
      have "(unat (head t) + 1) mod 4096 + 4096 - Suc (unat (count t)) + i
          = (unat (head t) + 1) mod 4096 + (4095 - unat (count t) + i)" using lt by linarith
      then show ?thesis by (simp only: slot_def put_record_fields inc hd1 d)
    qed
    also have "\<dots> = (unat (head t) + 1 + (4095 - unat (count t) + i)) mod 4096"
      by (simp only: mod_add_left_eq)
    also have "unat (head t) + 1 + (4095 - unat (count t) + i)
        = unat (head t) + 4096 - unat (count t) + i" using lt by linarith
    finally show ?thesis by (simp only: slot_def)
  qed
  have last: "slot t (unat (count t)) = unat (head t)" using d by (simp add: slot_def)
  have old: "(ring_buffer t)[unat (head t) := r] ! slot t i = ring_buffer t ! slot t i"
    if "i < unat (count t)" for i
    using slot_inj [OF ok that lt] by (metis nth_list_update_neq)
  have "queued (put_record t r) =
      map (\<lambda>i. (ring_buffer t)[unat (head t) := r] ! slot t i) ([0..<unat (count t)] @ [unat (count t)])"
    by (simp add: queued_def slots) (simp add: put_record_def inc)
  also have "\<dots> = queued t @ [r]"
    using d by (simp add: queued_def last old)
  finally show ?thesis using ok' by simp
qed

interpretation ring: bounded_fifo ring_ok queued 4096 full put_record oldest pop_oldest
proof (unfold_locales, goal_cases)
  case (1 q)
  then show ?case using ring_okD(4) by simp
next
  case (2 q)
  then show ?case using ring_okD [OF 2] by (auto simp: full_def word_le_nat_alt)
next
  case (3 q x)
  then show ?case by (rule put_record_ok)
next
  case (4 q x xs)
  then show ?case by (rule pop_oldest_ok)
qed

section \<open>Session identifiers are random UUIDs of version 4\<close>


lemma length_stamp_version [simp]: "length (stamp_version u) = length u"
  by (simp add: stamp_version_def Let_def)

lemma nibble_less: "unat (and (b :: byte) 0x0F) < 16"
proof -
  have "and b 0x0F = take_bit 4 b" by (simp add: take_bit_eq_mask mask_numeral)
  then show ?thesis
    using take_bit_nat_less_exp [of 4 "unat b"] by (simp add: unsigned_take_bit_eq)
qed


lemma hex_inj: "m < 16 \<Longrightarrow> n < 16 \<Longrightarrow> hex ! m = hex ! n \<longleftrightarrow> m = n"
  by (rule nth_eq_iff_index_eq) (simp_all add: hex_def)

lemma byte_nibbles: "or (push_bit 4 (and (drop_bit 4 b) 0x0F)) (and b 0x0F) = (b :: byte)"
proof -
  have m: "(0x0F :: byte) = mask 4" by (simp add: mask_numeral)
  show ?thesis unfolding m
    by (rule bit_word_eqI) (auto simp: bit_simps not_less)
qed

lemma hex_pair_inj: "hex_pair a = hex_pair b \<longleftrightarrow> a = b"
proof
  assume "hex_pair a = hex_pair b"
  then have "and (drop_bit 4 a) 0x0F = and (drop_bit 4 b) 0x0F" "and a 0x0F = and b 0x0F"
    by (auto simp: hex_pair_def hex_inj nibble_less word_unat_eq_iff)
  then show "a = b" using byte_nibbles [of a] byte_nibbles [of b] by metis
qed simp



lemma length_hex_pair [simp]: "length (hex_pair b) = 2"
  by (simp add: hex_pair_def)

definition hex_text :: "byte list \<Rightarrow> string" where
  "hex_text bs = concat (map hex_pair bs)"

lemma length_hex_text [simp]: "length (hex_text bs) = 2 * length bs"
  by (induction bs) (simp_all add: hex_text_def)

lemma hex_text_cons [simp]: "hex_text (b # bs) = hex_pair b @ hex_text bs"
  by (simp add: hex_text_def)

lemma hex_text_nil [simp]: "hex_text [] = []"
  by (simp add: hex_text_def)

lemma emit_bytes_room:
  "length buf + 2 * length bs < n \<Longrightarrow> emit_bytes n buf bs = buf @ hex_text bs"
  by (induction bs arbitrary: buf) simp_all

lemma hex_pair_nonempty [simp]: "hex_pair b \<noteq> []"
  by (simp add: hex_pair_def)

lemma hex_text_inj: "hex_text a = hex_text b \<Longrightarrow> a = b"
proof (induction a arbitrary: b)
  case Nil
  then show ?case by (cases b) simp_all
next
  case (Cons x a)
  then obtain y b' where b: "b = y # b'" by (cases b) auto
  with Cons.prems have "hex_pair x = hex_pair y" "hex_text a = hex_text b'"
    by (simp_all add: append_eq_append_conv)
  with Cons.IH [of b'] b show ?case by (simp add: hex_pair_inj)
qed

lemma emit_dash_room: "Suc (length buf) < n \<Longrightarrow> emit_dash n buf = buf @ ''-''"
  by (simp add: emit_dash_def)

lemma uuid_text_eq:
  assumes "37 \<le> n" and "length u = 16"
  shows "uuid_text n u =
    hex_text (take 4 u) @ ''-'' @ hex_text (take 2 (drop 4 u)) @ ''-'' @ hex_text (take 2 (drop 6 u))
    @ ''-'' @ hex_text (take 2 (drop 8 u)) @ ''-'' @ hex_text (take 6 (drop 10 u))"
  using assms by (simp add: uuid_text_def emit_dash_room emit_bytes_room)

lemma list16:
  assumes "length xs = 16"
  obtains a b c d e f g h i j k l m n p q where "xs = [a,b,c,d,e,f,g,h,i,j,k,l,m,n,p,q]"
  using assms by (auto simp: length_Suc_conv numeral_eq_Suc)


lemma stamp_parts:
  assumes "length u = 16"
  shows "u = take 4 u @ take 2 (drop 4 u) @ take 2 (drop 6 u) @ take 2 (drop 8 u) @ take 6 (drop 10 u)"
  using assms by (rule list16) simp




text \<open>No randomness is lost in the text: two sessions get the same identifier exactly when
  their random bytes agree outside the six bits that carry version and variant.\<close>

theorem session_id_injective:
  assumes "length u = 16" and "length v = 16" and "37 \<le> n"
  shows "audit_generate_session_id (Some u) clock pid n = audit_generate_session_id (Some v) clock' pid' n
    \<longleftrightarrow> stamp_version u = stamp_version v"
proof
  let ?u = "stamp_version u" and ?v = "stamp_version v"
  assume "audit_generate_session_id (Some u) clock pid n
    = audit_generate_session_id (Some v) clock' pid' n"
  then have "uuid_text n ?u = uuid_text n ?v"
    using assms by (simp add: audit_generate_session_id_def)
  then have "take 4 ?u = take 4 ?v" "take 2 (drop 4 ?u) = take 2 (drop 4 ?v)"
    "take 2 (drop 6 ?u) = take 2 (drop 6 ?v)" "take 2 (drop 8 ?u) = take 2 (drop 8 ?v)"
    "take 6 (drop 10 ?u) = take 6 (drop 10 ?v)"
    using assms by (simp_all add: uuid_text_eq hex_text_inj)
  then show "?u = ?v"
    by (metis (no_types, lifting) stamp_parts assms(1,2) length_stamp_version)
qed (use assms in \<open>simp add: audit_generate_session_id_def\<close>)

theorem session_id_injective_witness:
  "audit_generate_session_id (Some (replicate 16 1)) (\<lambda>_. 0) 1 64
   \<noteq> audit_generate_session_id (Some (replicate 15 1 @ [2])) (\<lambda>_. 0) 1 64"
  using session_id_injective [of "replicate 16 1" "replicate 15 1 @ [2]" 64 "\<lambda>_. 0" 1 "\<lambda>_. 0" 1]
  by (simp add: stamp_version_def nth_append numeral_eq_Suc)

section \<open>The log is the sequence of accepted records\<close>

lemma ring_ok_update [simp]:
  "ring_ok (t\<lparr>next_sequence := a\<rparr>) = ring_ok t" "ring_ok (t\<lparr>total_records := b\<rparr>) = ring_ok t"
  "ring_ok (t\<lparr>dropped_records := b\<rparr>) = ring_ok t" "ring_ok (t\<lparr>running := r\<rparr>) = ring_ok t"
  by (simp_all add: ring_ok_def)

lemma queued_update [simp]:
  "queued (t\<lparr>next_sequence := a\<rparr>) = queued t" "queued (t\<lparr>total_records := b\<rparr>) = queued t"
  "queued (t\<lparr>dropped_records := b\<rparr>) = queued t" "queued (t\<lparr>running := r\<rparr>) = queued t"
  by (simp_all add: queued_def slot_def)

lemma full_update [simp]: "full (t\<lparr>next_sequence := a\<rparr>) = full t"
  by (simp add: full_def)

lemma record_event_full:
  "full t \<Longrightarrow> audit_record_event now r t = t\<lparr>dropped_records := dropped_records t + 1\<rparr>"
  by (simp add: audit_record_event_def full_def)

lemma record_event_room:
  assumes "ring_ok t" and "\<not> full t"
  shows "ring_ok (audit_record_event now r t)"
    "queued (audit_record_event now r t) = queued t @ [make_record now (next_sequence t) r]"
    "next_sequence (audit_record_event now r t) = next_sequence t + 1"
    "total_records (audit_record_event now r t) = total_records t + 1"
    "dropped_records (audit_record_event now r t) = dropped_records t"
    "current_log_file (audit_record_event now r t) = current_log_file t"
    "running (audit_record_event now r t) = running t"
  using assms put_record_ok [of "t\<lparr>next_sequence := next_sequence t + 1\<rparr>"]
  by (simp_all add: audit_record_event_def full_def Let_def) (simp_all add: put_record_def)

lemma drain_ok:
  assumes "ring_ok t" and "current_log_file t = Some p"
  shows "drain localtime env t w =
    (t\<lparr>count := 0\<rparr>,
     w\<lparr>files := (files w)(p := files w p @ concat (map (record_line localtime) (queued t)))\<rparr>)"
  using assms
proof (induction "unat (count t)" arbitrary: t w)
  case 0
  then have "count t = 0" by (simp add: unat_eq_0)
  then show ?case by (subst drain.simps) (simp add: queued_def)
next
  case (Suc n)
  then have nz: "count t \<noteq> 0" by auto
  obtain x xs where q: "queued t = x # xs"
    using Suc.hyps(2) length_queued [of t] by (cases "queued t") auto
  note pop = pop_oldest_ok [OF Suc.prems(1) q]
  let ?w = "w\<lparr>files := (files w)(p := files w p @ record_line localtime x)\<rparr>"
  have n: "n = unat (count (pop_oldest t))"
    using Suc.hyps(2) nz by (simp add: pop_oldest_def unat_minus_one)
  have "drain localtime env t w = drain localtime env (pop_oldest t) ?w"
    using nz Suc.prems(2) pop
    by (subst drain.simps) (simp add: write_record_def pop_oldest_def)
  also have "\<dots> = ((pop_oldest t)\<lparr>count := 0\<rparr>,
      ?w\<lparr>files := (files ?w)(p := files ?w p @ concat (map (record_line localtime) xs))\<rparr>)"
    using Suc.hyps(1) [OF n, of ?w] pop Suc.prems(2) by (simp add: pop_oldest_def)
  finally show ?case by (simp add: q pop_oldest_def)
qed

definition sys_ok :: "(int \<Rightarrow> tm) \<Rightarrow> string \<Rightarrow> string \<Rightarrow> audit_sys \<Rightarrow> bool" where
  "sys_ok localtime p base s \<longleftrightarrow>
     ring_ok (trail s) \<and> current_log_file (trail s) = Some p
     \<and> (\<exists>written. accepted s = written @ queued (trail s)
          \<and> files (world s) p = base @ concat (map (record_line localtime) written))
     \<and> map sequence_number (accepted s) = map of_nat [1..<Suc (length (accepted s))]
     \<and> next_sequence (trail s) = of_nat (Suc (length (accepted s)))
     \<and> total_records (trail s) = of_nat (length (accepted s))
     \<and> total_records (trail s) + dropped_records (trail s) = of_nat (calls s)
     \<and> (running (trail s) \<longrightarrow> flusher s = Loop_Head \<or> flusher s = In_Loop)"

lemma sys_ok_record:
  assumes "sys_ok localtime p base s"
  shows "sys_ok localtime p base (record_call now r s)"
proof (cases "full (trail s)")
  case True
  with assms show ?thesis
    by (auto simp: sys_ok_def record_call_def record_event_full full_def [symmetric] algebra_simps)
next
  case False
  with assms record_event_room [of "trail s" now r] show ?thesis
    by (auto simp: sys_ok_def record_call_def full_def [symmetric] make_record_def algebra_simps)
qed

lemma sys_ok_drain:
  assumes "sys_ok localtime p base s"
  shows "sys_ok localtime p base
      (s\<lparr>trail := fst (drain localtime env (trail s) (world s)),
         world := snd (drain localtime env (trail s) (world s)),
         flusher := if running (trail s) then Loop_Head else pc\<rparr>)"
    and "count (fst (drain localtime env (trail s) (world s))) = 0"
proof -
  from assms have ok: "ring_ok (trail s)" "current_log_file (trail s) = Some p"
    by (simp_all add: sys_ok_def)
  note d = drain_ok [OF ok, of localtime env "world s"]
  have "ring_ok ((trail s)\<lparr>count := 0\<rparr>)" using ok(1) by (auto simp: ring_ok_def)
  moreover have "queued ((trail s)\<lparr>count := 0\<rparr>) = []" by (simp add: queued_def)
  ultimately show "sys_ok localtime p base
      (s\<lparr>trail := fst (drain localtime env (trail s) (world s)),
         world := snd (drain localtime env (trail s) (world s)),
         flusher := if running (trail s) then Loop_Head else pc\<rparr>)"
    using assms by (auto simp: sys_ok_def d)
  show "count (fst (drain localtime env (trail s) (world s))) = 0" by (simp add: d)
qed

lemma sys_ok_flusher:
  "sys_ok localtime p base s \<Longrightarrow> running (trail s) \<longrightarrow> pc = Loop_Head \<or> pc = In_Loop \<Longrightarrow>
   sys_ok localtime p base (s\<lparr>flusher := pc\<rparr>)"
  unfolding sys_ok_def by (elim conjE, intro conjI) simp_all

lemma sys_ok_flush:
  assumes ok: "sys_ok localtime p base s" and step: "flush_thread_func localtime env s = Some s'"
  shows "sys_ok localtime p base s'"
proof (cases "flusher s")
  case Loop_Head
  with step have "s' = s\<lparr>flusher := if running (trail s) then In_Loop else After_Loop\<rparr>"
    by (simp add: flush_thread_func_def)
  with sys_ok_flusher [OF ok] show ?thesis by simp
next
  case In_Loop
  with step sys_ok_drain(1) [OF ok, where env = env and pc = Loop_Head] show ?thesis
    by (simp add: flush_thread_func_def case_prod_beta Let_def split: if_splits)
next
  case After_Loop
  with ok have "\<not> running (trail s)" by (auto simp: sys_ok_def)
  with After_Loop step sys_ok_drain(1) [OF ok, where env = env and pc = Finished] show ?thesis
    by (simp add: flush_thread_func_def case_prod_beta Let_def)
next
  case Finished
  with step show ?thesis by (simp add: flush_thread_func_def)
qed

lemma sys_ok_stop: "sys_ok localtime p base s \<Longrightarrow> sys_ok localtime p base (audit_stop s)"
  by (auto simp: sys_ok_def audit_stop_def)

lemma sys_ok_step: "audit_step localtime s s' \<Longrightarrow> sys_ok localtime p base s \<Longrightarrow> sys_ok localtime p base s'"
  by (induction rule: audit_step.induct) (auto intro: sys_ok_record sys_ok_flush sys_ok_stop)

lemma sys_ok_reachable:
  "(audit_step localtime)\<^sup>*\<^sup>* s s' \<Longrightarrow> sys_ok localtime p base s \<Longrightarrow> sys_ok localtime p base s'"
  by (induction rule: rtranclp_induct) (auto intro: sys_ok_step)

lemma sys_ok_start:
  assumes "audit_init localtime e w = (Some t, w')"
  shows "sys_ok localtime (audit_log_name (localtime (env_now e)))
    (files w (audit_log_name (localtime (env_now e)))) (audit_start t w')"
  using assms
  by (auto simp: audit_init_def ensure_audit_dir_def rotate_log_file_def fresh_trail_def
      sys_ok_def audit_start_def ring_ok_def AUDIT_RING_BUFFER_SIZE_def queued_def Let_def
      split: if_splits)

text \<open>C4: The audit log is the prefix of the accepted records that has been flushed: in every state
  that any interleaving of recording threads, flush thread and shutdown reaches, the accepted
  records are those written followed by those in the ring, in the order of the calls; the log file
  holds exactly the lines of the written ones after what it held before; sequence numbers run
  1, 2, 3, ... without a gap; and accepted and dropped records together are the calls made
  (as 64-bit counters).\<close>

theorem audit_log_is_prefix_of_accepted:
  assumes "audit_init localtime e w = (Some t, w')"
    and "(audit_step localtime)\<^sup>*\<^sup>* (audit_start t w') s"
  shows "(\<exists>written. accepted s = written @ queued (trail s)
      \<and> files (world s) (audit_log_name (localtime (env_now e)))
          = files w (audit_log_name (localtime (env_now e)))
            @ concat (map (record_line localtime) written))
    \<and> map sequence_number (accepted s) = map of_nat [1..<Suc (length (accepted s))]
    \<and> total_records (trail s) + dropped_records (trail s) = of_nat (calls s)
    \<and> length (queued (trail s)) \<le> 4096"
  using sys_ok_reachable [OF assms(2) sys_ok_start [OF assms(1)]] ring.bounded [of "trail s"]
  unfolding sys_ok_def by blast

text \<open>A concrete run: time zone UTC at the epoch, one connection recorded, then flushed.\<close>

definition epoch :: "int \<Rightarrow> tm" where
  "epoch now = \<lparr>tm_year = 70, tm_mon = 0, tm_mday = 1, tm_hour = 0, tm_min = 0, tm_sec = now\<rparr>"

definition all_well :: audit_env where
  "all_well = \<lparr>env_now = 0, env_isdir = True, env_mkdir = True, env_open = True,
     env_fdopen = True, env_calloc = True, env_thread = True\<rparr>"

definition no_files :: audit_world where
  "no_files = \<lparr>files = (\<lambda>_. []), diag = []\<rparr>"

definition epoch_trail :: audit_trail where
  "epoch_trail = fresh_trail\<lparr>current_log_file := Some (audit_log_name (epoch 0)),
     current_log_path := audit_log_name (epoch 0)\<rparr>"

lemma init_all_well:
  "\<exists>w. audit_init epoch all_well no_files = (Some epoch_trail, w) \<and> files w = files no_files"
proof -
  have "strncpy (audit_log_name (epoch 0)) 511 = audit_log_name (epoch 0)"
    by (rule strncpy_all) (simp add: audit_log_name_def snprintf_def)
  then show ?thesis
    by (simp add: audit_init_def ensure_audit_dir_def rotate_log_file_def all_well_def
        epoch_trail_def fresh_trail_def Let_def)
qed

lemma not_full_fresh: "ring_ok epoch_trail" "\<not> full epoch_trail"
  by (simp_all add: ring_ok_def epoch_trail_def fresh_trail_def AUDIT_RING_BUFFER_SIZE_def full_def)

theorem audit_log_is_prefix_of_accepted_witness:
  "\<exists>w s. audit_init epoch all_well no_files = (Some epoch_trail, w)
     \<and> (audit_step epoch)\<^sup>*\<^sup>* (audit_start epoch_trail w) s
     \<and> map sequence_number (accepted s) = [1, 2] \<and> calls s = 2
     \<and> (\<exists>written. accepted s = written @ queued (trail s))"
proof -
  let ?r = "audit_record_connection SSH_PROTOCOL ''10.0.0.1'' 4711 ''id''"
  obtain w where w: "audit_init epoch all_well no_files = (Some epoch_trail, w)"
    using init_all_well by blast
  let ?s = "record_call 1 ?r (record_call 0 ?r (audit_start epoch_trail w))"
  have reach: "(audit_step epoch)\<^sup>*\<^sup>* (audit_start epoch_trail w) ?s"
    by (meson step_record converse_rtranclp_into_rtranclp rtranclp.rtrancl_refl)
  have "length (accepted ?s) = 2 \<and> calls ?s = 2"
    using not_full_fresh
    by (simp add: record_call_def audit_start_def audit_record_event_def full_def put_record_def
        epoch_trail_def fresh_trail_def AUDIT_RING_BUFFER_SIZE_def word_le_nat_alt)
  with audit_log_is_prefix_of_accepted [OF w reach] w reach show ?thesis
    by (intro exI [of _ w] exI [of _ ?s]) (auto simp: numeral_2_eq_2)
qed

lemma run_flusher_Finished: "flusher s = Finished \<Longrightarrow> run_flusher localtime env n s = s"
  by (cases n) (simp_all add: flush_thread_func_def)

text \<open>The flush thread after the flag is cleared.\<close>

lemma flusher_ends:
  assumes ok: "sys_ok localtime p base s" and stopped: "\<not> running (trail s)"
    and "flusher s = Loop_Head \<or> flusher s = In_Loop" and "3 \<le> n"
  shows "flusher (run_flusher localtime env n s) = Finished
    \<and> queued (trail (run_flusher localtime env n s)) = []
    \<and> accepted (run_flusher localtime env n s) = accepted s
    \<and> sys_ok localtime p base (run_flusher localtime env n s)"
proof -
  obtain m where n: "n = Suc (Suc (Suc m))"
    using \<open>3 \<le> n\<close> by (metis Suc_le_D numeral_3_eq_3 Suc_le_mono)
  have from_head: "flusher (run_flusher localtime env (Suc (Suc k)) u) = Finished
      \<and> queued (trail (run_flusher localtime env (Suc (Suc k)) u)) = []
      \<and> accepted (run_flusher localtime env (Suc (Suc k)) u) = accepted u
      \<and> sys_ok localtime p base (run_flusher localtime env (Suc (Suc k)) u)"
    if "sys_ok localtime p base u" "\<not> running (trail u)" "flusher u = Loop_Head" for u k
    using that sys_ok_drain(1) [OF that(1), where env = env and pc = Finished]
      sys_ok_drain(2) [OF that(1), where env = env]
    by (simp add: flush_thread_func_def case_prod_beta Let_def run_flusher_Finished queued_def)
  from assms(3) show ?thesis
  proof
    assume "flusher s = Loop_Head"
    with from_head [OF ok stopped] n show ?thesis by simp
  next
    assume in_loop: "flusher s = In_Loop"
    let ?d = "drain localtime env (trail s) (world s)"
    let ?u = "s\<lparr>trail := fst ?d, world := snd ?d, flusher := Loop_Head\<rparr>"
    have "sys_ok localtime p base ?u"
      using sys_ok_drain(1) [OF ok, where env = env and pc = Loop_Head] by simp
    moreover have "\<not> running (trail ?u)"
      using stopped ok drain_ok [of "trail s" p localtime env "world s"] by (simp add: sys_ok_def)
    ultimately show ?thesis
      using from_head [of ?u m] in_loop stopped n
      by (simp add: flush_thread_func_def case_prod_beta Let_def)
  qed
qed

lemma shutdown_log:
  assumes ok: "sys_ok localtime p base s" and "running (trail s)" and "3 \<le> n"
  shows "\<exists>s'. audit_shutdown localtime env n s = Some s' \<and> accepted s' = accepted s
      \<and> queued (trail s') = []
      \<and> files (world s') p = base @ concat (map (record_line localtime) (accepted s))"
proof -
  let ?r = "run_flusher localtime env n (audit_stop s)"
  have "flusher (audit_stop s) = Loop_Head \<or> flusher (audit_stop s) = In_Loop"
    using ok assms(2) by (auto simp: sys_ok_def audit_stop_def)
  from flusher_ends [OF sys_ok_stop [OF ok] _ this assms(3), of env]
  have r: "flusher ?r = Finished" "queued (trail ?r) = []" "accepted ?r = accepted s"
    "sys_ok localtime p base ?r"
    by (simp_all add: audit_stop_def)
  then have "files (world ?r) p = base @ concat (map (record_line localtime) (accepted s))"
    by (auto simp: sys_ok_def)
  moreover have "queued ((trail ?r)\<lparr>current_log_file := None\<rparr>) = queued (trail ?r)"
    by (simp add: queued_def slot_def)
  ultimately show ?thesis using r by (simp add: audit_shutdown_def Let_def)
qed

text \<open>C5: An orderly shutdown loses nothing: from any reachable state of a running trail,
  \<open>audit_shutdown\<close> returns (the flush thread ends within three of its steps, each of them a
  loop that ends), the ring is empty and the log file holds the line of every record that was
  accepted, in order.\<close>

theorem audit_shutdown_writes_everything:
  assumes "audit_init localtime e w = (Some t, w')"
    and "(audit_step localtime)\<^sup>*\<^sup>* (audit_start t w') s" and "running (trail s)" and "3 \<le> n"
  shows "\<exists>s'. audit_shutdown localtime env n s = Some s' \<and> accepted s' = accepted s
      \<and> queued (trail s') = []
      \<and> files (world s') (audit_log_name (localtime (env_now e)))
          = files w (audit_log_name (localtime (env_now e)))
            @ concat (map (record_line localtime) (accepted s))"
  by (rule shutdown_log [OF sys_ok_reachable [OF assms(2) sys_ok_start [OF assms(1)]] assms(3,4)])

theorem audit_shutdown_writes_everything_witness:
  "\<exists>w s'. audit_shutdown epoch (\<lambda>_. all_well) 3
        (record_call 7 (audit_record_disconnect FTP_PROTOCOL ''10.0.0.1'' 4711 ''id'')
          (audit_start epoch_trail w)) = Some s'
     \<and> files (world s') (audit_log_name (epoch 0)) =
         record_line epoch (make_record 7 1
           (audit_record_disconnect FTP_PROTOCOL ''10.0.0.1'' 4711 ''id''))"
proof -
  let ?r = "audit_record_disconnect FTP_PROTOCOL ''10.0.0.1'' 4711 ''id''"
  obtain w where w: "audit_init epoch all_well no_files = (Some epoch_trail, w)"
    using init_all_well by blast
  let ?s = "record_call 7 ?r (audit_start epoch_trail w)"
  have reach: "(audit_step epoch)\<^sup>*\<^sup>* (audit_start epoch_trail w) ?s"
    by (blast intro: step_record)
  have acc: "accepted ?s = [make_record 7 1 ?r]" and run: "running (trail ?s)"
    using not_full_fresh
    by (simp_all add: record_call_def audit_start_def audit_record_event_def full_def put_record_def
        epoch_trail_def fresh_trail_def)
  have "env_now all_well = 0" "files no_files = (\<lambda>_. [])"
    by (simp_all add: all_well_def no_files_def)
  with audit_shutdown_writes_everything [OF w reach run order_refl, of "\<lambda>_. all_well"] acc
  show ?thesis by auto
qed

end
