(* ===== verification/Session.thy ===== *)
theory Session
  imports Interfaces
begin

text \<open>
  src/service/session.c with include/session.h and include/connection.h: the connection
  object and its TCP reassembly buffer, and the hash table of the live connections.

  Connections are heap objects that the table and the thread serving them share, so the
  table holds addresses and a heap maps an address to its connection; a freed object
  is absent from the heap, and following its address is an error of the model. The
  mutexes make each operation atomic: an operation is one function on the state.
\<close>

section \<open>Connections\<close>

type_synonym addr = nat

record connection =
  socket_file_descriptor :: int
  remote_ip :: string
  remote_port :: "16 word"
  protocol :: protocol_type
  state :: int
  last_activity :: int
  tcp_reassembly_buffer :: string
  buffer_length :: size_t
  buffer_capacity :: size_t

type_synonym heap = "addr \<rightharpoonup> connection"

datatype mem_error = Use_After_Free addr | Out_Of_Bounds

text \<open>\<open>remote_ip\<close> has \<open>INET6_ADDRSTRLEN\<close> = 46 bytes; a NULL buffer is the empty block.\<close>

definition connection_create ::
  "int \<Rightarrow> string \<Rightarrow> 16 word \<Rightarrow> protocol_type \<Rightarrow> int \<Rightarrow> int \<Rightarrow> connection" where
  "connection_create sockfd ip port proto initial_state now =
     \<lparr>socket_file_descriptor = sockfd, remote_ip = strncpy ip 45, remote_port = port,
      protocol = proto, state = initial_state, last_activity = now,
      tcp_reassembly_buffer = [], buffer_length = 0, buffer_capacity = 0\<rparr>"

definition connection_destroy :: "heap \<Rightarrow> addr \<Rightarrow> mem_error + heap" where
  "connection_destroy h a =
     (case h a of None \<Rightarrow> Inl (Use_After_Free a) | Some _ \<Rightarrow> Inr (h(a := None)))"

subsection \<open>The reassembly buffer\<close>

text \<open>
  The loop \<open>while (need > new_cap) new_cap *= 2\<close> on \<open>size_t\<close>. The product wraps
  around, so the loop need not end: \<open>None\<close> is a loop that runs forever.
\<close>

partial_function (option) grow_capacity :: "size_t \<Rightarrow> size_t \<Rightarrow> size_t option" where
  "grow_capacity need new_cap =
     (if new_cap < need then grow_capacity need (new_cap * 2) else Some new_cap)"

text \<open>
  \<open>realloc\<close> keeps the old bytes and leaves the new ones undefined: \<open>junk\<close> gives
  what is found there.
\<close>

definition realloc :: "(nat \<Rightarrow> char) \<Rightarrow> string \<Rightarrow> size_t \<Rightarrow> string" where
  "realloc junk old n = take (unat n) old @ map junk [length old..<unat n]"

definition memcpy_at :: "string \<Rightarrow> nat \<Rightarrow> string \<Rightarrow> string" where
  "memcpy_at dst off src = take off dst @ src @ drop (off + length src) dst"

definition store_data :: "connection \<Rightarrow> string \<Rightarrow> connection" where
  "store_data c data =
     c\<lparr>tcp_reassembly_buffer :=
         memcpy_at (tcp_reassembly_buffer c) (unat (buffer_length c)) data,
       buffer_length := buffer_length c + of_nat (length data)\<rparr>"

text \<open>\<open>ok\<close>: whether \<open>realloc\<close> finds memory. The result is \<open>None\<close> if the call does not return.\<close>

definition connection_append_data ::
  "(nat \<Rightarrow> char) \<Rightarrow> bool \<Rightarrow> connection \<Rightarrow> string \<Rightarrow> connection option" where
  "connection_append_data junk ok c data =
     (let need = buffer_length c + of_nat (length data) in
      if buffer_capacity c < need then
        (case grow_capacity need
                (if buffer_capacity c \<noteq> 0 then buffer_capacity c * 2 else 4096) of
           None \<Rightarrow> None
         | Some new_cap \<Rightarrow>
             if ok then
               Some (store_data
                 (c\<lparr>tcp_reassembly_buffer := realloc junk (tcp_reassembly_buffer c) new_cap,
                    buffer_capacity := new_cap\<rparr>) data)
             else Some c)
      else Some (store_data c data))"

definition connection_consume_buffer :: "connection \<Rightarrow> size_t \<Rightarrow> connection" where
  "connection_consume_buffer c n =
     (if buffer_length c \<le> n then c\<lparr>buffer_length := 0\<rparr>
      else c\<lparr>tcp_reassembly_buffer :=
               memcpy_at (tcp_reassembly_buffer c) 0
                 (take (unat (buffer_length c - n)) (drop (unat n) (tcp_reassembly_buffer c))),
             buffer_length := buffer_length c - n\<rparr>)"

section \<open>The session table\<close>

record session_table =
  session_bucket :: "addr list list"

definition SESSION_TABLE_SIZE :: nat where
  "SESSION_TABLE_SIZE = 0x100"

definition hash_int :: "int \<Rightarrow> nat" where
  "hash_int key = nat (key mod 2 ^ 32) mod SESSION_TABLE_SIZE"

definition session_table_create :: session_table where
  "session_table_create = \<lparr>session_bucket = replicate SESSION_TABLE_SIZE []\<rparr>"

definition session_table_add :: "session_table \<Rightarrow> heap \<Rightarrow> addr \<Rightarrow> mem_error + session_table" where
  "session_table_add table h conn =
     (case h conn of
        None \<Rightarrow> Inl (Use_After_Free conn)
      | Some c \<Rightarrow>
          let idx = hash_int (socket_file_descriptor c) in
          Inr (table\<lparr>session_bucket :=
            (session_bucket table)[idx := conn # session_bucket table ! idx]\<rparr>))"

fun bucket_get :: "heap \<Rightarrow> int \<Rightarrow> addr list \<Rightarrow> mem_error + addr option" where
  "bucket_get h sockfd [] = Inr None"
| "bucket_get h sockfd (node # nodes) =
     (case h node of
        None \<Rightarrow> Inl (Use_After_Free node)
      | Some c \<Rightarrow>
          if socket_file_descriptor c = sockfd then Inr (Some node)
          else bucket_get h sockfd nodes)"

definition session_table_get :: "session_table \<Rightarrow> heap \<Rightarrow> int \<Rightarrow> mem_error + addr option" where
  "session_table_get table h sockfd =
     bucket_get h sockfd (session_bucket table ! hash_int sockfd)"

text \<open>Unlinks the first node whose connection has the descriptor and destroys that connection.\<close>

fun bucket_remove :: "heap \<Rightarrow> int \<Rightarrow> addr list \<Rightarrow> mem_error + (addr list \<times> heap)" where
  "bucket_remove h sockfd [] = Inr ([], h)"
| "bucket_remove h sockfd (node # nodes) =
     (case h node of
        None \<Rightarrow> Inl (Use_After_Free node)
      | Some c \<Rightarrow>
          if socket_file_descriptor c = sockfd then
            (case connection_destroy h node of Inl e \<Rightarrow> Inl e | Inr h' \<Rightarrow> Inr (nodes, h'))
          else
            (case bucket_remove h sockfd nodes of
               Inl e \<Rightarrow> Inl e
             | Inr (rest, h') \<Rightarrow> Inr (node # rest, h')))"

definition session_table_remove ::
  "session_table \<Rightarrow> heap \<Rightarrow> int \<Rightarrow> mem_error + (session_table \<times> heap)" where
  "session_table_remove table h sockfd =
     (let idx = hash_int sockfd in
      case bucket_remove h sockfd (session_bucket table ! idx) of
        Inl e \<Rightarrow> Inl e
      | Inr (nodes, h') \<Rightarrow>
          Inr (table\<lparr>session_bucket := (session_bucket table)[idx := nodes]\<rparr>, h'))"

fun destroy_nodes :: "heap \<Rightarrow> addr list \<Rightarrow> mem_error + heap" where
  "destroy_nodes h [] = Inr h"
| "destroy_nodes h (node # nodes) =
     (case connection_destroy h node of Inl e \<Rightarrow> Inl e | Inr h' \<Rightarrow> destroy_nodes h' nodes)"

text \<open>Every node of every bucket, in the order of the two loops.\<close>

definition session_table_destroy :: "session_table \<Rightarrow> heap \<Rightarrow> mem_error + heap" where
  "session_table_destroy table h = destroy_nodes h (concat (session_bucket table))"

section \<open>The buffer keeps its invariant and refines a byte queue\<close>

definition conn_ok :: "connection \<Rightarrow> bool" where
  "conn_ok c \<longleftrightarrow> length (tcp_reassembly_buffer c) = unat (buffer_capacity c)
     \<and> buffer_length c \<le> buffer_capacity c"

definition pending :: "connection \<Rightarrow> string" where
  "pending c = take (unat (buffer_length c)) (tcp_reassembly_buffer c)"

text \<open>The doubling loop ends whenever the request is at most half of the address space.\<close>

lemma grow_capacity_returns:
  assumes "0 < unat cap" and "unat need \<le> 2 ^ 63"
  shows "\<exists>r. grow_capacity need cap = Some r \<and> need \<le> r"
  using assms
proof (induction "2 ^ 63 - unat cap" arbitrary: cap rule: less_induct)
  case less
  show ?case
  proof (cases "cap < need")
    case False
    then show ?thesis by (subst grow_capacity.simps) auto
  next
    case True
    then have lt: "unat cap < unat need" by (simp add: word_less_nat_alt)
    with less.prems have dbl: "unat (cap * 2) = unat cap * 2"
      by (subst unat_mult_lem [THEN iffD1]) auto
    with less.prems lt have "2 ^ 63 - unat (cap * 2) < 2 ^ 63 - unat cap" by linarith
    from less.hyps [OF this] dbl less.prems True show ?thesis
      by (subst grow_capacity.simps) auto
  qed
qed

lemma first_capacity_pos:
  assumes "unat cap < 2 ^ 63"
  shows "0 < unat (if cap \<noteq> 0 then cap * 2 else 4096 :: size_t)"
proof (cases "cap = 0")
  case False
  from assms have dbl: "unat (cap * 2) = unat cap * 2"
    by (subst unat_mult_lem [THEN iffD1]) auto
  from False have "0 < unat cap * 2" by (simp add: unat_gt_0)
  with False show ?thesis by (simp only: dbl if_True not_False_eq_True)
qed simp

lemma length_pending:
  assumes "conn_ok c"
  shows "length (pending c) = unat (buffer_length c)"
proof -
  from assms have "unat (buffer_length c) \<le> unat (buffer_capacity c)"
    by (simp add: conn_ok_def word_le_nat_alt)
  with assms show ?thesis by (simp add: pending_def conn_ok_def)
qed

lemma store_data_ok:
  assumes "conn_ok c" and "unat (buffer_length c) + length d \<le> unat (buffer_capacity c)"
  shows "conn_ok (store_data c d) \<and> pending (store_data c d) = pending c @ d"
proof -
  let ?n = "unat (buffer_length c)"
  from assms(2) have lt: "?n + length d < 2 ^ 64"
    using unat_size_t_less [of "buffer_capacity c"] by simp
  then have d: "unat (of_nat (length d) :: size_t) = length d"
    by (simp add: unat_of_nat)
  with lt have len: "unat (buffer_length c + of_nat (length d)) = ?n + length d"
    by (subst unat_add_lem [THEN iffD1]) auto
  from assms have "length (tcp_reassembly_buffer c) = unat (buffer_capacity c)"
    by (simp add: conn_ok_def)
  with assms(2) len show ?thesis
    by (simp add: conn_ok_def pending_def store_data_def memcpy_at_def word_le_nat_alt)
qed

lemma realloc_ok:
  assumes "conn_ok c" and "buffer_capacity c \<le> n"
  shows "conn_ok (c\<lparr>tcp_reassembly_buffer := realloc junk (tcp_reassembly_buffer c) n,
                    buffer_capacity := n\<rparr>)
    \<and> pending (c\<lparr>tcp_reassembly_buffer := realloc junk (tcp_reassembly_buffer c) n,
                  buffer_capacity := n\<rparr>) = pending c"
proof -
  from assms have "unat (buffer_length c) \<le> unat (buffer_capacity c)"
    "unat (buffer_capacity c) \<le> unat n"
    "length (tcp_reassembly_buffer c) = unat (buffer_capacity c)"
    by (auto simp: conn_ok_def word_le_nat_alt)
  then show ?thesis
    by (auto simp: conn_ok_def pending_def realloc_def word_le_nat_alt)
qed

lemma append_data_ok:
  assumes ok: "conn_ok c" and fits: "unat (buffer_length c) + length d \<le> 2 ^ 63"
  shows "\<exists>c'. connection_append_data junk True c d = Some c' \<and> conn_ok c'
    \<and> pending c' = pending c @ d \<and> socket_file_descriptor c' = socket_file_descriptor c
    \<and> state c' = state c \<and> remote_ip c' = remote_ip c \<and> remote_port c' = remote_port c"
proof -
  let ?need = "buffer_length c + of_nat (length d)"
  from fits have d: "unat (of_nat (length d) :: size_t) = length d"
    by (simp add: unat_of_nat)
  with fits have need: "unat ?need = unat (buffer_length c) + length d"
    by (subst unat_add_lem [THEN iffD1]) auto
  show ?thesis
  proof (cases "buffer_capacity c < ?need")
    case False
    then have "unat (buffer_length c) + length d \<le> unat (buffer_capacity c)"
      using need by (simp add: word_less_nat_alt)
    from store_data_ok [OF ok this] False show ?thesis
      by (simp add: connection_append_data_def store_data_def)
  next
    case True
    then have "unat (buffer_capacity c) < 2 ^ 63"
      using need fits by (simp add: word_less_nat_alt)
    then have "0 < unat (if buffer_capacity c \<noteq> 0 then buffer_capacity c * 2 else 4096)"
      (is "0 < unat ?cap") by (rule first_capacity_pos)
    moreover have "unat ?need \<le> 2 ^ 63" using need fits by simp
    ultimately obtain r where r: "grow_capacity ?need ?cap = Some r" "?need \<le> r"
      using grow_capacity_returns by blast
    let ?c = "c\<lparr>tcp_reassembly_buffer := realloc junk (tcp_reassembly_buffer c) r,
                buffer_capacity := r\<rparr>"
    have "buffer_capacity c \<le> r" using True r(2) by simp
    then have "conn_ok ?c" "pending ?c = pending c" using realloc_ok [OF ok] by blast+
    moreover have "unat (buffer_length ?c) + length d \<le> unat (buffer_capacity ?c)"
      using r(2) need by (simp add: word_le_nat_alt)
    ultimately have "conn_ok (store_data ?c d)" "pending (store_data ?c d) = pending c @ d"
      using store_data_ok [of ?c d] by auto
    moreover have "connection_append_data junk True c d = Some (store_data ?c d)"
      using True r(1) by (simp add: connection_append_data_def Let_def)
    ultimately show ?thesis by (simp add: store_data_def)
  qed
qed

lemma consume_buffer_ok:
  assumes ok: "conn_ok c"
  shows "conn_ok (connection_consume_buffer c n)
    \<and> pending (connection_consume_buffer c n) = drop (unat n) (pending c)"
proof (cases "buffer_length c \<le> n")
  case True
  then have "unat (buffer_length c) \<le> unat n" by (simp add: word_le_nat_alt)
  with True ok show ?thesis
    by (simp add: connection_consume_buffer_def conn_ok_def pending_def)
next
  case False
  then have lt: "n < buffer_length c" by simp
  then have sub: "unat (buffer_length c - n) = unat (buffer_length c) - unat n"
    by (simp add: unat_sub)
  from ok have "unat (buffer_length c) \<le> length (tcp_reassembly_buffer c)"
    and cap: "length (tcp_reassembly_buffer c) = unat (buffer_capacity c)"
    by (auto simp: conn_ok_def word_le_nat_alt)
  with False lt sub ok show ?thesis
    by (auto simp: connection_consume_buffer_def conn_ok_def pending_def memcpy_at_def
        word_le_nat_alt word_less_nat_alt min_def drop_take)
qed

lemma connection_create_ok:
  "conn_ok (connection_create fd ip port proto st now)"
  "pending (connection_create fd ip port proto st now) = []"
  by (simp_all add: connection_create_def conn_ok_def pending_def)

interpretation reassembly: byte_buffer conn_ok pending "connection_append_data junk True"
  "\<lambda>c n. connection_consume_buffer c (of_nat n)" "2 ^ 63" for junk
proof (unfold_locales, goal_cases)
  case (1 c d)
  then show ?case using append_data_ok [of c d junk] by (auto simp: length_pending)
next
  case (2 c n)
  then have "n < 2 ^ 64"
    using unat_size_t_less [of "buffer_length c"] by (simp add: length_pending)
  then have "unat (of_nat n :: size_t) = n" by (simp add: unat_of_nat)
  with consume_buffer_ok [OF 2(1), of "of_nat n"] show ?case by simp
qed

section \<open>The table refines a store of sessions\<close>

type_synonym store = "session_table \<times> heap"

definition fd_of :: "store \<Rightarrow> addr \<Rightarrow> int option" where
  "fd_of s a = map_option socket_file_descriptor (snd s a)"

definition table_ok :: "store \<Rightarrow> bool" where
  "table_ok s \<longleftrightarrow> length (session_bucket (fst s)) = SESSION_TABLE_SIZE
     \<and> (\<forall>i < SESSION_TABLE_SIZE. distinct (session_bucket (fst s) ! i)
          \<and> (\<forall>a \<in> set (session_bucket (fst s) ! i). \<exists>fd. fd_of s a = Some fd \<and> hash_int fd = i))"

definition sessions_at :: "store \<Rightarrow> int \<Rightarrow> addr list" where
  "sessions_at s fd =
     filter (\<lambda>a. fd_of s a = Some fd) (session_bucket (fst s) ! hash_int fd)"

definition store_add :: "store \<Rightarrow> addr \<Rightarrow> mem_error + store" where
  "store_add s a = map_sum id (\<lambda>t. (t, snd s)) (session_table_add (fst s) (snd s) a)"

definition store_get :: "store \<Rightarrow> int \<Rightarrow> mem_error + addr option" where
  "store_get s fd = session_table_get (fst s) (snd s) fd"

definition store_remove :: "store \<Rightarrow> int \<Rightarrow> mem_error + store" where
  "store_remove s fd = session_table_remove (fst s) (snd s) fd"

lemma hash_int_less: "hash_int fd < SESSION_TABLE_SIZE"
  by (simp add: hash_int_def SESSION_TABLE_SIZE_def)

lemma bucket_get_filter:
  assumes "\<forall>a \<in> set as. h a \<noteq> None"
  shows "bucket_get h fd as =
    Inr (case filter (\<lambda>a. map_option socket_file_descriptor (h a) = Some fd) as of
           [] \<Rightarrow> None | a # _ \<Rightarrow> Some a)"
  using assms by (induction as) auto

lemma bucket_remove_none:
  assumes "\<forall>a \<in> set as. h a \<noteq> None"
    and "filter (\<lambda>a. map_option socket_file_descriptor (h a) = Some fd) as = []"
  shows "bucket_remove h fd as = Inr (as, h)"
  using assms by (induction as) (auto split: if_splits)

lemma bucket_remove_first:
  assumes "\<forall>a \<in> set as. h a \<noteq> None"
    and "filter (\<lambda>a. map_option socket_file_descriptor (h a) = Some fd) as = x # xs"
    and "distinct as"
  shows "bucket_remove h fd as = Inr (remove1 x as, h(x := None))"
  using assms
proof (induction as)
  case (Cons a as)
  then obtain c where c: "h a = Some c" by auto
  show ?case
  proof (cases "socket_file_descriptor c = fd")
    case True
    with Cons.prems c show ?thesis by (simp add: connection_destroy_def fun_upd_def)
  next
    case False
    with Cons c have "bucket_remove h fd as = Inr (remove1 x as, h(x := None))"
      by (simp add: fun_upd_def)
    moreover from False Cons.prems(2) c have "x \<in> set as"
      by (metis (mono_tags, lifting) filter.simps(2) filter_is_subset list.set_intros(1)
          option.map(2) option.inject subsetD)
    ultimately show ?thesis using False c Cons.prems(3) by auto
  qed
qed simp

lemma table_alive:
  assumes "table_ok s" and "i < SESSION_TABLE_SIZE"
  shows "\<forall>a \<in> set (session_bucket (fst s) ! i). snd s a \<noteq> None"
  using assms by (force simp: table_ok_def fd_of_def)

lemma table_hash:
  assumes "table_ok s" "i < SESSION_TABLE_SIZE" "a \<in> set (session_bucket (fst s) ! i)"
    and "fd_of s a = Some fd"
  shows "i = hash_int fd"
proof -
  from assms(1-3) obtain fd' where "fd_of s a = Some fd'" "hash_int fd' = i"
    unfolding table_ok_def by blast
  with assms(4) show ?thesis by simp
qed

lemma table_ok_create: "table_ok (session_table_create, h)"
  by (simp add: table_ok_def session_table_create_def)

lemma store_add_ok:
  assumes ok: "table_ok s" and fd: "fd_of s a = Some fd" and new: "a \<notin> set (sessions_at s fd)"
  shows "\<exists>s'. store_add s a = Inr s' \<and> table_ok s'
    \<and> sessions_at s' = (sessions_at s)(fd := a # sessions_at s fd) \<and> fd_of s' = fd_of s"
proof -
  obtain c where c: "snd s a = Some c" "socket_file_descriptor c = fd"
    using fd by (auto simp: fd_of_def)
  let ?i = "hash_int fd"
  let ?b = "session_bucket (fst s)"
  let ?s' = "((fst s)\<lparr>session_bucket := ?b[?i := a # ?b ! ?i]\<rparr>, snd s)"
  have len: "?i < length ?b" using ok by (simp add: table_ok_def hash_int_less)
  have fresh: "a \<notin> set (?b ! ?i)" using new fd by (simp add: sessions_at_def)
  have same: "fd_of ?s' = fd_of s" by (simp add: fd_of_def fun_eq_iff)
  have "table_ok ?s'" using ok fresh fd len
    by (auto simp: table_ok_def same nth_list_update)
  moreover have "sessions_at ?s' = (sessions_at s)(fd := a # sessions_at s fd)"
    using len fd by (auto simp: sessions_at_def same nth_list_update fun_eq_iff)
  ultimately show ?thesis using c same
    by (auto simp: store_add_def session_table_add_def Let_def)
qed

lemma store_get_ok:
  assumes "table_ok s"
  shows "store_get s fd = Inr (case sessions_at s fd of [] \<Rightarrow> None | a # _ \<Rightarrow> Some a)"
  using bucket_get_filter [OF table_alive [OF assms hash_int_less [of fd]], of fd]
  by (simp add: store_get_def session_table_get_def sessions_at_def fd_of_def)

lemma store_remove_none:
  assumes "table_ok s" and "sessions_at s fd = []"
  shows "store_remove s fd = Inr s"
  using bucket_remove_none [OF table_alive [OF assms(1) hash_int_less [of fd]], of fd] assms(2)
  by (simp add: store_remove_def session_table_remove_def sessions_at_def fd_of_def)

lemma store_remove_ok:
  assumes ok: "table_ok s" and at: "sessions_at s fd = a # as"
  shows "\<exists>s'. store_remove s fd = Inr s' \<and> table_ok s'
    \<and> sessions_at s' = (sessions_at s)(fd := as) \<and> fd_of s' = (fd_of s)(a := None)"
proof -
  let ?i = "hash_int fd"
  let ?b = "session_bucket (fst s)"
  let ?s' = "((fst s)\<lparr>session_bucket := ?b[?i := remove1 a (?b ! ?i)]\<rparr>, (snd s)(a := None))"
  have len: "?i < length ?b" using ok by (simp add: table_ok_def hash_int_less)
  have dist: "distinct (?b ! ?i)" using ok by (simp add: table_ok_def hash_int_less)
  have a: "a \<in> set (?b ! ?i)" "fd_of s a = Some fd"
    using at by (auto simp: sessions_at_def dest!: filter_eq_ConsD)
  have elsewhere: "a \<notin> set (?b ! j)" if "j < SESSION_TABLE_SIZE" "j \<noteq> ?i" for j
    using table_hash [OF ok that(1) _ a(2)] that(2) by blast
  have fds: "fd_of ?s' = (fd_of s)(a := None)" by (simp add: fd_of_def fun_eq_iff)
  have "bucket_remove (snd s) fd (?b ! ?i) = Inr (remove1 a (?b ! ?i), (snd s)(a := None))"
    using bucket_remove_first [OF table_alive [OF ok hash_int_less [of fd]] _ dist, of fd a as] at
    by (simp add: sessions_at_def fd_of_def)
  then have rem: "store_remove s fd = Inr ?s'"
    by (simp add: store_remove_def session_table_remove_def Let_def)
  have "table_ok ?s'"
    using ok dist elsewhere len
    by (auto simp: table_ok_def fds nth_list_update)
  moreover have "sessions_at ?s' fd' = ((sessions_at s)(fd := as)) fd'" for fd'
  proof (cases "hash_int fd' = ?i")
    case True
    have "sessions_at ?s' fd' =
        filter (\<lambda>x. fd_of s x = Some fd') (remove1 a (?b ! ?i))"
      using len dist True by (auto simp: sessions_at_def fds intro!: filter_cong)
    also have "\<dots> = remove1 a (sessions_at s fd')"
      using True a(2) dist
      by (simp add: sessions_at_def distinct_remove1_removeAll filter_remove1 removeAll_filter_not_eq
          filter_filter conj_commute)
    finally show ?thesis using at a(2)
      by (auto simp: sessions_at_def remove1_idem)
  next
    case False
    with elsewhere [of "hash_int fd'"] have "a \<notin> set (?b ! hash_int fd')"
      by (simp add: hash_int_less)
    with False have "sessions_at ?s' fd' = sessions_at s fd'"
      by (auto simp: sessions_at_def fds intro!: filter_cong)
    with False show ?thesis by auto
  qed
  ultimately show ?thesis using rem fds by blast
qed

interpretation table: session_store table_ok sessions_at fd_of store_add store_get store_remove
  by unfold_locales
    (use store_add_ok store_get_ok store_remove_none store_remove_ok in blast)+

text \<open>Destroying the whole table frees every session once, and nothing else.\<close>

lemma destroy_nodes_ok:
  "distinct as \<Longrightarrow> \<forall>a \<in> set as. h a \<noteq> None \<Longrightarrow>
   destroy_nodes h as = Inr (\<lambda>a. if a \<in> set as then None else h a)"
proof (induction as arbitrary: h)
  case (Cons a as)
  then obtain c where c: "h a = Some c" by auto
  have "destroy_nodes (h(a := None)) as = Inr (\<lambda>x. if x \<in> set as then None else (h(a := None)) x)"
    using Cons.prems by (intro Cons.IH) auto
  moreover have "(\<lambda>x. if x \<in> set as then None else (h(a := None)) x)
      = (\<lambda>x. if x \<in> set (a # as) then None else h x)"
    by (auto simp: fun_eq_iff)
  ultimately show ?case using c by (simp add: connection_destroy_def)
qed simp

lemma table_distinct:
  assumes "table_ok s"
  shows "distinct (concat (session_bucket (fst s)))"
proof -
  let ?b = "session_bucket (fst s)"
  have "set (?b ! i) \<inter> set (?b ! j) = {}"
    if "i < length ?b" "j < length ?b" "i \<noteq> j" for i j
  proof (rule ccontr)
    assume "set (?b ! i) \<inter> set (?b ! j) \<noteq> {}"
    then obtain a where a: "a \<in> set (?b ! i)" "a \<in> set (?b ! j)" by blast
    have l: "i < SESSION_TABLE_SIZE" "j < SESSION_TABLE_SIZE"
      using assms that by (simp_all add: table_ok_def)
    with a assms obtain fd where "fd_of s a = Some fd" unfolding table_ok_def by blast
    from table_hash [OF assms l(1) a(1) this] table_hash [OF assms l(2) a(2) this] that(3)
    show False by simp
  qed
  with assms show ?thesis by (intro distinct_concat_nth) (simp_all add: table_ok_def)
qed

section \<open>Properties\<close>

text \<open>C2: The reassembly buffer is a byte queue: whatever segments arrive, in whatever sizes,
  every call of \<open>connection_append_data\<close> returns (its doubling loop ends), the invariant
  of the buffer holds, the pending bytes are the old ones followed by the segments in order,
  and \<open>connection_consume_buffer\<close> takes bytes off the front. The \<open>size_t\<close> arithmetic does
  not get in the way up to half of the address space. This is for \<open>realloc\<close> calls that succeed: a segment
  whose \<open>realloc\<close> fails is dropped.\<close>

theorem reassembly_refines_queue:
  assumes "conn_ok c" and "length (pending c) + length (concat ds) \<le> 2 ^ 63"
    and "n \<le> length (pending c @ concat ds)"
  shows "\<exists>c'. foldl (\<lambda>r d. Option.bind r (\<lambda>c. connection_append_data junk True c d)) (Some c) ds
                = Some c'
            \<and> conn_ok c' \<and> pending c' = pending c @ concat ds
            \<and> pending (connection_consume_buffer c' (of_nat n)) = drop n (pending c @ concat ds)"
proof -
  from reassembly.append_chunks [OF assms(1,2), of junk] obtain c' where
    "foldl (\<lambda>r d. Option.bind r (\<lambda>c. connection_append_data junk True c d)) (Some c) ds = Some c'"
    "conn_ok c'" "pending c' = pending c @ concat ds" by blast
  with reassembly.consume_ok [of c' n] assms(3) show ?thesis by auto
qed

theorem reassembly_refines_queue_witness:
  "\<exists>c'. foldl (\<lambda>r d. Option.bind r (\<lambda>c. connection_append_data (\<lambda>_. NUL) True c d))
            (Some (connection_create 5 ''10.0.0.1'' 4711 HTTP_PROTOCOL 0 0)) [''GE'', ''T /'']
          = Some c'
        \<and> conn_ok c' \<and> pending c' = ''GET /''
        \<and> pending (connection_consume_buffer c' (of_nat 4)) = ''/''"
  using reassembly_refines_queue [of "connection_create 5 ''10.0.0.1'' 4711 HTTP_PROTOCOL 0 0"
      "[''GE'', ''T /'']" 4 "\<lambda>_. NUL"]
  by (simp add: connection_create_ok)

text \<open>C3: The life of a session: adding a connection succeeds, from then on a lookup of its
  descriptor finds it and no other lookup changes, and removing it by its descriptor frees
  exactly that connection, follows no dangling pointer and leaves the table as it was, also
  when other sessions share the bucket or the descriptor.\<close>

theorem session_lifecycle:
  assumes "table_ok (tab, h)" and "h a = Some c" and "socket_file_descriptor c = fd"
    and "a \<notin> set (sessions_at (tab, h) fd)"
  shows "\<exists>tab'. session_table_add tab h a = Inr tab'
     \<and> session_table_get tab' h fd = Inr (Some a)
     \<and> (\<forall>fd'. fd' \<noteq> fd \<longrightarrow> session_table_get tab' h fd' = session_table_get tab h fd')
     \<and> (\<exists>tab'' h''. session_table_remove tab' h fd = Inr (tab'', h'') \<and> table_ok (tab'', h'')
          \<and> sessions_at (tab'', h'') = sessions_at (tab, h)
          \<and> fd_of (tab'', h'') = (fd_of (tab, h))(a := None))"
proof -
  have fd: "fd_of (tab, h) a = Some fd" using assms(2,3) by (simp add: fd_of_def)
  obtain tab' where tab': "session_table_add tab h a = Inr tab'"
    using assms(2) by (simp add: session_table_add_def Let_def)
  then have add: "store_add (tab, h) a = Inr (tab', h)" by (simp add: store_add_def)
  from table.get_after_add [OF assms(1) fd assms(4)] add
  have "session_table_get tab' h fd = Inr (Some a)"
    "\<forall>fd'. fd' \<noteq> fd \<longrightarrow> session_table_get tab' h fd' = session_table_get tab h fd'"
    by (auto simp: store_get_def)
  moreover from table.add_remove [OF assms(1) fd assms(4)] add
  have "\<exists>tab'' h''. session_table_remove tab' h fd = Inr (tab'', h'') \<and> table_ok (tab'', h'')
          \<and> sessions_at (tab'', h'') = sessions_at (tab, h)
          \<and> fd_of (tab'', h'') = (fd_of (tab, h))(a := None)"
    by (auto simp: store_remove_def)
  ultimately show ?thesis using tab' by blast
qed

theorem session_lifecycle_witness:
  "\<exists>tab'. session_table_add session_table_create
            [7 \<mapsto> connection_create 5 ''10.0.0.1'' 4711 SSH_PROTOCOL 0 0] 7 = Inr tab'
     \<and> session_table_get tab' [7 \<mapsto> connection_create 5 ''10.0.0.1'' 4711 SSH_PROTOCOL 0 0] 5
         = Inr (Some 7)"
proof -
  have "7 \<notin> set (sessions_at (session_table_create,
      [7 \<mapsto> connection_create 5 ''10.0.0.1'' 4711 SSH_PROTOCOL 0 0]) 5)"
    by (simp add: sessions_at_def session_table_create_def hash_int_def SESSION_TABLE_SIZE_def)
  from session_lifecycle [OF table_ok_create _ _ this] show ?thesis
    by (auto simp: connection_create_def)
qed

text \<open>C18: Destroying the table frees every session in it exactly once and touches no other
  object.\<close>

theorem session_table_destroy_frees:
  assumes "table_ok (tab, h)"
  shows "session_table_destroy tab h
    = Inr (\<lambda>a. if a \<in> set (concat (session_bucket tab)) then None else h a)"
proof -
  have "\<forall>a \<in> set (concat (session_bucket tab)). h a \<noteq> None"
    using table_alive [OF assms] assms
    by (fastforce simp: table_ok_def in_set_conv_nth)
  with table_distinct [OF assms] show ?thesis
    unfolding session_table_destroy_def by (intro destroy_nodes_ok) auto
qed

theorem session_table_destroy_frees_witness:
  "\<exists>tab'. session_table_add session_table_create
            [7 \<mapsto> connection_create 5 ''10.0.0.1'' 4711 SSH_PROTOCOL 0 0] 7 = Inr tab'
     \<and> session_table_destroy tab' [7 \<mapsto> connection_create 5 ''10.0.0.1'' 4711 SSH_PROTOCOL 0 0]
         = Inr Map.empty"
proof -
  let ?h = "[7 \<mapsto> connection_create 5 ''10.0.0.1'' 4711 SSH_PROTOCOL 0 0]"
  let ?tab = "session_table_create\<lparr>session_bucket :=
      (session_bucket session_table_create)[5 := [7]]\<rparr>"
  have add: "session_table_add session_table_create ?h 7 = Inr ?tab"
    by (simp add: session_table_add_def connection_create_def hash_int_def
        SESSION_TABLE_SIZE_def session_table_create_def)
  then have "table_ok (?tab, ?h)"
    using store_add_ok [OF table_ok_create, of ?h 7 5]
    by (auto simp: store_add_def fd_of_def connection_create_def sessions_at_def
        session_table_create_def hash_int_def SESSION_TABLE_SIZE_def)
  note session_table_destroy_frees [OF this]
  moreover have "set (concat (session_bucket ?tab)) = {7}"
    by (simp add: session_table_create_def SESSION_TABLE_SIZE_def set_update_distinct
        upd_conv_take_nth_drop)
  ultimately show ?thesis using add by (auto simp: fun_eq_iff)
qed

end
