(* ===== verification/Service.thy ===== *)
theory Service
  imports Session
begin

text \<open>
  The contract of an audited service, as a locale: what the services that use the audit trail
  have in common. A session is recorded with its connection first and its disconnection last,
  every record in between names the session, the peer and the protocol, and the socket is closed
  once, after the last record.
\<close>

section \<open>Effects within a session\<close>

definition attributed :: "protocol_type \<Rightarrow> string \<Rightarrow> int \<Rightarrow> string \<Rightarrow> audit_req \<Rightarrow> bool" where
  "attributed proto ip port sid r \<longleftrightarrow> req_protocol r = protocol_num proto \<and> req_ip r = Some ip
     \<and> req_port r = port \<and> req_session r = Some sid"

text \<open>An effect of the body of a session: no close, no record of a connection's begin or end.\<close>

fun inner :: "protocol_type \<Rightarrow> string \<Rightarrow> int \<Rightarrow> string \<Rightarrow> eff \<Rightarrow> bool" where
  "inner proto ip port sid (Send s) \<longleftrightarrow> True"
| "inner proto ip port sid (Log l as) \<longleftrightarrow> True"
| "inner proto ip port sid (Close fd) \<longleftrightarrow> False"
| "inner proto ip port sid (Audit r) \<longleftrightarrow> attributed proto ip port sid r
     \<and> req_type r \<noteq> AUDIT_EVENT_CONNECTION \<and> req_type r \<noteq> AUDIT_EVENT_DISCONNECTION"

fun quiet :: "eff \<Rightarrow> bool" where
  "quiet (Log l as) \<longleftrightarrow> True"
| "quiet e \<longleftrightarrow> False"

lemmas record_defs = audit_record_connection_def audit_record_auth_def audit_record_command_def
  audit_record_disconnect_def attributed_def

lemmas inner_audit = inner.simps(4)

declare inner.simps(4) [simp del]

lemma inner_record [simp]:
  "inner proto ip port sid (Audit (audit_record_command proto ip port sid c))"
  "inner proto ip port sid (Audit (audit_record_auth proto ip port sid u p ok))"
  by (simp_all add: record_defs inner_audit)

lemma attributed_record [simp]:
  "attributed proto ip port sid (audit_record_connection proto ip port sid)"
  "attributed proto ip port sid (audit_record_disconnect proto ip port sid)"
  by (simp_all add: record_defs)

lemma closes_inner: "list_all (inner proto ip port sid) es \<Longrightarrow> closes es = []"
  by (induction es) (auto split: eff.splits simp: inner_audit)

lemma audits_inner:
  "list_all (inner proto ip port sid) es \<Longrightarrow> r \<in> set (audits es) \<Longrightarrow>
   attributed proto ip port sid r \<and> req_type r \<noteq> AUDIT_EVENT_CONNECTION
   \<and> req_type r \<noteq> AUDIT_EVENT_DISCONNECTION"
  by (induction es) (auto split: eff.splits simp: inner_audit)

lemma quiet_effects: "list_all quiet es \<Longrightarrow> audits es = []" "list_all quiet es \<Longrightarrow> closes es = []"
  by (induction es; auto split: eff.splits)+

text \<open>The texts of the commands in the records of a trace.\<close>

definition is_command :: "audit_req \<Rightarrow> bool" where
  "is_command r \<longleftrightarrow> req_type r = AUDIT_EVENT_COMMAND"

definition recorded_commands :: "eff list \<Rightarrow> audit_req list" where
  "recorded_commands es = filter is_command (audits es)"

lemma recorded_commands_append [simp]:
  "recorded_commands (xs @ ys) = recorded_commands xs @ recorded_commands ys"
  by (simp add: recorded_commands_def)

lemma recorded_commands_nil [simp]: "recorded_commands [] = []"
  by (simp add: recorded_commands_def)

lemma recorded_commands_concat: "recorded_commands (concat ess) = concat (map recorded_commands ess)"
  by (induction ess) simp_all

lemma recorded_commands_cons [simp]:
  "recorded_commands (Send s # es) = recorded_commands es"
  "recorded_commands (Log l as # es) = recorded_commands es"
  "recorded_commands (Close fd # es) = recorded_commands es"
  "recorded_commands (Audit r # es) = (if is_command r then [r] else []) @ recorded_commands es"
  by (simp_all add: recorded_commands_def)

lemma is_command_record [simp]:
  "is_command (audit_record_command proto ip port sid c)"
  "\<not> is_command (audit_record_connection proto ip port sid)"
  "\<not> is_command (audit_record_disconnect proto ip port sid)"
  "\<not> is_command (audit_record_auth proto ip port sid u p ok)"
  by (simp_all add: record_defs is_command_def)

section \<open>Loops over segments\<close>

text \<open>
  The receive loop that four of the services have: every segment is one message, handled with
  the state so far; the handler tells whether the loop goes on.
\<close>

fun dialogue :: "('s \<Rightarrow> string \<Rightarrow> 's \<times> eff list \<times> bool) \<Rightarrow> 's \<Rightarrow> string list \<Rightarrow> eff list" where
  "dialogue step s [] = []"
| "dialogue step s (d # ds) =
     (case step s d of (s', es, running) \<Rightarrow> if running then es @ dialogue step s' ds else es)"

locale segment_loop =
  fixes cap :: nat
    and step :: "'s \<Rightarrow> string \<Rightarrow> 's \<times> eff list \<times> bool"
    and loop :: "'s \<Rightarrow> segment list \<Rightarrow> eff list"
  assumes unfold_loop:
    "loop s ib =
       (case recv cap ib of
          (Got d, ib') \<Rightarrow>
            (case step s d of (s', es, running) \<Rightarrow> if running then es @ loop s' ib' else es)
        | _ \<Rightarrow> [])"
begin

text \<open>What holds of the effects of every step holds of the loop.\<close>

lemma loop_effects:
  assumes "\<And>s d. list_all P (fst (snd (step s d)))"
  shows "list_all P (loop s ib)"
proof (induction "inbox_size ib" arbitrary: s ib rule: less_induct)
  case less
  show ?case
    using assms
    by (subst unfold_loop)
      (auto simp: case_prod_beta recv_decreases' split: recv_ret.splits intro!: less.hyps)
qed

lemma loop_message:
  assumes "d \<noteq> []" "length d \<le> cap"
  shows "loop s (Data d # ib) =
    (case step s d of (s', es, running) \<Rightarrow> if running then es @ loop s' ib else es)"
  by (subst unfold_loop) (simp only: recv_one [OF assms] prod.case recv_ret.case)

lemma loop_line:
  assumes "sent_line cap l"
  shows "loop s (Data (l @ CRLF) # ib) =
    (case step s (l @ CRLF) of (s', es, running) \<Rightarrow> if running then es @ loop s' ib else es)"
  using assms by (intro loop_message) (simp_all add: sent_line_def)

lemma loop_end [simp]: "loop s [] = []"
  by (subst unfold_loop) simp

text \<open>When every message fits the buffer, the loop is the dialogue over the messages.\<close>

lemma loop_dialogue:
  "list_all (\<lambda>d. d \<noteq> [] \<and> length d \<le> cap) ds \<Longrightarrow> loop s (map Data ds) = dialogue step s ds"
  by (induction ds arbitrary: s) (simp_all add: loop_message case_prod_beta)

end

section \<open>The contract\<close>

locale audited_service =
  fixes proto :: protocol_type
    and run :: "string \<Rightarrow> connection \<Rightarrow> segment list \<Rightarrow> eff list"
  assumes shape:
    "\<exists>before body after.
       run sid c ib = before
         @ Audit (audit_record_connection proto (remote_ip c) (uint (remote_port c)) sid) # body
         @ Audit (audit_record_disconnect proto (remote_ip c) (uint (remote_port c)) sid) # after
       \<and> list_all quiet before
       \<and> list_all (inner proto (remote_ip c) (uint (remote_port c)) sid) body
       \<and> audits after = [] \<and> closes after = [socket_file_descriptor c]"
begin

text \<open>What the audit trail gets of one session.\<close>

lemma session_records:
  "\<exists>rs. audits (run sid c ib) =
      audit_record_connection proto (remote_ip c) (uint (remote_port c)) sid # rs
      @ [audit_record_disconnect proto (remote_ip c) (uint (remote_port c)) sid]
    \<and> (\<forall>r \<in> set rs. attributed proto (remote_ip c) (uint (remote_port c)) sid r
         \<and> req_type r \<noteq> AUDIT_EVENT_CONNECTION \<and> req_type r \<noteq> AUDIT_EVENT_DISCONNECTION)
    \<and> closes (run sid c ib) = [socket_file_descriptor c]"
proof -
  from shape [of sid c ib] obtain before body after where s:
    "run sid c ib = before
         @ Audit (audit_record_connection proto (remote_ip c) (uint (remote_port c)) sid) # body
         @ Audit (audit_record_disconnect proto (remote_ip c) (uint (remote_port c)) sid) # after"
    "list_all quiet before" "list_all (inner proto (remote_ip c) (uint (remote_port c)) sid) body"
    "audits after = []" "closes after = [socket_file_descriptor c]" by blast
  then show ?thesis
    using audits_inner [OF s(3)] closes_inner [OF s(3)]
    by (intro exI [of _ "audits body"]) (simp add: quiet_effects)
qed

lemma records_attributed:
  "r \<in> set (audits (run sid c ib)) \<Longrightarrow> attributed proto (remote_ip c) (uint (remote_port c)) sid r"
  using session_records [of sid c ib] by auto

lemma one_connection_one_disconnection:
  "length (filter (\<lambda>r. req_type r = AUDIT_EVENT_CONNECTION) (audits (run sid c ib))) = 1"
  "length (filter (\<lambda>r. req_type r = AUDIT_EVENT_DISCONNECTION) (audits (run sid c ib))) = 1"
proof -
  from session_records [of sid c ib] obtain rs where rs: "audits (run sid c ib) =
      audit_record_connection proto (remote_ip c) (uint (remote_port c)) sid # rs
      @ [audit_record_disconnect proto (remote_ip c) (uint (remote_port c)) sid]"
    "\<forall>r \<in> set rs. req_type r \<noteq> AUDIT_EVENT_CONNECTION \<and> req_type r \<noteq> AUDIT_EVENT_DISCONNECTION"
    by blast
  then have "filter (\<lambda>r. req_type r = AUDIT_EVENT_CONNECTION) rs = []"
    "filter (\<lambda>r. req_type r = AUDIT_EVENT_DISCONNECTION) rs = []"
    by (auto simp: filter_empty_conv)
  with rs(1) show
    "length (filter (\<lambda>r. req_type r = AUDIT_EVENT_CONNECTION) (audits (run sid c ib))) = 1"
    "length (filter (\<lambda>r. req_type r = AUDIT_EVENT_DISCONNECTION) (audits (run sid c ib))) = 1"
    by (simp_all add: record_defs)
qed

end

end
