(* ===== verification/Redis_Honeypot.thy ===== *)
theory Redis_Honeypot
  imports Service
begin

text \<open>
  src/service/redis_honeypot.c: a fake Redis 6.2 server. The RESP and the inline parser, the
  replies, the receive loop.

  The receive buffer \<open>recv_buf[4096]\<close> is the list \<open>buf\<close> of its bytes up to, and without, the
  NUL that the service writes after the bytes of the last \<open>recv\<close>; of these the first
  \<open>used\<close> are valid. After a command has been removed with \<open>memmove\<close> no new NUL is written, so
  \<open>buf\<close> keeps its length and the \<open>str*\<close> functions see the bytes after \<open>used\<close> too.
  A parsed command is the list of its arguments, each a C string; \<open>argc\<close> is its length.
\<close>

section \<open>Helpers\<close>

definition REDIS_RECV_BUFFER_SIZE :: nat where "REDIS_RECV_BUFFER_SIZE = 4096"
definition REDIS_MAX_ARGS :: nat where "REDIS_MAX_ARGS = 32"
definition REDIS_MAX_ARG_LEN :: nat where "REDIS_MAX_ARG_LEN = 1024"
definition REDIS_RESP_BUFFER_SIZE :: nat where "REDIS_RESP_BUFFER_SIZE = 8192"

lemmas redis_sizes = REDIS_RECV_BUFFER_SIZE_def REDIS_MAX_ARGS_def REDIS_MAX_ARG_LEN_def
  REDIS_RESP_BUFFER_SIZE_def

type_synonym redis_command_t = "string list"

definition redis_str_toupper :: "string \<Rightarrow> nat \<Rightarrow> string" where
  "redis_str_toupper src max_len = map toupper (take (max_len - 1) src)"

definition redis_send_bulk_string :: "string \<Rightarrow> eff list" where
  "redis_send_bulk_string str =
     [Send (snprintf 64 (''$'' @ dec (length str) @ CRLF)), Send str, Send CRLF]"

section \<open>Parsers\<close>

text \<open>
  The body of the loop over the arguments: \<open>p\<close> is the offset of the pointer \<open>p\<close> in the
  buffer. \<open>None\<close> is the result 0 of the parser.
\<close>

definition redis_parse_arg :: "string \<Rightarrow> nat \<Rightarrow> nat \<Rightarrow> (string \<times> nat) option" where
  "redis_parse_arg buf end p =
     (if end \<le> p \<or> buf ! p \<noteq> CHR ''$'' then None
      else
        case strstr (cstr (drop (p + 1) buf)) CRLF of
          None \<Rightarrow> None
        | Some off \<Rightarrow>
            let crlf = p + 1 + off; arg_len = atoi (cstr (drop (p + 1) buf)) in
            if end \<le> crlf then None
            else if arg_len < 0 then None
            else
              let p = crlf + 2; arg_len = nat arg_len in
              if end < p + arg_len + 2 then None
              else
                let copy_len = (if arg_len < REDIS_MAX_ARG_LEN - 1 then arg_len
                                else REDIS_MAX_ARG_LEN - 1);
                    arg = cstr (take copy_len (drop p buf));
                    p = p + arg_len
                in if end < p + 2 \<or> buf ! p \<noteq> CR \<or> buf ! (p + 1) \<noteq> LF then None
                   else Some (arg, p + 2))"

text \<open>The loop, with \<open>n\<close> arguments still to read.\<close>

fun redis_parse_args :: "string \<Rightarrow> nat \<Rightarrow> nat \<Rightarrow> nat \<Rightarrow> (redis_command_t \<times> nat) option" where
  "redis_parse_args buf end 0 p = Some ([], p)"
| "redis_parse_args buf end (Suc n) p =
     (case redis_parse_arg buf end p of
        None \<Rightarrow> None
      | Some (arg, p') \<Rightarrow>
          (case redis_parse_args buf end n p' of
             None \<Rightarrow> None
           | Some (argv, q) \<Rightarrow> Some (arg # argv, q)))"

definition redis_parse_resp_array :: "string \<Rightarrow> nat \<Rightarrow> (redis_command_t \<times> nat) option" where
  "redis_parse_resp_array buf buf_len =
     (if buf_len < 4 \<or> buf ! 0 \<noteq> CHR ''*'' then None
      else
        case strstr (cstr (drop 1 buf)) CRLF of
          None \<Rightarrow> None
        | Some off \<Rightarrow>
            if buf_len \<le> 1 + off then None
            else
              let argc = atoi (cstr (drop 1 buf)) in
              if argc \<le> 0 \<or> argc > int REDIS_MAX_ARGS then None
              else redis_parse_args buf buf_len (nat argc) (1 + off + 2))"

definition redis_parse_inline :: "string \<Rightarrow> nat \<Rightarrow> (redis_command_t \<times> nat) option" where
  "redis_parse_inline buf buf_len =
     (let crlf = (case strstr (cstr buf) CRLF of
                    Some i \<Rightarrow> Some i
                  | None \<Rightarrow>
                      (case strstr (cstr buf) [LF] of
                         Some i \<Rightarrow> Some i
                       | None \<Rightarrow>
                           if 0 < buf_len \<and> buf ! (buf_len - 1) \<noteq> NUL then Some buf_len else None))
      in case crlf of
           None \<Rightarrow> None
         | Some crlf \<Rightarrow>
             if crlf = 0 then Some ([], if buf ! 0 = CR then 2 else 1)
             else
               let line_len = (if REDIS_RECV_BUFFER_SIZE \<le> crlf then REDIS_RECV_BUFFER_SIZE - 1 else crlf);
                   line = cstr (take line_len buf);
                   tokens = map (take (REDIS_MAX_ARG_LEN - 1)) (take REDIS_MAX_ARGS (strtok line));
                   consumed = crlf +
                     (if crlf < buf_len
                      then (if buf ! crlf = CR \<and> crlf + 1 < buf_len \<and> buf ! (crlf + 1) = LF
                            then 2 else 1)
                      else 0)
               in Some (tokens, consumed))"

section \<open>Canned replies\<close>

definition REDIS_FAKE_INFO :: string where
  "REDIS_FAKE_INFO = concat (map (\<lambda>l. l @ CRLF)
     [''# Server'', ''redis_version:6.2.6'', ''redis_git_sha1:00000000'', ''redis_git_dirty:0'',
      ''redis_build_id:a3fdef44459b3ad6'', ''redis_mode:standalone'',
      ''os:Linux 5.15.0-91-generic x86_64'', ''arch_bits:64'', ''multiplexing_api:epoll'',
      ''gcc_version:11.4.0'', ''process_id:1'', ''tcp_port:6379'', ''uptime_in_seconds:864213'',
      ''uptime_in_days:10'', ''hz:10'', ''configured_hz:10'', ''lru_clock:14523871'',
      ''executable:/usr/local/bin/redis-server'', ''config_file:/etc/redis/redis.conf'', '''',
      ''# Clients'', ''connected_clients:3'', ''cluster_connections:0'', ''maxclients:10000'',
      ''blocked_clients:0'', '''', ''# Memory'', ''used_memory:2097152'', ''used_memory_human:2.00M'',
      ''used_memory_rss:4194304'', ''used_memory_rss_human:4.00M'', ''used_memory_peak:3145728'',
      ''used_memory_peak_human:3.00M'', ''total_system_memory:8589934592'',
      ''total_system_memory_human:8.00G'', ''maxmemory:0'', ''maxmemory_human:0B'',
      ''maxmemory_policy:noeviction'', '''', ''# Keyspace'',
      ''db0:keys=47,expires=12,avg_ttl=86400000''])"

definition REDIS_FAKE_CONFIG :: string where
  "REDIS_FAKE_CONFIG = concat (map (\<lambda>l. l @ CRLF)
     [''*20'', ''$10'', ''bind'', ''$7'', ''0.0.0.0'', ''$4'', ''port'', ''$4'', ''6379'',
      ''$9'', ''timeout'', ''$1'', ''0'', ''$3'', ''dir'', ''$8'', ''/var/lib'',
      ''$10'', ''dbfilename'', ''$8'', ''dump.rdb'', ''$12'', ''requirepass'', ''$0'', '''',
      ''$10'', ''maxclients'', ''$5'', ''10000'', ''$9'', ''maxmemory'', ''$1'', ''0'',
      ''$16'', ''maxmemory-policy'', ''$10'', ''noeviction'', ''$9'', ''loglevel'',
      ''$6'', ''notice''])"

definition REDIS_FAKE_KEYS :: string where
  "REDIS_FAKE_KEYS = concat (map (\<lambda>l. l @ CRLF)
     [''*4'', ''$14'', ''session:abc123'', ''$11'', ''users:admin'',
      ''$18'', ''tokens:refresh_key'', ''$20'', ''api_keys:production''])"

definition redis_handle_info :: "eff list" where
  "redis_handle_info =
     [Send (snprintf REDIS_RESP_BUFFER_SIZE
        (''$'' @ dec (length REDIS_FAKE_INFO) @ CRLF @ REDIS_FAKE_INFO @ CRLF))]"

definition redis_handle_config_get :: "redis_command_t \<Rightarrow> log_arg list \<Rightarrow> eff list" where
  "redis_handle_config_get cmd peer =
     (if 3 \<le> length cmd then [Log UTILITIES_WARN (Str (cmd ! 2) # peer)] else [])
     @ [Send REDIS_FAKE_CONFIG]"

definition redis_handle_config_set :: "redis_command_t \<Rightarrow> log_arg list \<Rightarrow> eff list" where
  "redis_handle_config_set cmd peer =
     (if 4 \<le> length cmd then [Log UTILITIES_WARN (Str (cmd ! 2) # Str (cmd ! 3) # peer)]
      else if 3 \<le> length cmd then [Log UTILITIES_WARN (Str (cmd ! 2) # peer)] else [])
     @ [Send (''+OK'' @ CRLF)]"

section \<open>Dispatch\<close>

text \<open>The loop that joins the arguments into \<open>full_cmd[4096]\<close>; \<open>offset\<close> is the length of \<open>acc\<close>.\<close>

fun redis_full_cmd :: "nat \<Rightarrow> string \<Rightarrow> redis_command_t \<Rightarrow> string" where
  "redis_full_cmd i acc [] = acc"
| "redis_full_cmd i acc (a # as) =
     (if length acc < REDIS_RECV_BUFFER_SIZE - 1 then
        let acc = (if 0 < i then acc @ '' '' else acc);
            remaining = REDIS_RECV_BUFFER_SIZE - 1 - length acc;
            copy = (if length a < remaining then length a else remaining)
        in redis_full_cmd (Suc i) (acc @ take copy a) as
      else acc)"

text \<open>The reply to an unknown command, built in \<open>err_resp[512]\<close>.\<close>

definition redis_unknown_reply :: "redis_command_t \<Rightarrow> string" where
  "redis_unknown_reply cmd =
     (let err = snprintf 512 (''-ERR unknown command '' @ [CHR 0x27] @ cmd ! 0 @ [CHR 0x27]
                  @ '', with args beginning with: '');
          err = foldl (\<lambda>err a. err @ snprintf (512 - length err) ([CHR 0x27] @ a @ [CHR 0x27] @ '' ''))
                  err (take 3 (drop 1 cmd))
      in if length err + 2 < 512 then err @ CRLF else err)"

text \<open>The effects of the branch a command takes, and whether the session ends.\<close>

definition redis_reply ::
  "redis_command_t \<Rightarrow> string \<Rightarrow> int \<Rightarrow> string \<Rightarrow> eff list \<times> bool" where
  "redis_reply cmd ip port sid =
     (let upper_cmd = redis_str_toupper (cmd ! 0) REDIS_MAX_ARG_LEN;
          sub = redis_str_toupper (cmd ! 1) REDIS_MAX_ARG_LEN;
          argc = length cmd;
          peer = [Str ip, Num port];
          ok = Send (''+OK'' @ CRLF)
      in
      if upper_cmd = ''PING'' then
        (if 2 \<le> argc then redis_send_bulk_string (cmd ! 1) else [Send (''+PONG'' @ CRLF)], False)
      else if upper_cmd = ''INFO'' then (redis_handle_info, False)
      else if upper_cmd = ''CONFIG'' then
        (if 2 \<le> argc then
           if sub = ''GET'' then redis_handle_config_get cmd peer
           else if sub = ''SET'' then redis_handle_config_set cmd peer
           else if sub = ''RESETSTAT'' then [ok]
           else if sub = ''REWRITE'' then [ok]
           else [Send (''-ERR Unknown subcommand or wrong number of arguments'' @ CRLF)]
         else [Send (''-ERR wrong number of arguments for '' @ [CHR 0x27] @ ''config'' @ [CHR 0x27]
                     @ '' command'' @ CRLF)], False)
      else if upper_cmd = ''SET'' then
        ((if 3 \<le> argc then [Log UTILITIES_WARN (Str (cmd ! 1) # Str (cmd ! 2) # peer)]
          else if 2 \<le> argc then [Log UTILITIES_WARN (Str (cmd ! 1) # peer)] else []) @ [ok], False)
      else if upper_cmd = ''GET'' then ([Send (''$-1'' @ CRLF)], False)
      else if upper_cmd = ''KEYS'' then
        ((if 2 \<le> argc then [Log UTILITIES_WARN (Str (cmd ! 1) # peer)] else [])
         @ [Send REDIS_FAKE_KEYS], False)
      else if upper_cmd = ''AUTH'' then
        ((if 2 \<le> argc then
            [Log UTILITIES_WARN (Str (cmd ! 1) # peer),
             Audit (audit_record_auth REDIS_PROTOCOL ip port sid '''' (Some (cmd ! 1)) False)]
          else [])
         @ [Send (''-ERR Client sent AUTH, but no password is set. ''
                  @ ''Did you mean ACL SETUSER with >password?'' @ CRLF)], False)
      else if upper_cmd = ''SLAVEOF'' \<or> upper_cmd = ''REPLICAOF'' then
        ((if 3 \<le> argc
          then [Log UTILITIES_WARN (Str upper_cmd # Str (cmd ! 1) # Str (cmd ! 2) # peer)]
          else [Log UTILITIES_WARN (Str upper_cmd # peer)]) @ [ok], False)
      else if upper_cmd = ''EVAL'' \<or> upper_cmd = ''EVALSHA'' then
        ((if 2 \<le> argc then [Log UTILITIES_WARN (Str (take 256 (cmd ! 1)) # peer)] else [])
         @ [Send (''-NOSCRIPT No matching script. Please use EVAL.'' @ CRLF)], False)
      else if upper_cmd = ''FLUSHALL'' \<or> upper_cmd = ''FLUSHDB'' then
        ([Log UTILITIES_WARN (Str upper_cmd # peer), ok], False)
      else if upper_cmd = ''DEL'' \<or> upper_cmd = ''UNLINK'' then
        ((if 2 \<le> argc then [Log UTILITIES_WARN (Str (cmd ! 1) # peer)] else [])
         @ [Send ('':0'' @ CRLF)], False)
      else if upper_cmd = ''EXISTS'' then ([Send ('':0'' @ CRLF)], False)
      else if upper_cmd = ''TTL'' \<or> upper_cmd = ''PTTL'' then ([Send ('':-2'' @ CRLF)], False)
      else if upper_cmd = ''TYPE'' then ([Send (''+none'' @ CRLF)], False)
      else if upper_cmd = ''DBSIZE'' then ([Send ('':47'' @ CRLF)], False)
      else if upper_cmd = ''SELECT'' then ([ok], False)
      else if upper_cmd = ''COMMAND'' then ([Send (''*0'' @ CRLF)], False)
      else if upper_cmd = ''CLIENT'' then
        (if 2 \<le> argc \<and> sub = ''SETNAME'' then [ok]
         else if 2 \<le> argc \<and> sub = ''GETNAME'' then [Send (''$-1'' @ CRLF)]
         else if 2 \<le> argc \<and> sub = ''LIST'' then
           redis_send_bulk_string (''id=3 addr=127.0.0.1:6379 fd=8 name= db=0 cmd=client'' @ CRLF)
         else [ok], False)
      else if upper_cmd = ''ECHO'' then
        (if 2 \<le> argc then redis_send_bulk_string (cmd ! 1)
         else [Send (''-ERR wrong number of arguments for '' @ [CHR 0x27] @ ''echo'' @ [CHR 0x27]
                     @ '' command'' @ CRLF)], False)
      else if upper_cmd = ''SAVE'' \<or> upper_cmd = ''BGSAVE'' \<or> upper_cmd = ''BGREWRITEAOF'' then
        ([Log UTILITIES_WARN (Str upper_cmd # peer), ok], False)
      else if upper_cmd = ''SHUTDOWN'' then ([Log UTILITIES_WARN peer, ok], True)
      else if upper_cmd = ''MODULE'' then
        ((if 3 \<le> argc then [Log UTILITIES_WARN (Str (cmd ! 1) # Str (cmd ! 2) # peer)] else [])
         @ [Send (''-ERR Error loading shared library: No such file or directory'' @ CRLF)], False)
      else if upper_cmd = ''DEBUG'' then
        ([Log UTILITIES_WARN peer, Send (''-ERR DEBUG command not allowed'' @ CRLF)], False)
      else if upper_cmd = ''QUIT'' then ([ok], True)
      else ([Send (redis_unknown_reply cmd)], False))"

definition redis_dispatch_command ::
  "redis_command_t \<Rightarrow> string \<Rightarrow> int \<Rightarrow> string \<Rightarrow> eff list \<times> bool" where
  "redis_dispatch_command cmd ip port sid =
     (if length cmd \<le> 0 then ([], False)
      else
        let full_cmd = redis_full_cmd 0 [] cmd;
            (es, close) = redis_reply cmd ip port sid
        in ([Log UTILITIES_WARN [Str full_cmd, Str ip, Num port],
             Audit (audit_record_command REDIS_PROTOCOL ip port sid full_cmd)] @ es, close))"

section \<open>The receive loop\<close>

text \<open>One round of the inner loop: the bytes consumed and the command, if there is one.\<close>

definition redis_parse :: "string \<Rightarrow> nat \<Rightarrow> (redis_command_t \<times> nat) option" where
  "redis_parse buf used =
     (case (if buf ! 0 = CHR ''*'' then redis_parse_resp_array buf used else None) of
        Some r \<Rightarrow> Some r
      | None \<Rightarrow> redis_parse_inline buf used)"

lemma redis_parse_arg_pos: "redis_parse_arg buf end p = Some (arg, q) \<Longrightarrow> p < q \<and> q \<le> end"
  by (auto simp: redis_parse_arg_def Let_def split: option.splits if_splits)

lemma redis_parse_args_pos: "redis_parse_args buf end n p = Some (argv, q) \<Longrightarrow> p \<le> q"
  by (induction n arbitrary: p argv)
    (fastforce split: option.splits dest: redis_parse_arg_pos)+

lemma redis_parse_pos: "redis_parse buf used = Some (cmd, k) \<Longrightarrow> 0 < k"
  by (auto simp: redis_parse_def redis_parse_resp_array_def redis_parse_inline_def Let_def
      split: if_splits option.splits dest!: redis_parse_args_pos)

text \<open>The inner loop: the effects, the buffer, the bytes used and whether to go on.\<close>

function redis_commands ::
  "string \<Rightarrow> int \<Rightarrow> string \<Rightarrow> string \<Rightarrow> nat \<Rightarrow> eff list \<times> string \<times> nat \<times> bool" where
  "redis_commands ip port sid buf used =
     (if used = 0 then ([], buf, used, True)
      else
        case redis_parse buf used of
          None \<Rightarrow> ([], buf, used, True)
        | Some (cmd, consumed) \<Rightarrow>
            let (es, close) = (if 0 < length cmd then redis_dispatch_command cmd ip port sid
                               else ([], False));
                buf' = (if consumed < used
                        then memcpy_at buf 0 (take (used - consumed) (drop consumed buf)) else buf);
                used' = (if consumed < used then used - consumed else 0)
            in if close then (es, buf', used', False)
               else (case redis_commands ip port sid buf' used' of
                       (es', buf'', used'', running) \<Rightarrow> (es @ es', buf'', used'', running)))"
  by pat_completeness auto
termination
  by (relation "measure (\<lambda>(_, _, _, _, used). used)") (auto dest: redis_parse_pos split: if_splits)

declare redis_commands.simps [simp del]

function redis_loop :: "string \<Rightarrow> int \<Rightarrow> string \<Rightarrow> string \<Rightarrow> nat \<Rightarrow> segment list \<Rightarrow> eff list" where
  "redis_loop ip port sid buf used ib =
     (let (warn, used) = (if REDIS_RECV_BUFFER_SIZE - 1 \<le> used
                          then ([Log UTILITIES_WARN [Str ip, Num port]], 0) else ([], used)) in
      warn @
      (case recv (REDIS_RECV_BUFFER_SIZE - 1 - used) ib of
         (Eof, _) \<Rightarrow> []
       | (Err, _) \<Rightarrow> [Log UTILITIES_DEBUG [Str ip, Num port]]
       | (Got d, ib') \<Rightarrow>
           (case redis_commands ip port sid (take used buf @ d) (used + length d) of
              (es, buf', used', running) \<Rightarrow>
                es @ (if running then redis_loop ip port sid buf' used' ib' else []))))"
  by pat_completeness auto
termination
  by (relation "measure (\<lambda>(_, _, _, _, _, ib). inbox_size ib)") (auto simp: recv_decreases)

declare redis_loop.simps [simp del]

text \<open>\<open>sid\<close> is the identifier \<open>redis_generate_session_id\<close> gives the session.\<close>

definition run_redis_service :: "string \<Rightarrow> connection \<Rightarrow> segment list \<Rightarrow> eff list" where
  "run_redis_service sid conn ib =
     (let ip = remote_ip conn; port = uint (remote_port conn); fd = socket_file_descriptor conn in
      [Log UTILITIES_INFO [Str ip, Num port, Num fd],
       Audit (audit_record_connection REDIS_PROTOCOL ip port sid)]
      @ redis_loop ip port sid [] 0 ib
      @ [Log UTILITIES_INFO [Str ip, Num port],
         Audit (audit_record_disconnect REDIS_PROTOCOL ip port sid), Close fd])"

section \<open>The audited command\<close>

text \<open>The arguments with single spaces between them.\<close>

fun join_args :: "string list \<Rightarrow> string" where
  "join_args [] = []"
| "join_args (a # as) = a @ concat (map (\<lambda>b. CHR '' '' # b) as)"

lemma full_cmd_rest:
  "length acc \<le> 4095 \<Longrightarrow>
   redis_full_cmd (Suc i) acc as = take 4095 (acc @ concat (map (\<lambda>b. CHR '' '' # b) as))"
proof (induction as arbitrary: i acc)
  case (Cons a as)
  show ?case
  proof (cases "length acc < 4095")
    case False
    with Cons.prems have "length acc = 4095" by simp
    then show ?thesis by (simp add: redis_sizes)
  next
    case True
    let ?acc = "acc @ '' '' @ take (4094 - length acc) a"
    have room: "4095 - length acc = Suc (4094 - length acc)" using True by simp
    have copy: "take (if length a < 4094 - length acc then length a else 4094 - length acc) a
        = take (4094 - length acc) a" by simp
    have "redis_full_cmd (Suc i) acc (a # as) = redis_full_cmd (Suc (Suc i)) ?acc as"
      using True by (simp add: redis_sizes Let_def copy [simplified])
    also have "\<dots> = take 4095 (?acc @ concat (map (\<lambda>b. CHR '' '' # b) as))"
      using True by (intro Cons.IH) simp
    also have "\<dots> = take 4095 (acc @ concat (map (\<lambda>b. CHR '' '' # b) (a # as)))"
      using True room by (cases "length a \<le> 4094 - length acc") (simp_all add: take_append)
    finally show ?thesis .
  qed
qed simp

lemma full_cmd_join: "redis_full_cmd 0 [] as = take 4095 (join_args as)"
proof (cases as)
  case (Cons a as')
  have "redis_full_cmd 0 [] as = redis_full_cmd (Suc 0) (take 4095 a) as'"
    by (simp add: Cons redis_sizes Let_def)
  also have "\<dots> = take 4095 (take 4095 a @ concat (map (\<lambda>b. CHR '' '' # b) as'))"
    by (rule full_cmd_rest) simp
  finally show ?thesis by (cases "length a \<le> 4095") (simp_all add: Cons)
qed simp

lemma reply_records: "recorded_commands (fst (redis_reply cmd ip port sid)) = []"
  by (simp add: redis_reply_def Let_def redis_send_bulk_string_def redis_handle_info_def
      redis_handle_config_get_def redis_handle_config_set_def)

lemma dispatch_records:
  "cmd \<noteq> [] \<Longrightarrow> recorded_commands (fst (redis_dispatch_command cmd ip port sid)) =
     [audit_record_command REDIS_PROTOCOL ip port sid (take 4095 (join_args cmd))]"
  using reply_records [of cmd ip port sid]
  by (simp add: redis_dispatch_command_def Let_def case_prod_beta full_cmd_join)

section \<open>The parser inverts the protocol's encoding\<close>

definition resp_bulk :: "string \<Rightarrow> string" where
  "resp_bulk a = ''$'' @ dec (length a) @ CRLF @ a @ CRLF"

definition resp_encode :: "string list \<Rightarrow> string" where
  "resp_encode args = ''*'' @ dec (length args) @ CRLF @ concat (map resp_bulk args)"

definition resp_arg_ok :: "string \<Rightarrow> bool" where
  "resp_arg_ok a \<longleftrightarrow> nul_free a \<and> length a < REDIS_MAX_ARG_LEN"

lemma header_cstr: "cstr (dec n @ CR # LF # t) = dec n @ CR # LF # cstr t"
  by (simp add: cstr_append_free)

lemma header_crlf: "strstr (dec n @ CR # LF # t) CRLF = Some (length (dec n))"
  using strstr_crlf [of "dec n" t] by simp

lemma header_atoi: "n < 2 ^ 31 \<Longrightarrow> atoi (dec n @ CR # t) = int n"
  by (rule atoi_dec) simp_all

lemma parse_bulk:
  assumes "resp_arg_ok a" and "length (pre @ resp_bulk a) \<le> n"
  shows "redis_parse_arg (pre @ resp_bulk a @ post) n (length pre) =
    Some (a, length (pre @ resp_bulk a))"
proof -
  let ?buf = "pre @ resp_bulk a @ post"
  have len: "length a < 1024" "nul_free a"
    using assms(1) by (simp_all add: resp_arg_ok_def redis_sizes)
  have rest: "drop (length pre + 1) ?buf = dec (length a) @ CR # LF # a @ CR # LF # post"
    by (simp add: resp_bulk_def)
  let ?p = "length pre + 1 + length (dec (length a)) + 2"
  have "drop ?p ?buf = drop (length (dec (length a)) + 2) (drop (length pre + 1) ?buf)"
    by (simp only: drop_drop add.assoc add.commute add.left_commute)
  then have body: "drop ?p ?buf = a @ CR # LF # post" unfolding rest by simp
  have crlf: "?buf ! (?p + length a) = CR" "?buf ! (?p + length a + 1) = LF"
    by (simp_all add: resp_bulk_def nth_append)
  have dollar: "?buf ! length pre = CHR ''$''" by (simp add: resp_bulk_def)
  have total: "length (pre @ resp_bulk a) = ?p + length a + 2" by (simp add: resp_bulk_def)
  have atoi: "atoi (cstr (drop (length pre + 1) ?buf)) = int (length a)"
    unfolding rest header_cstr using len by (intro header_atoi) simp
  have str: "strstr (cstr (drop (length pre + 1) ?buf)) CRLF = Some (length (dec (length a)))"
    unfolding rest header_cstr by (rule header_crlf)
  have arg: "cstr (take (length a) (drop ?p ?buf)) = a" unfolding body using len by simp
  have copy: "(if length a < REDIS_MAX_ARG_LEN - 1 then length a else REDIS_MAX_ARG_LEN - 1) = length a"
    using len by (auto simp: redis_sizes)
  show ?thesis
    unfolding redis_parse_arg_def str atoi option.case Let_def nat_int copy arg
    using assms(2) total dollar crlf by simp
qed

lemma parse_bulks:
  assumes "list_all resp_arg_ok args" and "length (pre @ concat (map resp_bulk args)) \<le> n"
  shows "redis_parse_args (pre @ concat (map resp_bulk args) @ post) n (length args) (length pre) =
    Some (args, length (pre @ concat (map resp_bulk args)))"
  using assms
proof (induction args arbitrary: pre)
  case (Cons a args)
  have "redis_parse_arg (pre @ resp_bulk a @ concat (map resp_bulk args) @ post) n (length pre)
      = Some (a, length (pre @ resp_bulk a))"
    using Cons.prems by (intro parse_bulk) simp_all
  moreover have "redis_parse_args ((pre @ resp_bulk a) @ concat (map resp_bulk args) @ post) n
      (length args) (length (pre @ resp_bulk a))
      = Some (args, length ((pre @ resp_bulk a) @ concat (map resp_bulk args)))"
    using Cons.prems by (intro Cons.IH) simp_all
  ultimately show ?case by simp
qed simp

lemma parse_array:
  assumes "args \<noteq> []" and "length args \<le> REDIS_MAX_ARGS" and "list_all resp_arg_ok args"
    and "length (resp_encode args) \<le> n"
  shows "redis_parse_resp_array (resp_encode args @ post) n = Some (args, length (resp_encode args))"
proof -
  let ?buf = "resp_encode args @ post"
  let ?pre = "''*'' @ dec (length args) @ CRLF"
  have rest: "drop 1 ?buf = dec (length args) @ CR # LF # concat (map resp_bulk args) @ post"
    by (simp add: resp_encode_def)
  have argc: "length args \<le> 32" "0 < length args" using assms(1,2) by (simp_all add: redis_sizes)
  have atoi: "atoi (cstr (drop 1 ?buf)) = int (length args)"
    unfolding rest header_cstr using argc by (intro header_atoi) simp
  have str: "strstr (cstr (drop 1 ?buf)) CRLF = Some (length (dec (length args)))"
    unfolding rest header_cstr by (rule header_crlf)
  obtain d ds where d: "dec (length args) = d # ds" by (cases "dec (length args)") auto
  obtain a as where a: "args = a # as" using assms(1) by (cases args) auto
  have four: "\<not> n < 4" "\<not> n \<le> 1 + length (dec (length args))"
    using assms(4) d a by (auto simp: resp_encode_def resp_bulk_def)
  have "redis_parse_args (?pre @ concat (map resp_bulk args) @ post) n (length args) (length ?pre)
      = Some (args, length (?pre @ concat (map resp_bulk args)))"
    using assms(3,4) by (intro parse_bulks) (simp_all add: resp_encode_def)
  moreover have "?pre @ concat (map resp_bulk args) @ post = ?buf"
    "length ?pre = 1 + length (dec (length args)) + 2" by (simp_all add: resp_encode_def)
  ultimately show ?thesis
    unfolding redis_parse_resp_array_def str atoi option.case Let_def nat_int
    using four argc by (simp add: redis_sizes resp_encode_def)
qed

section \<open>Sessions\<close>

lemma reply_inner:
  "list_all (inner REDIS_PROTOCOL ip port sid) (fst (redis_reply cmd ip port sid))"
  by (simp add: redis_reply_def Let_def redis_send_bulk_string_def redis_handle_info_def
      redis_handle_config_get_def redis_handle_config_set_def)

lemma dispatch_inner:
  "list_all (inner REDIS_PROTOCOL ip port sid) (fst (redis_dispatch_command cmd ip port sid))"
  using reply_inner [of ip port sid cmd]
  by (simp add: redis_dispatch_command_def Let_def case_prod_beta)

lemma commands_inner:
  "list_all (inner REDIS_PROTOCOL ip port sid) (fst (redis_commands ip port sid buf used))"
proof (induction used arbitrary: buf rule: less_induct)
  case (less used)
  show ?case
    using dispatch_inner [of ip port sid] redis_parse_pos [of buf used]
    by (subst redis_commands.simps)
      (auto simp: Let_def case_prod_beta split: option.splits intro!: less.IH)
qed

lemma redis_loop_inner:
  "list_all (inner REDIS_PROTOCOL ip port sid) (redis_loop ip port sid buf used ib)"
proof (induction "inbox_size ib" arbitrary: buf used ib rule: less_induct)
  case less
  show ?case
    using commands_inner [of ip port sid]
    by (subst redis_loop.simps)
      (auto simp: Let_def case_prod_beta recv_decreases' split: recv_ret.splits intro!: less.hyps)
qed

interpretation redis: audited_service REDIS_PROTOCOL run_redis_service
proof (unfold_locales, goal_cases)
  case (1 sid c ib)
  show ?case
    using redis_loop_inner [of "remote_ip c" "uint (remote_port c)" sid "[]" 0 ib]
    by (intro exI [of _ "[Log UTILITIES_INFO [Str (remote_ip c), Num (uint (remote_port c)),
          Num (socket_file_descriptor c)]]"]
        exI [of _ "redis_loop (remote_ip c) (uint (remote_port c)) sid [] 0 ib
          @ [Log UTILITIES_INFO [Str (remote_ip c), Num (uint (remote_port c))]]"]
        exI [of _ "[Close (socket_file_descriptor c)]"])
      (simp add: run_redis_service_def Let_def)
qed

text \<open>
  A well-formed command of a client library. Two commands end a session, in any case; the commands of a
  client that are carried out are those up to and with the first of these.
\<close>

definition client_command :: "string list \<Rightarrow> bool" where
  "client_command args \<longleftrightarrow> args \<noteq> [] \<and> length args \<le> REDIS_MAX_ARGS \<and> list_all resp_arg_ok args
     \<and> length (resp_encode args) < REDIS_RECV_BUFFER_SIZE"

definition redis_ends :: "string list \<Rightarrow> bool" where
  "redis_ends args \<longleftrightarrow> map toupper (hd args) = ''QUIT'' \<or> map toupper (hd args) = ''SHUTDOWN''"

fun redis_executed :: "string list list \<Rightarrow> string list list" where
  "redis_executed [] = []"
| "redis_executed (c # cs) = c # (if redis_ends c then [] else redis_executed cs)"

lemma redis_executed_all: "list_all P cs \<Longrightarrow> list_all P (redis_executed cs)"
  by (induction cs) auto

lemma toupper_arg: "client_command args \<Longrightarrow> redis_str_toupper (args ! 0) REDIS_MAX_ARG_LEN = map toupper (hd args)"
  by (cases args) (auto simp: client_command_def resp_arg_ok_def redis_str_toupper_def redis_sizes)

lemma reply_close:
  assumes "client_command args"
  shows "snd (redis_reply args ip port sid) \<longleftrightarrow> redis_ends args"
  using toupper_arg [OF assms] by (auto simp: redis_reply_def Let_def redis_ends_def)

text \<open>What the sends of an answer add up to: some text that starts with the type byte of a RESP value.\<close>

definition redis_answer :: "string list \<Rightarrow> bool" where
  "redis_answer ss \<longleftrightarrow> concat ss \<noteq> [] \<and> hd (concat ss) \<in> set ''+-:$*''"

lemma redis_answer_one: "redis_answer [s] \<longleftrightarrow> s \<noteq> [] \<and> hd s \<in> set ''+-:$*''"
  by (simp add: redis_answer_def)

lemma answer_snprintf: "2 \<le> n \<Longrightarrow> c \<in> set ''+-:$*'' \<Longrightarrow> redis_answer [snprintf n (c # s)]"
  by (cases n rule: nat.exhaust; auto simp: redis_answer_def snprintf_def take_Cons' neq_Nil_conv)

lemma unknown_prefix: "prefix e (foldl (\<lambda>err a. err @ snprintf (512 - length err) (f a)) e as)"
proof (induction as arbitrary: e)
  case (Cons a as)
  show ?case using Cons.IH [of "e @ snprintf (512 - length e) (f a)"] by (auto simp: prefix_def)
qed simp

lemma unknown_answer: "redis_answer [redis_unknown_reply cmd]"
proof -
  let ?e = "snprintf 512 (''-ERR unknown command '' @ [CHR 0x27] @ cmd ! 0 @ [CHR 0x27]
                  @ '', with args beginning with: '')"
  have "?e \<noteq> [] \<and> hd ?e = CHR ''-''" by (simp add: snprintf_def)
  then obtain e where "?e = CHR ''-'' # e" by (cases ?e) auto
  with unknown_prefix [of ?e "\<lambda>a. [CHR 0x27] @ a @ [CHR 0x27] @ '' ''" "take 3 (drop 1 cmd)"]
  show ?thesis by (auto simp: redis_unknown_reply_def Let_def redis_answer_def prefix_def)
qed

lemma bulk_answer: "redis_answer (sends (redis_send_bulk_string s))"
  by (simp add: redis_send_bulk_string_def redis_answer_def snprintf_def)

lemma info_answer: "redis_answer (sends redis_handle_info)"
  using answer_snprintf [of REDIS_RESP_BUFFER_SIZE "CHR ''$''"]
  by (simp add: redis_handle_info_def redis_sizes)

lemma config_answer:
  "redis_answer (sends (redis_handle_config_get cmd peer))" "redis_answer (sends (redis_handle_config_set cmd peer))"
  "redis_answer [REDIS_FAKE_KEYS]"
  by (simp_all add: redis_handle_config_get_def redis_handle_config_set_def redis_answer_def
      REDIS_FAKE_CONFIG_def REDIS_FAKE_KEYS_def)

lemma reply_answers: "redis_answer (sends (fst (redis_reply cmd ip port sid)))"
  by (simp add: redis_reply_def Let_def bulk_answer info_answer config_answer unknown_answer)
    (simp add: redis_answer_one)

lemma dispatch_answers: "cmd \<noteq> [] \<Longrightarrow> redis_answer (sends (fst (redis_dispatch_command cmd ip port sid)))"
  using reply_answers [of cmd ip port sid] by (simp add: redis_dispatch_command_def Let_def case_prod_beta)

lemma commands_one:
  assumes "client_command args"
  shows "\<exists>buf'. redis_commands ip port sid (resp_encode args) (length (resp_encode args)) =
    (fst (redis_dispatch_command args ip port sid), buf', 0, \<not> redis_ends args)"
proof -
  let ?e = "resp_encode args"
  from assms have c: "args \<noteq> []" "length args \<le> REDIS_MAX_ARGS" "list_all resp_arg_ok args"
    by (auto simp: client_command_def)
  have parse: "redis_parse ?e (length ?e) = Some (args, length ?e)"
    using parse_array [OF c(1-3), of "length ?e" "[]"]
    by (simp add: redis_parse_def) (simp add: resp_encode_def)
  have pos: "0 < length ?e" by (simp add: resp_encode_def)
  have "snd (redis_dispatch_command args ip port sid) \<longleftrightarrow> redis_ends args"
    using c reply_close [OF assms, of ip port sid]
    by (simp add: redis_dispatch_command_def Let_def case_prod_beta)
  then show ?thesis
    using pos c(1) by (subst redis_commands.simps)
      (simp add: parse case_prod_beta Let_def redis_commands.simps [where used = 0])
qed

lemma loop_commands:
  assumes "list_all client_command cmds"
  shows "redis_loop ip port sid buf 0 (map (\<lambda>args. Data (resp_encode args)) cmds) =
    concat (map (\<lambda>args. fst (redis_dispatch_command args ip port sid)) (redis_executed cmds))"
  using assms
proof (induction cmds arbitrary: buf)
  case Nil
  then show ?case by (subst redis_loop.simps) (simp add: redis_sizes)
next
  case (Cons args cmds)
  let ?e = "resp_encode args"
  from Cons.prems have "client_command args" by simp
  from commands_one [OF this, of ip port sid] obtain buf' where
    "redis_commands ip port sid ?e (length ?e) =
      (fst (redis_dispatch_command args ip port sid), buf', 0, \<not> redis_ends args)" by blast
  moreover have "?e \<noteq> []" "length ?e \<le> 4095"
    using Cons.prems by (simp_all add: client_command_def redis_sizes) (simp add: resp_encode_def)
  ultimately show ?case
    using Cons by (subst redis_loop.simps) (simp add: redis_sizes)
qed

lemma sends_concat: "sends (concat ess) = concat (map sends ess)"
  by (induction ess) simp_all

section \<open>Properties\<close>

text \<open>C6: The RESP parser inverts the encoding of the protocol: any array of 1 to 32 bulk strings of
  up to 1023 bytes other than NUL (line ends included), at the start of a buffer and followed by
  any bytes, is parsed into exactly these strings, and exactly the encoded bytes are consumed.\<close>

theorem resp_round_trip:
  assumes "args \<noteq> []" and "length args \<le> REDIS_MAX_ARGS" and "list_all resp_arg_ok args"
    and "length (resp_encode args) \<le> n"
  shows "redis_parse_resp_array (resp_encode args @ post) n = Some (args, length (resp_encode args))"
  using parse_array [OF assms] .

theorem resp_round_trip_witness:
  "redis_parse_resp_array (resp_encode [''SET'', ''k'', [CR, LF]] @ ''tail'')
     (length (resp_encode [''SET'', ''k'', [CR, LF]] @ ''tail''))
   = Some ([''SET'', ''k'', [CR, LF]], length (resp_encode [''SET'', ''k'', [CR, LF]]))"
  by (rule resp_round_trip) (simp_all add: redis_sizes resp_arg_ok_def)

text \<open>C7: What a client library sends is what the audit trail records and what is answered: for any sequence of
  well-formed commands, each arriving in one segment, those up to and with the first QUIT or SHUTDOWN
  (in any case) are carried out and the others are not. A session records exactly one command for each command
  carried out, in order, with the arguments joined by spaces (cut at 4095 bytes), and sends one
  answer for each, in order, that starts with the type byte of a RESP value.\<close>

theorem redis_session_records_commands:
  assumes "list_all client_command cmds"
  shows "recorded_commands (run_redis_service sid conn (map (\<lambda>args. Data (resp_encode args)) cmds)) =
      map (\<lambda>args. audit_record_command REDIS_PROTOCOL (remote_ip conn) (uint (remote_port conn)) sid
                     (take 4095 (join_args args))) (redis_executed cmds)
    \<and> (\<exists>answers. sends (run_redis_service sid conn (map (\<lambda>args. Data (resp_encode args)) cmds)) = concat answers
        \<and> length answers = length (redis_executed cmds) \<and> list_all redis_answer answers)"
proof -
  let ?d = "\<lambda>args. fst (redis_dispatch_command args (remote_ip conn) (uint (remote_port conn)) sid)"
  let ?run = "run_redis_service sid conn (map (\<lambda>args. Data (resp_encode args)) cmds)"
  have ne: "list_all (\<lambda>c. c \<noteq> []) (redis_executed cmds)"
    using redis_executed_all [OF assms] by (auto simp: list_all_iff client_command_def)
  have "recorded_commands ?run = concat (map (\<lambda>c. recorded_commands (?d c)) (redis_executed cmds))"
    by (simp add: run_redis_service_def Let_def loop_commands [OF assms] recorded_commands_concat comp_def)
  also have "\<dots> = concat (map (\<lambda>args. [audit_record_command REDIS_PROTOCOL (remote_ip conn)
      (uint (remote_port conn)) sid (take 4095 (join_args args))]) (redis_executed cmds))"
    using ne by (intro arg_cong [of _ _ concat] map_cong refl dispatch_records) (auto simp: list_all_iff)
  finally have recorded: "recorded_commands ?run = map (\<lambda>args. audit_record_command REDIS_PROTOCOL
      (remote_ip conn) (uint (remote_port conn)) sid (take 4095 (join_args args))) (redis_executed cmds)" by simp
  have "sends ?run = concat (map (\<lambda>c. sends (?d c)) (redis_executed cmds))"
    by (simp add: run_redis_service_def Let_def loop_commands [OF assms] sends_concat comp_def)
  moreover have "list_all redis_answer (map (\<lambda>c. sends (?d c)) (redis_executed cmds))"
    using ne dispatch_answers by (auto simp: list_all_iff)
  ultimately show ?thesis
    using recorded by (intro conjI exI [of _ "map (\<lambda>c. sends (?d c)) (redis_executed cmds)"]) simp_all
qed

theorem redis_session_records_commands_witness:
  "recorded_commands (run_redis_service ''id'' (connection_create 5 ''10.0.0.1'' 4711 REDIS_PROTOCOL 0 0)
      (map (\<lambda>args. Data (resp_encode args)) [[''GET'', ''a''], [''Quit''], [''SAVE'']])) =
   [audit_record_command REDIS_PROTOCOL ''10.0.0.1'' 4711 ''id'' ''GET a'',
    audit_record_command REDIS_PROTOCOL ''10.0.0.1'' 4711 ''id'' ''Quit'']"
proof -
  have "list_all client_command [[''GET'', ''a''], [''Quit''], [''SAVE'']]"
    by (simp add: client_command_def redis_sizes resp_arg_ok_def resp_encode_def resp_bulk_def dec.simps)
  moreover have "redis_executed [[''GET'', ''a''], [''Quit''], [''SAVE'']] = [[''GET'', ''a''], [''Quit'']]"
    by (simp add: redis_ends_def char_eval)
  ultimately show ?thesis
    using redis_session_records_commands [of "[[''GET'', ''a''], [''Quit''], [''SAVE'']]" "''id''"
        "connection_create 5 ''10.0.0.1'' 4711 REDIS_PROTOCOL 0 0"]
    by (simp add: connection_create_def strncpy_def)
qed

text \<open>The text that is logged and audited for a command is the whole command, the arguments joined
  by single spaces, cut to the 4095 bytes of the buffer.\<close>

theorem redis_full_cmd_is_join: "redis_full_cmd 0 [] cmd = take 4095 (join_args cmd)"
  by (rule full_cmd_join)

section \<open>Commands that nobody sent\<close>

lemmas redis_eval = run_redis_service_def redis_loop.simps redis_commands.simps redis_parse_def
  redis_parse_resp_array_def redis_parse_inline_def redis_parse_arg_def redis_sizes Let_def
  redis_dispatch_command_def redis_reply_def redis_str_toupper_def strtok.simps is_sep_def
  memcpy_at_def full_cmd_join char_eval atoi_def strtol_def

text \<open>
  No NUL is written after \<open>memmove\<close>: the two bytes \<open>XX\<close> left over from \<open>PING\<close>, CR, LF,
  \<open>XX\<close> are followed by the stale bytes \<open>NG\<close>, CR, LF of the buffer and taken for the
  command \<open>XXNG\<close>.
\<close>

lemma redis_stale_bytes_command:
  "recorded_commands (run_redis_service sid conn [Data (''PING'' @ CRLF @ ''XX'')]) =
   map (audit_record_command REDIS_PROTOCOL (remote_ip conn) (uint (remote_port conn)) sid)
     [''PING'', ''XXNG'']"
  by (simp add: redis_eval)

text \<open>
  An array that has not arrived completely is given to the inline parser, line by line: the
  command \<open>PING\<close> in two segments is recorded as four commands, none of them \<open>PING\<close>.
\<close>

lemma redis_split_array_misparsed:
  "recorded_commands (run_redis_service sid conn
     [Data (''*1'' @ CRLF @ ''$4'' @ CRLF @ ''PI''), Data (''NG'' @ CRLF)]) =
   map (audit_record_command REDIS_PROTOCOL (remote_ip conn) (uint (remote_port conn)) sid)
     [''*1'', ''$4'', ''PI'', ''NG'']"
  by (simp add: redis_eval)

end
