(* ===== verification/Dns_Honeypot.thy ===== *)
theory Dns_Honeypot
  imports Service
begin

text \<open>
  src/service/dns_honeypot.c: a fake DNS server over TCP that answers one message. Messages are
  lists of bytes. The receive buffer \<open>raw[4096]\<close> lies on the stack and is not cleared:
  \<open>junk\<close> are the 4096 bytes that were there before \<open>recv\<close>.
\<close>

section \<open>Constants\<close>

definition DNS_RECV_BUFFER_SIZE :: nat where "DNS_RECV_BUFFER_SIZE = 4096"
definition DNS_HEADER_SIZE :: nat where "DNS_HEADER_SIZE = 12"
definition DNS_QTYPE_A :: nat where "DNS_QTYPE_A = 1"
definition DNS_QTYPE_AXFR :: nat where "DNS_QTYPE_AXFR = 252"
definition DNS_RCODE_SERVFAIL :: byte where "DNS_RCODE_SERVFAIL = 2"
definition DNS_FAKE_IP :: "byte list" where "DNS_FAKE_IP = [10, 0, 2, 15]"

lemmas dns_consts = DNS_RECV_BUFFER_SIZE_def DNS_HEADER_SIZE_def DNS_QTYPE_A_def DNS_QTYPE_AXFR_def
  DNS_RCODE_SERVFAIL_def DNS_FAKE_IP_def

definition dns_generate_session_id :: "nat \<Rightarrow> int \<Rightarrow> int \<Rightarrow> int \<Rightarrow> string" where
  "dns_generate_session_id len fd tv_sec tv_nsec =
     snprintf len (''dns_'' @ dec_int fd @ ''_'' @ dec_int tv_sec @ ''_'' @ dec_int tv_nsec)"

text \<open>\<open>((uint16_t)hi << 8) | (uint16_t)lo\<close> as a number, and \<open>htons\<close> in memory.\<close>

definition be16 :: "byte \<Rightarrow> byte \<Rightarrow> nat" where
  "be16 hi lo = unat hi * 256 + unat lo"

definition htons :: "nat \<Rightarrow> byte list" where
  "htons n = [of_nat (n div 256), of_nat n]"

section \<open>Parsing\<close>

text \<open>
  The loop over the labels, from position \<open>pos\<close> with the text \<open>acc\<close> of \<open>labels\<close> labels
  written so far: the end position and the text, or \<open>None\<close> for the result -1.
\<close>

function dns_labels :: "byte list \<Rightarrow> nat \<Rightarrow> nat \<Rightarrow> nat \<Rightarrow> string \<Rightarrow> nat \<Rightarrow> (nat \<times> string) option" where
  "dns_labels msg msg_len dsize pos acc labels =
     (if pos < msg_len then
        let label_len = msg ! pos in
        if label_len = 0 then Some (pos + 1, acc)
        else if and label_len 0xC0 = 0xC0 then Some (pos + 2, acc)
        else if pos + 1 + unat label_len > msg_len then None
        else
          let acc = (if 0 < labels \<and> length acc < dsize - 1 then acc @ ''.'' else acc);
              acc = acc @ take (dsize - 1 - length acc)
                            (chars_of (take (unat label_len) (drop (pos + 1) msg)))
          in if labels + 1 > 128 then None
             else dns_labels msg msg_len dsize (pos + 1 + unat label_len) acc (labels + 1)
      else Some (pos, acc))"
  by pat_completeness auto
termination
  by (relation "measure (\<lambda>(_, msg_len, _, pos, _, _). msg_len - pos)") auto

declare dns_labels.simps [simp del]

text \<open>The number of bytes parsed and the domain, a C string.\<close>

definition dns_parse_domain_name ::
  "byte list \<Rightarrow> nat \<Rightarrow> nat \<Rightarrow> nat \<Rightarrow> (nat \<times> string) option" where
  "dns_parse_domain_name msg msg_len offset dsize =
     map_option (\<lambda>(pos, domain). (pos - offset, cstr domain))
       (dns_labels msg msg_len dsize offset [] 0)"

definition dns_parse_qtype :: "byte list \<Rightarrow> nat \<Rightarrow> nat \<Rightarrow> nat" where
  "dns_parse_qtype msg msg_len qname_end =
     (if qname_end + 2 > msg_len then 0 else be16 (msg ! qname_end) (msg ! (qname_end + 1)))"

section \<open>Replies\<close>

text \<open>The bytes of the reply; none for the result 0.\<close>

definition dns_build_servfail :: "byte list \<Rightarrow> nat \<Rightarrow> nat \<Rightarrow> byte list" where
  "dns_build_servfail query qlen rsize =
     (if qlen < DNS_HEADER_SIZE \<or> rsize < qlen then []
      else
        let resp = take qlen query;
            resp = resp[2 := 0x81];
            resp = resp[3 := or (and (resp ! 3) 0xF0) DNS_RCODE_SERVFAIL]
        in resp[6 := 0, 7 := 0, 8 := 0, 9 := 0, 10 := 0, 11 := 0])"

definition dns_build_fake_a_response :: "byte list \<Rightarrow> nat \<Rightarrow> nat \<Rightarrow> nat \<Rightarrow> byte list" where
  "dns_build_fake_a_response query qlen qname_end rsize =
     (let question_end = qname_end + 4;
          answer_size = 2 + 2 + 2 + 4 + 2 + 4;
          total = question_end + answer_size
      in if qlen < DNS_HEADER_SIZE \<or> rsize < total then dns_build_servfail query qlen rsize
         else
           let resp = take question_end query
           in resp[2 := 0x81, 3 := 0x80, 6 := 0, 7 := 1, 8 := 0, 9 := 0, 10 := 0, 11 := 0]
              @ [0xC0, 0x0C, 0x00, 0x01, 0x00, 0x01, 0x00, 0x00, 0x01, 0x2C, 0x00, 0x04]
              @ DNS_FAKE_IP)"

section \<open>The session\<close>

definition dns_send :: "bool \<Rightarrow> byte list \<Rightarrow> eff list" where
  "dns_send tcp_framed resp =
     (if 0 < length resp then
        (if tcp_framed then [Send (chars_of (htons (length resp)))] else []) @ [Send (chars_of resp)]
      else [])"

text \<open>Whether the data carries the two-byte length of DNS over TCP.\<close>

definition dns_framed :: "byte list \<Rightarrow> bool" where
  "dns_framed d \<longleftrightarrow> 2 \<le> length d \<and> 0 < be16 (d ! 0) (d ! 1)
     \<and> be16 (d ! 0) (d ! 1) \<le> length d - 2 \<and> be16 (d ! 0) (d ! 1) + 2 \<ge> DNS_HEADER_SIZE + 2"

text \<open>The event an AXFR request is recorded as.\<close>

definition dns_axfr_event :: "string \<Rightarrow> int \<Rightarrow> string \<Rightarrow> string \<Rightarrow> audit_req" where
  "dns_axfr_event ip port sid domain =
     \<lparr>req_type = AUDIT_EVENT_EXPLOIT_ATTEMPT, req_severity = AUDIT_SEVERITY_CRITICAL,
      req_protocol = protocol_num DNS_PROTOCOL, req_ip = Some ip, req_port = port,
      req_session = Some sid, req_user = Some '''',
      req_details = ''AXFR zone transfer attempt: '' @ domain\<rparr>"

text \<open>What is done with the message.\<close>

definition dns_respond :: "bool \<Rightarrow> byte list \<Rightarrow> nat \<Rightarrow> string \<Rightarrow> int \<Rightarrow> string \<Rightarrow> eff list" where
  "dns_respond tcp_framed dns_msg dns_len ip port sid =
     (let peer = [Str ip, Num port];
          servfail = dns_build_servfail dns_msg dns_len DNS_RECV_BUFFER_SIZE
      in if dns_len < DNS_HEADER_SIZE then [Log UTILITIES_WARN (Num (int dns_len) # peer)]
         else
           [Log UTILITIES_DEBUG ([Num (uint (dns_msg ! 0)), Num (uint (dns_msg ! 1)),
              Num (int (be16 (dns_msg ! 4) (dns_msg ! 5)))] @ peer)]
           @ (case dns_parse_domain_name dns_msg dns_len DNS_HEADER_SIZE 512 of
                None \<Rightarrow> Log UTILITIES_WARN peer # dns_send tcp_framed servfail
              | Some (parsed, domain) \<Rightarrow>
                  if parsed = 0 then Log UTILITIES_WARN peer # dns_send tcp_framed servfail
                  else
                    let qname_end = DNS_HEADER_SIZE + parsed;
                        qtype = dns_parse_qtype dns_msg dns_len qname_end
                    in Audit (audit_record_command DNS_PROTOCOL ip port sid domain)
                       # (if qtype = DNS_QTYPE_AXFR then
                            [Log UTILITIES_ERROR (Str domain # peer),
                             Audit (dns_axfr_event ip port sid domain)]
                            @ dns_send tcp_framed
                                (servfail[3 := or (and (servfail ! 3) 0xF0) 0x05])
                          else
                            [Log UTILITIES_WARN ([Str domain, Num (int qtype)] @ peer)]
                            @ (if qtype = DNS_QTYPE_A then
                                 Log UTILITIES_INFO (Str domain # peer)
                                 # dns_send tcp_framed (dns_build_fake_a_response dns_msg dns_len
                                     qname_end DNS_RECV_BUFFER_SIZE)
                               else
                                 Log UTILITIES_INFO ([Str domain, Num (int qtype)] @ peer)
                                 # dns_send tcp_framed servfail))))"

text \<open>The message in the bytes \<open>d\<close> of the one \<open>recv\<close>.\<close>

definition dns_answer :: "byte list \<Rightarrow> string \<Rightarrow> int \<Rightarrow> string \<Rightarrow> byte list \<Rightarrow> eff list" where
  "dns_answer junk ip port sid d =
     (let raw = d @ drop (length d) junk in
      if dns_framed d then dns_respond True (drop 2 raw) (be16 (d ! 0) (d ! 1)) ip port sid
      else dns_respond False raw (length d) ip port sid)"

text \<open>\<open>sid\<close> is the identifier \<open>dns_generate_session_id\<close> gives the session.\<close>

definition run_dns_service :: "byte list \<Rightarrow> string \<Rightarrow> connection \<Rightarrow> segment list \<Rightarrow> eff list" where
  "run_dns_service junk sid conn ib =
     (let ip = remote_ip conn; port = uint (remote_port conn); fd = socket_file_descriptor conn in
      [Log UTILITIES_INFO [Str ip, Num port, Num fd],
       Audit (audit_record_connection DNS_PROTOCOL ip port sid)]
      @ (case recv DNS_RECV_BUFFER_SIZE ib of
           (Got d, _) \<Rightarrow> dns_answer junk ip port sid (bytes_of d)
         | _ \<Rightarrow> [Log UTILITIES_WARN [Str ip, Num port]])
      @ [Log UTILITIES_INFO [Str ip, Num port],
         Audit (audit_record_disconnect DNS_PROTOCOL ip port sid), Close fd])"

section \<open>Names\<close>

text \<open>The wire format of a name, and its text.\<close>

definition dns_encode_label :: "byte list \<Rightarrow> byte list" where
  "dns_encode_label l = of_nat (length l) # l"

definition dns_encode_name :: "byte list list \<Rightarrow> byte list" where
  "dns_encode_name ls = concat (map dns_encode_label ls) @ [0]"

definition dns_label_ok :: "byte list \<Rightarrow> bool" where
  "dns_label_ok l \<longleftrightarrow> l \<noteq> [] \<and> length l \<le> 63"

text \<open>The text of labels that follow \<open>k\<close> others.\<close>

fun dns_text :: "nat \<Rightarrow> byte list list \<Rightarrow> string" where
  "dns_text k [] = []"
| "dns_text k (l # ls) = (if 0 < k then ''.'' else []) @ chars_of l @ dns_text (Suc k) ls"

lemma label_length_byte:
  assumes "dns_label_ok l"
  shows "unat (of_nat (length l) :: byte) = length l" "(of_nat (length l) :: byte) \<noteq> 0"
    "and (of_nat (length l) :: byte) 0xC0 \<noteq> 0xC0"
proof -
  from assms have len: "0 < length l" "length l < 64" by (auto simp: dns_label_ok_def)
  then show u: "unat (of_nat (length l) :: byte) = length l" by (simp add: unat_of_nat)
  with len show "(of_nat (length l) :: byte) \<noteq> 0" by (metis unat_0 less_irrefl)
  show "and (of_nat (length l) :: byte) 0xC0 \<noteq> 0xC0"
  proof
    assume "and (of_nat (length l) :: byte) 0xC0 = 0xC0"
    then have "(0xC0 :: byte) \<le> of_nat (length l)" by (metis word_and_le2)
    with u len show False by (simp add: word_le_nat_alt)
  qed
qed

lemma dns_labels_step:
  assumes "msg ! pos = of_nat (length l)" and "take (length l) (drop (pos + 1) msg) = l"
    and "dns_label_ok l" and "pos + 1 + length l \<le> n" and "k < 128"
    and "acc1 = (if 0 < k \<and> length acc < dsize - 1 then acc @ ''.'' else acc)"
  shows "dns_labels msg n dsize pos acc k =
    dns_labels msg n dsize (pos + 1 + length l) (acc1 @ take (dsize - 1 - length acc1) (chars_of l)) (k + 1)"
  using assms(2,4-5) label_length_byte [OF assms(3)]
  by (subst dns_labels.simps) (simp only: assms(1,6) Let_def, simp)

lemma dns_labels_encoded:
  assumes "list_all dns_label_ok ls" and "k + length ls \<le> 128" and "length acc \<le> dsize - 1"
    and "length (pre @ dns_encode_name ls) \<le> n"
  shows "dns_labels (pre @ dns_encode_name ls @ post) n dsize (length pre) acc k =
    Some (length (pre @ dns_encode_name ls), take (dsize - 1) (acc @ dns_text k ls))"
  using assms
proof (induction ls arbitrary: pre acc k)
  case Nil
  then show ?case by (subst dns_labels.simps) (simp add: dns_encode_name_def nth_append)
next
  case (Cons l ls)
  let ?msg = "pre @ dns_encode_name (l # ls) @ post"
  from Cons.prems have l: "dns_label_ok l" by simp
  have msg: "?msg = (pre @ dns_encode_label l) @ dns_encode_name ls @ post"
    by (simp add: dns_encode_name_def)
  have at: "?msg ! length pre = of_nat (length l)"
    by (simp add: dns_encode_name_def dns_encode_label_def nth_append)
  have body: "take (length l) (drop (length pre + 1) ?msg) = l"
    by (simp add: dns_encode_name_def dns_encode_label_def)
  have fits: "length pre + 1 + length l < n"
    using Cons.prems(4) by (simp add: dns_encode_name_def dns_encode_label_def)
  define acc1 where "acc1 = (if 0 < k \<and> length acc < dsize - 1 then acc @ ''.'' else acc)"
  define acc2 where "acc2 = acc1 @ take (dsize - 1 - length acc1) (chars_of l)"
  have acc1: "acc1 = take (dsize - 1) (acc @ (if 0 < k then ''.'' else []))" "length acc1 \<le> dsize - 1"
    using Cons.prems(3) by (auto simp: acc1_def)
  have acc2: "acc2 = take (dsize - 1) (acc @ (if 0 < k then ''.'' else []) @ chars_of l)"
    using take_fill [of "dsize - 1" "acc @ (if 0 < k then ''.'' else [])" "chars_of l"]
    by (simp only: acc2_def acc1(1) append_assoc)
  then have acc2_le: "length acc2 \<le> dsize - 1" by simp
  have "dns_labels ?msg n dsize (length pre) acc k =
      dns_labels ?msg n dsize (length pre + 1 + length l) acc2 (k + 1)"
    unfolding acc2_def using Cons.prems(2) fits
    by (intro dns_labels_step [OF at body l _ _ acc1_def]) simp_all
  also have "\<dots> = Some (length ((pre @ dns_encode_label l) @ dns_encode_name ls),
      take (dsize - 1) (acc2 @ dns_text (k + 1) ls))"
    using Cons.IH [of "k + 1" acc2 "pre @ dns_encode_label l"] Cons.prems acc2_le
    unfolding msg by (simp add: dns_encode_name_def dns_encode_label_def)
  also have "take (dsize - 1) (acc2 @ dns_text (k + 1) ls) =
      take (dsize - 1) (acc @ dns_text k (l # ls))"
    unfolding acc2 by (simp only: take_take_append) simp
  finally show ?case by (simp add: dns_encode_name_def)
qed

section \<open>Replies\<close>

lemma length_servfail:
  "12 \<le> qlen \<Longrightarrow> qlen \<le> rsize \<Longrightarrow> qlen \<le> length query \<Longrightarrow>
   length (dns_build_servfail query qlen rsize) = qlen"
  by (simp add: dns_build_servfail_def dns_consts Let_def)

lemma dns_labels_bounds:
  "dns_labels msg n dsize pos acc k = Some (q, name) \<Longrightarrow> pos \<le> n \<Longrightarrow> length acc \<le> dsize - 1 \<Longrightarrow>
   pos \<le> q \<and> q \<le> n + 1 \<and> length name \<le> dsize - 1"
proof (induction "n - pos" arbitrary: pos acc k rule: less_induct)
  case less
  let ?l = "unat (msg ! pos)"
  define acc1 where "acc1 = (if 0 < k \<and> length acc < dsize - 1 then acc @ ''.'' else acc)"
  define acc2 where "acc2 = acc1 @ take (dsize - 1 - length acc1) (chars_of (take ?l (drop (pos + 1) msg)))"
  have acc: "length acc2 \<le> dsize - 1" using less.prems(3) by (auto simp: acc1_def acc2_def)
  consider "pos < n" "dns_labels msg n dsize (pos + 1 + ?l) acc2 (k + 1) = Some (q, name)"
      "pos + 1 + ?l \<le> n"
    | "pos \<le> q" "q \<le> n + 1" "name = acc"
    using less.prems(1,2)
    by (subst (asm) dns_labels.simps) (auto simp: Let_def acc1_def acc2_def split: if_splits)
  then show ?case
  proof cases
    case 1
    then have "n - (pos + 1 + ?l) < n - pos" by simp
    from less.hyps [OF this 1(2,3) acc] show ?thesis by simp
  next
    case 2
    with less.prems(3) show ?thesis by simp
  qed
qed

lemma length_fake_a:
  assumes "12 \<le> qlen" and "qlen \<le> rsize" and "qlen \<le> length query"
    and "qname_end + 4 \<le> length query \<or> rsize < qname_end + 20"
  shows "12 \<le> length (dns_build_fake_a_response query qlen qname_end rsize)
    \<and> length (dns_build_fake_a_response query qlen qname_end rsize) \<le> rsize"
  using assms length_servfail [OF assms(1-3)]
  by (auto simp: dns_build_fake_a_response_def Let_def dns_consts)

lemma dns_send_inner [simp]: "list_all (inner p ip port sid) (dns_send framed r)"
  by (simp add: dns_send_def)

lemma dns_axfr_inner [simp]: "inner DNS_PROTOCOL ip port sid (Audit (dns_axfr_event ip port sid name))"
  by (simp add: inner_audit dns_axfr_event_def attributed_def)

lemma dns_answer_inner: "list_all (inner DNS_PROTOCOL ip port sid) (dns_answer junk ip port sid d)"
  by (simp add: dns_answer_def dns_respond_def Let_def split: option.split)

interpretation dns: audited_service DNS_PROTOCOL "run_dns_service junk" for junk
proof (unfold_locales, goal_cases)
  case (1 sid c ib)
  let ?ip = "remote_ip c" and ?port = "uint (remote_port c)" and ?fd = "socket_file_descriptor c"
  let ?body = "case recv DNS_RECV_BUFFER_SIZE ib of
           (Got d, _) \<Rightarrow> dns_answer junk ?ip ?port sid (bytes_of d)
         | _ \<Rightarrow> [Log UTILITIES_WARN [Str ?ip, Num ?port]]"
  have "list_all (inner DNS_PROTOCOL ?ip ?port sid) ?body"
    by (simp add: dns_answer_inner split: prod.split recv_ret.split)
  then show ?case
    by (intro exI [of _ "[Log UTILITIES_INFO [Str ?ip, Num ?port, Num ?fd]]"]
        exI [of _ "?body @ [Log UTILITIES_INFO [Str ?ip, Num ?port]]"] exI [of _ "[Close ?fd]"])
      (simp add: run_dns_service_def Let_def)
qed

text \<open>
  What may go over the wire. A message with the two-byte length of DNS over TCP in front of it, followed by
  anything; a reply of 12 to 4096 bytes to the given query, with its identifier and the flags of a response;
  and the sends that answer the received bytes.
\<close>

definition dns_frame :: "byte list \<Rightarrow> byte list \<Rightarrow> bool" where
  "dns_frame d m \<longleftrightarrow> (\<exists>h l rest. d = h # l # m @ rest \<and> 256 * unat h + unat l = length m)"

definition dns_reply_to :: "byte list \<Rightarrow> byte list \<Rightarrow> bool" where
  "dns_reply_to query r \<longleftrightarrow> 12 \<le> length r \<and> length r \<le> 4096 \<and> take 3 r = take 2 query @ [0x81]"

definition dns_wire :: "byte list \<Rightarrow> string list \<Rightarrow> bool" where
  "dns_wire d ss \<longleftrightarrow>
     (if \<exists>m. dns_frame d m \<and> 12 \<le> length m
      then \<exists>m h l r. dns_frame d m \<and> 12 \<le> length m \<and> dns_reply_to m r
             \<and> ss = [chars_of [h, l], chars_of r] \<and> 256 * unat h + unat l = length r
      else if 12 \<le> length d then \<exists>r. dns_reply_to d r \<and> ss = [chars_of r]
      else ss = [])"

lemma htons_be16:
  assumes "n < 65536"
  shows "be16 (of_nat (n div 256)) (of_nat n) = n"
proof -
  have "unat (of_nat (n div 256) :: byte) = n div 256" using assms by (simp add: unat_of_nat)
  moreover have "unat (of_nat n :: byte) = n mod 256" by (simp add: unat_of_nat)
  ultimately show ?thesis by (simp add: be16_def)
qed

lemma dns_send_wire:
  assumes "dns_reply_to q r"
  shows "\<exists>h l. sends (dns_send True r) = [chars_of [h, l], chars_of r] \<and> 256 * unat h + unat l = length r"
    and "sends (dns_send False r) = [chars_of r]"
proof -
  have r: "0 < length r" "length r < 65536" using assms unfolding dns_reply_to_def by linarith+
  then have "sends (dns_send True r) = [chars_of [of_nat (length r div 256), of_nat (length r)], chars_of r]"
    by (simp add: dns_send_def htons_def)
  then show "\<exists>h l. sends (dns_send True r) = [chars_of [h, l], chars_of r] \<and> 256 * unat h + unat l = length r"
    using htons_be16 [OF r(2)] unfolding be16_def by (metis mult.commute)
  show "sends (dns_send False r) = [chars_of r]" using r(1) by (simp add: dns_send_def)
qed

lemma take_three: "3 \<le> length r \<Longrightarrow> take 3 r = [r ! 0, r ! 1, r ! 2]"
  by (simp add: list_eq_iff_nth_eq) (auto simp: less_Suc_eq numeral_eq_Suc)

lemma take_two: "2 \<le> length r \<Longrightarrow> take 2 r = [r ! 0, r ! 1]"
  by (simp add: list_eq_iff_nth_eq) (auto simp: less_Suc_eq numeral_eq_Suc)

lemma servfail_reply:
  assumes "12 \<le> n" "n \<le> 4096" "n \<le> length msg"
  shows "dns_reply_to msg (dns_build_servfail msg n 4096)"
    and "dns_reply_to msg ((dns_build_servfail msg n 4096)[3 := b])"
  using assms length_servfail [OF assms(1,2,3)]
  by (simp_all add: dns_reply_to_def take_three take_two)
    (simp_all add: dns_build_servfail_def dns_consts Let_def)

lemma fake_a_reply:
  assumes "12 \<le> n" "n \<le> 4096" "n \<le> length msg" "q + 4 \<le> length msg \<or> 4096 < q + 20" "12 \<le> q"
  shows "dns_reply_to msg (dns_build_fake_a_response msg n q 4096)"
proof (cases "4096 < q + 20")
  case True
  then have "dns_build_fake_a_response msg n q 4096 = dns_build_servfail msg n 4096"
    by (simp add: dns_build_fake_a_response_def Let_def)
  then show ?thesis using servfail_reply(1) [OF assms(1-3)] by simp
next
  case False
  with assms length_fake_a [OF assms(1-4)] show ?thesis
    by (simp add: dns_reply_to_def take_three take_two)
      (simp add: dns_build_fake_a_response_def dns_consts Let_def nth_append)
qed

lemma dns_respond_reply:
  assumes msg: "n \<le> length msg" "4094 \<le> length msg" "n \<le> 4096" and n: "12 \<le> n"
  shows "\<exists>r. dns_reply_to msg r \<and> sends (dns_respond f msg n ip port sid) = sends (dns_send f r)"
proof -
  note sf = servfail_reply [OF n msg(3,1)]
  have fa: "dns_reply_to msg (dns_build_fake_a_response msg n (12 + q) 4096)" for q
    using msg(2) by (intro fake_a_reply [OF n msg(3,1)]) linarith+
  show ?thesis
    using n by (auto simp: dns_respond_def Let_def dns_consts split: option.split intro: sf fa)
qed

lemma dns_respond_short: "n < 12 \<Longrightarrow> sends (dns_respond f msg n ip port sid) = []"
  by (simp add: dns_respond_def Let_def dns_consts)

lemma dns_framed_iff: "dns_framed d \<longleftrightarrow> (\<exists>m. dns_frame d m \<and> 12 \<le> length m)"
proof
  assume f: "dns_framed d"
  then obtain h l s where d: "d = h # l # s"
    by (cases d rule: remdups_adj.cases) (auto simp: dns_framed_def)
  let ?n = "be16 h l"
  from f have "dns_frame d (take ?n s)"
    unfolding dns_frame_def d dns_framed_def
    by (intro exI [of _ h] exI [of _ l] exI [of _ "drop ?n s"]) (auto simp: be16_def mult.commute)
  moreover have "12 \<le> length (take ?n s)" using f by (simp add: d dns_framed_def dns_consts)
  ultimately show "\<exists>m. dns_frame d m \<and> 12 \<le> length m" by blast
next
  assume "\<exists>m. dns_frame d m \<and> 12 \<le> length m"
  then show "dns_framed d" by (auto simp: dns_frame_def dns_framed_def dns_consts be16_def mult.commute)
qed

lemma dns_reply_to_prefix: "2 \<le> length m \<Longrightarrow> dns_reply_to (m @ t) r \<longleftrightarrow> dns_reply_to m r"
  by (simp add: dns_reply_to_def)

lemma dns_answer_wire:
  assumes "length junk = 4096" and "length d \<le> 4096"
  shows "dns_wire d (sends (dns_answer junk ip port sid d))"
proof (cases "dns_framed d")
  case True
  then obtain m where m: "dns_frame d m" "12 \<le> length m" by (auto simp: dns_framed_iff)
  then obtain h l rest where d: "d = h # l # m @ rest" "256 * unat h + unat l = length m"
    by (auto simp: dns_frame_def)
  let ?t = "rest @ drop (length d) junk"
  have "dns_answer junk ip port sid d = dns_respond True (m @ ?t) (length m) ip port sid"
    using True d by (simp add: dns_answer_def Let_def be16_def mult.commute)
  moreover obtain r where r: "dns_reply_to (m @ ?t) r"
      "sends (dns_respond True (m @ ?t) (length m) ip port sid) = sends (dns_send True r)"
    using dns_respond_reply [of "length m" "m @ ?t" True ip port sid] m(2) assms d by auto
  ultimately show ?thesis
    using m dns_send_wire(1) [OF r(1)] dns_reply_to_prefix [of m ?t r] r
    unfolding dns_wire_def by auto
next
  case False
  then have a: "dns_answer junk ip port sid d = dns_respond False (d @ drop (length d) junk) (length d) ip port sid"
    by (simp add: dns_answer_def Let_def)
  show ?thesis
  proof (cases "12 \<le> length d")
    case True
    from dns_respond_reply [of "length d" "d @ drop (length d) junk" False ip port sid] True assms
    obtain r where r: "dns_reply_to (d @ drop (length d) junk) r"
      "sends (dns_answer junk ip port sid d) = sends (dns_send False r)" by (auto simp: a)
    with True False dns_send_wire(2) [OF r(1)] dns_reply_to_prefix [of d "drop (length d) junk" r]
    show ?thesis unfolding dns_wire_def dns_framed_iff by auto
  qed (use False in \<open>simp add: a dns_wire_def dns_framed_iff dns_respond_short\<close>)
qed

lemma dns_run_sends:
  "recv DNS_RECV_BUFFER_SIZE ib = (Got d, ib') \<Longrightarrow>
   sends (run_dns_service junk sid conn ib)
     = sends (dns_answer junk (remote_ip conn) (uint (remote_port conn)) sid (bytes_of d))"
  by (simp add: run_dns_service_def Let_def)

section \<open>Properties\<close>

text \<open>C8: Whatever a client sends first, the DNS service answers it as its framing asks: bytes that begin with the
  16-bit big-endian length of a message of at least 12 bytes that is all there get exactly one message, sent
  with its own length in front; any other 12 bytes or more get exactly one message without a length, and
  fewer bytes or none at all get nothing. A message has 12 to 4096 bytes, the identifier of
  the query and the flag of a response.\<close>

theorem dns_replies_framed:
  assumes "length junk = 4096"
  shows "case recv DNS_RECV_BUFFER_SIZE ib of
      (Got d, _) \<Rightarrow> dns_wire (bytes_of d) (sends (run_dns_service junk sid conn ib))
    | _ \<Rightarrow> sends (run_dns_service junk sid conn ib) = []"
proof -
  obtain r ib' where recv: "recv DNS_RECV_BUFFER_SIZE ib = (r, ib')"
    by (cases "recv DNS_RECV_BUFFER_SIZE ib")
  show ?thesis
  proof (cases r)
    case (Got d)
    with recv recv_Got(2) [of DNS_RECV_BUFFER_SIZE ib d ib'] have "length (bytes_of d) \<le> 4096"
      by (simp add: dns_consts bytes_of_def)
    with recv Got dns_run_sends [of ib d ib'] dns_answer_wire [OF assms] show ?thesis by simp
  qed (use recv in \<open>simp_all add: run_dns_service_def Let_def\<close>)
qed

theorem dns_replies_framed_witness:
  "dns_wire (bytes_of ''GET / HTTP/1.1'') (sends (run_dns_service (replicate 4096 0) ''id''
     (connection_create 5 ''10.0.0.1'' 4711 DNS_PROTOCOL 0 0) [Data ''GET / HTTP/1.1'']))"
  using dns_replies_framed [of "replicate 4096 0" "''id''"
      "connection_create 5 ''10.0.0.1'' 4711 DNS_PROTOCOL 0 0" "[Data ''GET / HTTP/1.1'']"]
  by (simp add: dns_consts)

text \<open>C9: Parsing a domain name inverts its encoding: for any name of up to 128 labels of 1 to 63 bytes
  at any place of a message, \<open>dns_parse_domain_name\<close> yields the labels joined by dots, cut to the
  buffer, as a C string, and consumes exactly the encoded name.\<close>

theorem dns_name_round_trip:
  assumes "list_all dns_label_ok ls" and "length ls \<le> 128"
    and "length (pre @ dns_encode_name ls) \<le> n"
  shows "dns_parse_domain_name (pre @ dns_encode_name ls @ post) n (length pre) dsize =
    Some (length (dns_encode_name ls), cstr (take (dsize - 1) (dns_text 0 ls)))"
  using dns_labels_encoded [of ls 0 "[]" dsize pre n post] assms
  by (simp add: dns_parse_domain_name_def)

theorem dns_name_round_trip_witness:
  "dns_parse_domain_name (dns_encode_name [[0x77], [0x61, 0x62]] @ [0, 1]) 8 (length ([] :: byte list)) 512
   = Some (6, ''w.ab'')"
  using dns_name_round_trip [of "[[0x77], [0x61, 0x62]]" "[]" 8 "[0, 1]" 512]
  by (simp add: dns_label_ok_def dns_encode_name_def dns_encode_label_def chars_of_def char_eval)

section \<open>Queries of a resolver\<close>

text \<open>A query: a header, one name, the type and the class IN; its form on a TCP connection.\<close>

definition dns_query :: "byte list \<Rightarrow> byte list list \<Rightarrow> byte \<Rightarrow> byte list" where
  "dns_query hdr ls qtype = hdr @ dns_encode_name ls @ [0, qtype, 0, 1]"

definition dns_tcp :: "byte list \<Rightarrow> byte list" where
  "dns_tcp msg = htons (length msg) @ msg"

definition dns_query_ok :: "byte list \<Rightarrow> byte list list \<Rightarrow> bool" where
  "dns_query_ok hdr ls \<longleftrightarrow> length hdr = 12 \<and> list_all dns_label_ok ls \<and> length ls \<le> 128
     \<and> length (dns_query hdr ls 0) \<le> 4080"

definition dns_answer_header :: "byte list \<Rightarrow> byte list" where
  "dns_answer_header hdr =
     hdr[2 := 0x81, 3 := 0x80, 6 := 0, 7 := 1, 8 := 0, 9 := 0, 10 := 0, 11 := 0]"

lemma length_dns_query: "length (dns_query hdr ls q) = length (dns_query hdr ls q')"
  by (simp add: dns_query_def)

lemma query_framed:
  assumes "dns_query_ok hdr ls"
  shows "dns_framed (dns_tcp (dns_query hdr ls q))"
    "be16 (dns_tcp (dns_query hdr ls q) ! 0) (dns_tcp (dns_query hdr ls q) ! 1)
       = length (dns_query hdr ls q)"
proof -
  let ?m = "dns_query hdr ls q"
  have len: "length ?m < 65536" "12 \<le> length ?m"
    using assms length_dns_query [of hdr ls q 0]
    by (auto simp: dns_query_ok_def) (simp add: dns_query_def)
  then show eq: "be16 (dns_tcp ?m ! 0) (dns_tcp ?m ! 1) = length ?m"
    using htons_be16 [OF len(1)] by (simp add: dns_tcp_def htons_def)
  show "dns_framed (dns_tcp ?m)"
    unfolding dns_framed_def eq using len by (auto simp: dns_tcp_def htons_def dns_consts)
qed

lemma query_parsed:
  assumes "dns_query_ok hdr ls"
  shows "dns_parse_domain_name (dns_query hdr ls q @ post) (length (dns_query hdr ls q)) 12 512 =
      Some (length (dns_encode_name ls), cstr (take 511 (dns_text 0 ls)))"
    and "dns_parse_qtype (dns_query hdr ls q @ post) (length (dns_query hdr ls q))
      (12 + length (dns_encode_name ls)) = unat q"
proof -
  from assms have ok: "length hdr = 12" "list_all dns_label_ok ls" "length ls \<le> 128"
    by (simp_all add: dns_query_ok_def)
  let ?n = "length (dns_query hdr ls q)"
  have "dns_labels (hdr @ dns_encode_name ls @ [0, q, 0, 1] @ post) ?n 512 (length hdr) [] 0 =
      Some (length (hdr @ dns_encode_name ls), take 511 (dns_text 0 ls))"
    using dns_labels_encoded [of ls 0 "[]" 512 hdr ?n "[0, q, 0, 1] @ post"] ok
    by (simp add: dns_query_def)
  then show "dns_parse_domain_name (dns_query hdr ls q @ post) ?n 12 512 =
      Some (length (dns_encode_name ls), cstr (take 511 (dns_text 0 ls)))"
    using ok(1) by (simp add: dns_parse_domain_name_def dns_query_def)
  show "dns_parse_qtype (dns_query hdr ls q @ post) ?n (12 + length (dns_encode_name ls)) = unat q"
    using ok(1) by (simp add: dns_parse_qtype_def dns_query_def nth_append be16_def)
qed

lemma dns_run_query:
  assumes "dns_query_ok hdr ls"
  shows "run_dns_service junk sid conn [Data (chars_of (dns_tcp (dns_query hdr ls q)))] =
    (let ip = remote_ip conn; port = uint (remote_port conn); fd = socket_file_descriptor conn in
      [Log UTILITIES_INFO [Str ip, Num port, Num fd],
       Audit (audit_record_connection DNS_PROTOCOL ip port sid)]
      @ dns_answer junk ip port sid (dns_tcp (dns_query hdr ls q))
      @ [Log UTILITIES_INFO [Str ip, Num port],
         Audit (audit_record_disconnect DNS_PROTOCOL ip port sid), Close fd])"
proof -
  have "length (dns_tcp (dns_query hdr ls q)) \<le> 4096"
    using assms length_dns_query [of hdr ls q 0] by (simp add: dns_query_ok_def dns_tcp_def htons_def)
  moreover have "dns_tcp (dns_query hdr ls q) \<noteq> []" by (simp add: dns_tcp_def htons_def)
  ultimately show ?thesis by (simp add: run_dns_service_def Let_def dns_consts chars_of_def)
      (simp add: chars_of_def [symmetric])
qed

lemma dns_answer_query:
  assumes "dns_query_ok hdr ls"
  shows "\<exists>post. dns_answer junk ip port sid (dns_tcp (dns_query hdr ls q)) =
    dns_respond True (dns_query hdr ls q @ post) (length (dns_query hdr ls q)) ip port sid"
proof -
  have "drop 2 (dns_tcp m @ post) = m @ post" for m post by (simp add: dns_tcp_def htons_def)
  then show ?thesis
    by (simp only: dns_answer_def Let_def query_framed [OF assms] if_True) blast
qed

lemma dns_send_framed:
  "length r = n \<Longrightarrow> 0 < n \<Longrightarrow> dns_send True r = [Send (chars_of (htons n)), Send (chars_of r)]"
  by (auto simp: dns_send_def)

lemma query_length:
  assumes "dns_query_ok hdr ls"
  shows "length hdr = 12" "12 \<le> length (dns_query hdr ls q)" "length (dns_query hdr ls q) \<le> 4080"
    "0 < length (dns_encode_name ls)"
    "12 + length (dns_encode_name ls) + 4 = length (dns_query hdr ls q)"
  using assms by (simp_all add: dns_query_ok_def) (simp_all add: dns_query_def dns_encode_name_def)

lemma fake_a_query:
  assumes "dns_query_ok hdr ls"
  shows "dns_build_fake_a_response (dns_query hdr ls q @ post) (length (dns_query hdr ls q))
      (12 + length (dns_encode_name ls)) 4096 =
    dns_answer_header hdr @ dns_encode_name ls @ [0, q, 0, 1]
      @ [0xC0, 0x0C, 0, 1, 0, 1, 0, 0, 1, 0x2C, 0, 4, 10, 0, 2, 15]"
proof -
  note len = query_length(1) [OF assms] query_length(2,3) [OF assms, of q]
    query_length(4) [OF assms] query_length(5) [OF assms, of q]
  have "take (12 + length (dns_encode_name ls) + 4) (dns_query hdr ls q @ post)
      = hdr @ dns_encode_name ls @ [0, q, 0, 1]"
    unfolding len(5) by (simp add: dns_query_def)
  then show ?thesis using len
    by (simp add: dns_build_fake_a_response_def dns_consts dns_answer_header_def list_update_append1
        del: take_append)
qed

text \<open>C10: A resolver's query for the address of a name is recorded with the name and answered with
  10.0.2.15: the reply repeats identifier, name, type and class of the query, is
  marked as a response with one answer, and is framed with its own length.\<close>

theorem dns_address_query:
  assumes "dns_query_ok hdr ls"
  shows "sends (run_dns_service junk sid conn [Data (chars_of (dns_tcp (dns_query hdr ls 1)))]) =
      map chars_of [htons (length (dns_query hdr ls 1) + 16),
        dns_answer_header hdr @ dns_encode_name ls @ [0, 1, 0, 1]
        @ [0xC0, 0x0C, 0, 1, 0, 1, 0, 0, 1, 0x2C, 0, 4, 10, 0, 2, 15]]
    \<and> recorded_commands (run_dns_service junk sid conn [Data (chars_of (dns_tcp (dns_query hdr ls 1)))]) =
      [audit_record_command DNS_PROTOCOL (remote_ip conn) (uint (remote_port conn)) sid
         (cstr (take 511 (dns_text 0 ls)))]"
proof -
  note len = query_length(1) [OF assms] query_length(2,3) [OF assms, of 1]
    query_length(4) [OF assms] query_length(5) [OF assms, of 1]
  let ?r = "dns_answer_header hdr @ dns_encode_name ls @ [0, 1, 0, 1]
      @ [0xC0, 0x0C, 0, 1, 0, 1, 0, 0, 1, 0x2C, 0, 4, 10, 0, 2, 15]"
  have "length ?r = length (dns_query hdr ls 1) + 16" using len by (simp add: dns_answer_header_def)
  then have send: "dns_send True ?r
      = [Send (chars_of (htons (length (dns_query hdr ls 1) + 16))), Send (chars_of ?r)]"
    by (rule dns_send_framed) simp
  from dns_answer_query [OF assms] obtain post where
    "dns_answer junk (remote_ip conn) (uint (remote_port conn)) sid (dns_tcp (dns_query hdr ls 1)) =
      dns_respond True (dns_query hdr ls 1 @ post) (length (dns_query hdr ls 1))
        (remote_ip conn) (uint (remote_port conn)) sid" by blast
  moreover note fake_a_query [OF assms, of 1 post] query_parsed [OF assms, of 1 post]
  ultimately show ?thesis using len(2,4)
    by (simp add: dns_run_query [OF assms] dns_respond_def Let_def DNS_HEADER_SIZE_def
        DNS_QTYPE_A_def DNS_QTYPE_AXFR_def DNS_RECV_BUFFER_SIZE_def send [simplified])
qed

theorem dns_address_query_witness:
  "sends (run_dns_service [] ''id'' (connection_create 5 ''10.0.0.1'' 4711 DNS_PROTOCOL 0 0)
      [Data (chars_of (dns_tcp (dns_query (0xAB # replicate 11 0) [[0x61]] 1)))]) ! 0 = [NUL, CHR 0x23]"
  using dns_address_query [of "0xAB # replicate 11 0" "[[0x61]]" "[]" "''id''"
      "connection_create 5 ''10.0.0.1'' 4711 DNS_PROTOCOL 0 0"]
  by (simp add: dns_query_ok_def dns_label_ok_def dns_query_def dns_encode_name_def
      dns_encode_label_def htons_def chars_of_def char_eval)

lemma servfail_refused:
  "and (or (and b 0xF0) 0x05) 0x0F = (0x05 :: byte)"
  by (simp add: bit.conj_disj_distrib2 and.assoc)

text \<open>A zone transfer request is an attack: besides the name, the session records a critical
  exploit attempt that names the zone, and the framed reply, as long as the query and with its
  identifier, carries the response code 5, refused.\<close>

theorem dns_axfr_recorded_and_refused:
  assumes "dns_query_ok hdr ls"
  shows "audits (run_dns_service junk sid conn [Data (chars_of (dns_tcp (dns_query hdr ls 252)))]) =
      (let ip = remote_ip conn; port = uint (remote_port conn); name = cstr (take 511 (dns_text 0 ls)) in
       [audit_record_connection DNS_PROTOCOL ip port sid,
        audit_record_command DNS_PROTOCOL ip port sid name, dns_axfr_event ip port sid name,
        audit_record_disconnect DNS_PROTOCOL ip port sid])
    \<and> (\<exists>r. sends (run_dns_service junk sid conn [Data (chars_of (dns_tcp (dns_query hdr ls 252)))]) =
          [chars_of (htons (length r)), chars_of r]
        \<and> length r = length (dns_query hdr ls 252) \<and> take 2 r = take 2 hdr \<and> and (r ! 3) 0x0F = 5)"
proof -
  let ?q = "dns_query hdr ls 252"
  note len = query_length(1) [OF assms] query_length(2,3) [OF assms, of 252] query_length(4) [OF assms]
  from dns_answer_query [OF assms] obtain post where ans:
    "dns_answer junk (remote_ip conn) (uint (remote_port conn)) sid (dns_tcp ?q) =
      dns_respond True (?q @ post) (length ?q) (remote_ip conn) (uint (remote_port conn)) sid" by blast
  let ?s = "dns_build_servfail (?q @ post) (length ?q) 4096"
  let ?r = "?s[3 := or (and (?s ! 3) 0xF0) 0x05]"
  have s: "length ?s = length ?q" using len by (intro length_servfail) simp_all
  then have send: "dns_send True ?r = [Send (chars_of (htons (length ?r))), Send (chars_of ?r)]"
    using len by (intro dns_send_framed) auto
  have r: "length ?r = length ?q" using s by simp
  have id: "take 2 ?r = take 2 hdr"
  proof -
    have "take 2 ?r = take 2 (?q @ post)"
      using len by (simp add: dns_build_servfail_def dns_consts Let_def)
    with len(1) show ?thesis by (simp add: dns_query_def)
  qed
  have code: "and (?r ! 3) 0x0F = 5" using s len by (simp add: servfail_refused)
  note query_parsed [OF assms, of 252 post]
  then have "sends (run_dns_service junk sid conn [Data (chars_of (dns_tcp ?q))]) =
      [chars_of (htons (length ?r)), chars_of ?r]"
    "audits (run_dns_service junk sid conn [Data (chars_of (dns_tcp ?q))]) =
      (let ip = remote_ip conn; port = uint (remote_port conn); name = cstr (take 511 (dns_text 0 ls)) in
       [audit_record_connection DNS_PROTOCOL ip port sid,
        audit_record_command DNS_PROTOCOL ip port sid name, dns_axfr_event ip port sid name,
        audit_record_disconnect DNS_PROTOCOL ip port sid])"
    using len(2,4) send
    by (simp_all add: dns_run_query [OF assms] ans dns_respond_def Let_def DNS_HEADER_SIZE_def
        DNS_QTYPE_AXFR_def DNS_RECV_BUFFER_SIZE_def)
  with r id code show ?thesis by blast
qed

theorem dns_axfr_recorded_and_refused_witness:
  "dns_axfr_event ''10.0.0.1'' 4711 ''id'' ''a'' \<in> set (audits (run_dns_service [] ''id''
      (connection_create 5 ''10.0.0.1'' 4711 DNS_PROTOCOL 0 0)
      [Data (chars_of (dns_tcp (dns_query (replicate 12 0) [[0x61]] 252)))]))"
  using dns_axfr_recorded_and_refused [of "replicate 12 0" "[[0x61]]" "[]" "''id''"
      "connection_create 5 ''10.0.0.1'' 4711 DNS_PROTOCOL 0 0"]
  by (simp add: dns_query_ok_def dns_label_ok_def dns_query_def dns_encode_name_def
      dns_encode_label_def chars_of_def char_eval connection_create_def strncpy_def Let_def)

section \<open>Stale bytes in a reply\<close>

text \<open>
  A query may end right after its type. The class is then copied from whatever follows in the
  receive buffer: two bytes of old stack contents are sent to the client.
\<close>

lemma dns_short_query_leaks:
  assumes "length msg = 15" and "2 \<le> length post"
  shows "take 2 (drop 15 (dns_build_fake_a_response (msg @ post) 15 13 4096)) = take 2 post"
  using assms by (simp add: dns_build_fake_a_response_def dns_consts Let_def list_update_append1)

end
