(* ===== verification/Ftp_Honeypot.thy ===== *)
theory Ftp_Honeypot
  imports Service
begin

text \<open>
  src/service/ftp_honeypot.c: a fake vsftpd. The session state, one definition per command
  handler, the reassembly of lines and the receive loop. A line is a C string without its line
  end.
\<close>

section \<open>Constants\<close>

definition FTP_RECV_BUFFER_SIZE :: nat where "FTP_RECV_BUFFER_SIZE = 4096"
definition FTP_MAX_AUTH_ATTEMPTS :: int where "FTP_MAX_AUTH_ATTEMPTS = 6"
definition FTP_SUCCEED_ON_ATTEMPT :: int where "FTP_SUCCEED_ON_ATTEMPT = 2"

lemmas ftp_consts = FTP_RECV_BUFFER_SIZE_def FTP_MAX_AUTH_ATTEMPTS_def FTP_SUCCEED_ON_ATTEMPT_def

definition FTP_BANNER :: string where "FTP_BANNER = ''220 (vsFTPd 3.0.3)'' @ CRLF"
definition FTP_RESP_USER_OK :: string where
  "FTP_RESP_USER_OK = ''331 Please specify the password.'' @ CRLF"
definition FTP_RESP_LOGIN_OK :: string where "FTP_RESP_LOGIN_OK = ''230 Login successful.'' @ CRLF"
definition FTP_RESP_LOGIN_FAIL :: string where "FTP_RESP_LOGIN_FAIL = ''530 Login incorrect.'' @ CRLF"
definition FTP_RESP_NOT_LOGGED_IN :: string where
  "FTP_RESP_NOT_LOGGED_IN = ''530 Please login with USER and PASS.'' @ CRLF"
definition FTP_RESP_CWD_OK :: string where
  "FTP_RESP_CWD_OK = ''250 Directory successfully changed.'' @ CRLF"
definition FTP_RESP_TYPE_OK :: string where "FTP_RESP_TYPE_OK = ''200 Switching to Binary mode.'' @ CRLF"
definition FTP_RESP_PASV :: string where
  "FTP_RESP_PASV = ''227 Entering Passive Mode (10,0,2,15,39,45).'' @ CRLF"
definition FTP_RESP_RETR_FAIL :: string where "FTP_RESP_RETR_FAIL = ''550 Failed to open file.'' @ CRLF"
definition FTP_RESP_STOR_OK :: string where "FTP_RESP_STOR_OK = ''226 Transfer complete.'' @ CRLF"
definition FTP_RESP_SYST :: string where "FTP_RESP_SYST = ''215 UNIX Type: L8'' @ CRLF"
definition FTP_RESP_GOODBYE :: string where "FTP_RESP_GOODBYE = ''221 Goodbye.'' @ CRLF"
definition FTP_RESP_UNKNOWN :: string where "FTP_RESP_UNKNOWN = ''500 Unknown command.'' @ CRLF"
definition FTP_RESP_FEAT :: string where
  "FTP_RESP_FEAT = concat (map (\<lambda>l. l @ CRLF)
     [''211-Features:'', '' EPRT'', '' EPSV'', '' MDTM'', '' PASV'', '' REST STREAM'', '' SIZE'',
      '' TVFS'', '' UTF8'', ''211 End''])"
definition FTP_RESP_SIZE_FAIL :: string where "FTP_RESP_SIZE_FAIL = ''550 Could not get file size.'' @ CRLF"
definition FTP_RESP_DELE_FAIL :: string where "FTP_RESP_DELE_FAIL = ''550 Permission denied.'' @ CRLF"
definition FTP_RESP_NOOP :: string where "FTP_RESP_NOOP = ''200 NOOP ok.'' @ CRLF"
definition FTP_RESP_PORT_OK :: string where "FTP_RESP_PORT_OK = ''200 PORT command successful.'' @ CRLF"
definition FTP_RESP_EPSV :: string where
  "FTP_RESP_EPSV = ''229 Entering Extended Passive Mode (|||10029|).'' @ CRLF"
definition FTP_FAKE_LIST_HEADER :: string where
  "FTP_FAKE_LIST_HEADER = ''150 Here comes the directory listing.'' @ CRLF"
definition FTP_FAKE_LIST_DATA :: string where
  "FTP_FAKE_LIST_DATA = concat (map (\<lambda>l. l @ CRLF)
     [''drwxr-xr-x    2 www-data www-data     4096 Jul 05 08:12 .'',
      ''drwxr-xr-x    3 root     root         4096 Jun 28 14:30 ..'',
      ''-rw-r--r--    1 www-data www-data  2048576 Jul 04 22:15 backup.sql'',
      ''-rw-------    1 root     root          487 Jun 15 09:44 .htpasswd'',
      ''-rw-r--r--    1 www-data www-data     3214 Jul 01 16:33 wp-config.php'',
      ''-rw-r--r--    1 www-data www-data 15728640 Jul 03 03:00 database_dump.tar.gz'',
      ''-rw-r--r--    1 www-data www-data      741 Jun 20 11:22 .env'',
      ''-rwxr-xr-x    1 www-data www-data     1024 Jun 18 07:55 deploy.sh'',
      ''drwxr-xr-x    5 www-data www-data     4096 Jul 02 19:40 uploads''])"
definition FTP_FAKE_LIST_FOOTER :: string where "FTP_FAKE_LIST_FOOTER = ''226 Directory send OK.'' @ CRLF"

section \<open>The session\<close>

text \<open>
  \<open>auth_attempts\<close> is an \<open>int\<close>, read with \<open>sint\<close>; adding one to the largest value, which C leaves
  undefined, wraps around.
\<close>

record ftp_session_t =
  authenticated :: bool
  auth_attempts :: "32 word"
  username :: string
  password :: string
  cwd :: string

definition ftp_session_init :: ftp_session_t where
  "ftp_session_init = \<lparr>authenticated = False, auth_attempts = 0, username = [], password = [],
     cwd = strncpy ''/'' 511\<rparr>"

text \<open>The peer and the session's identifier, which every handler passes on.\<close>

record ftp_peer =
  peer_ip :: string
  peer_port :: int
  peer_sid :: string

definition peer_args :: "ftp_peer \<Rightarrow> log_arg list" where
  "peer_args p = [Str (peer_ip p), Num (peer_port p)]"

definition ftp_audit_command :: "ftp_peer \<Rightarrow> string \<Rightarrow> eff" where
  "ftp_audit_command p line =
     Audit (audit_record_command FTP_PROTOCOL (peer_ip p) (peer_port p) (peer_sid p) line)"

definition ftp_audit_file :: "ftp_peer \<Rightarrow> audit_event_type \<Rightarrow> string \<Rightarrow> eff" where
  "ftp_audit_file p type txt =
     Audit \<lparr>req_type = type, req_severity = AUDIT_SEVERITY_HIGH,
       req_protocol = protocol_num FTP_PROTOCOL, req_ip = Some (peer_ip p),
       req_port = peer_port p, req_session = Some (peer_sid p), req_user = Some '''',
       req_details = txt\<rparr>"

definition ftp_extract_argument :: "string \<Rightarrow> nat \<Rightarrow> string" where
  "ftp_extract_argument line cmd_len =
     (if length line \<le> cmd_len then '''' else skip_spaces (drop cmd_len line))"

definition ftp_handle_user :: "ftp_peer \<Rightarrow> ftp_session_t \<Rightarrow> string \<Rightarrow> ftp_session_t \<times> eff list" where
  "ftp_handle_user p sess line =
     (let user = strncpy (ftp_extract_argument line 4) 255 in
      (sess\<lparr>username := user, authenticated := False, password := []\<rparr>,
       [Log UTILITIES_WARN (Str user # peer_args p), ftp_audit_command p line,
        Send FTP_RESP_USER_OK]))"

definition ftp_handle_pass :: "ftp_peer \<Rightarrow> ftp_session_t \<Rightarrow> string \<Rightarrow> ftp_session_t \<times> eff list" where
  "ftp_handle_pass p sess line =
     (let pass = strncpy (ftp_extract_argument line 4) 255;
          attempts = auth_attempts sess + 1;
          sess = sess\<lparr>password := pass, auth_attempts := attempts\<rparr>;
          success = (FTP_SUCCEED_ON_ATTEMPT \<le> sint attempts);
          es = [Log UTILITIES_WARN ([Str (username sess), Str pass] @ peer_args p @ [Num (sint attempts)]),
                Audit (audit_record_auth FTP_PROTOCOL (peer_ip p) (peer_port p) (peer_sid p)
                         (username sess) (Some pass) success)]
      in if success
         then (sess\<lparr>authenticated := True, cwd := strncpy ''/var/www/html'' 511\<rparr>,
               es @ [Log UTILITIES_WARN (Str (username sess) # peer_args p), Send FTP_RESP_LOGIN_OK])
         else (sess, es @ [Send FTP_RESP_LOGIN_FAIL]))"

definition ftp_handle_list :: "ftp_peer \<Rightarrow> string \<Rightarrow> eff list" where
  "ftp_handle_list p line =
     (let arg = ftp_extract_argument line 4 in
      [Log UTILITIES_WARN (Str (if 0 < length arg then arg else ''.'') # peer_args p),
       ftp_audit_command p line,
       Send FTP_FAKE_LIST_HEADER, Send FTP_FAKE_LIST_DATA, Send FTP_FAKE_LIST_FOOTER])"

definition ftp_handle_retr :: "ftp_peer \<Rightarrow> string \<Rightarrow> eff list" where
  "ftp_handle_retr p line =
     (let filename = ftp_extract_argument line 4 in
      [Log UTILITIES_WARN (Str filename # peer_args p),
       ftp_audit_file p AUDIT_EVENT_FILE_ACCESS (''RETR '' @ filename), Send FTP_RESP_RETR_FAIL])"

definition ftp_handle_stor :: "ftp_peer \<Rightarrow> string \<Rightarrow> eff list" where
  "ftp_handle_stor p line =
     (let filename = ftp_extract_argument line 4 in
      [Log UTILITIES_WARN (Str filename # peer_args p),
       ftp_audit_file p AUDIT_EVENT_FILE_MODIFY (''STOR '' @ filename), Send FTP_RESP_STOR_OK])"

definition ftp_handle_cwd :: "ftp_peer \<Rightarrow> ftp_session_t \<Rightarrow> string \<Rightarrow> ftp_session_t \<times> eff list" where
  "ftp_handle_cwd p sess line =
     (let dir = ftp_extract_argument line 3;
          new_cwd =
            (if dir \<noteq> [] \<and> hd dir = CHR ''/'' then strncpy dir 511
             else
               let cur = cwd sess;
                   cur = (if 0 < length cur \<and> last cur \<noteq> CHR ''/''
                          then strncat cur ''/'' (512 - length cur - 1) else cur)
               in strncat cur dir (512 - length cur - 1))
      in (sess\<lparr>cwd := new_cwd\<rparr>,
          [Log UTILITIES_WARN (Str dir # peer_args p), ftp_audit_command p line, Send FTP_RESP_CWD_OK]))"

definition ftp_handle_dele :: "ftp_peer \<Rightarrow> string \<Rightarrow> eff list" where
  "ftp_handle_dele p line =
     (let filename = ftp_extract_argument line 4 in
      [Log UTILITIES_WARN (Str filename # peer_args p),
       ftp_audit_file p AUDIT_EVENT_FILE_MODIFY (''DELE '' @ filename), Send FTP_RESP_DELE_FAIL])"

definition ftp_pwd_resp :: "ftp_session_t \<Rightarrow> string" where
  "ftp_pwd_resp sess =
     snprintf 600 (''257 '' @ [QUOTE] @ cwd sess @ [QUOTE] @ '' is the current directory'' @ CRLF)"

section \<open>Commands\<close>

text \<open>The commands of a logged-in client, which do not change whether the loop runs.\<close>

definition ftp_user_command :: "ftp_peer \<Rightarrow> ftp_session_t \<Rightarrow> string \<Rightarrow> ftp_session_t \<times> eff list" where
  "ftp_user_command p sess line =
     (let is = (\<lambda>name. strncaseeq line name (length name));
          cmd = ftp_audit_command p line;
          warn = (\<lambda>arg. Log UTILITIES_WARN (Str arg # peer_args p))
      in
      if is ''PWD'' \<or> is ''XPWD'' then (sess, [cmd, Send (ftp_pwd_resp sess)])
      else if is ''LIST'' \<or> is ''NLST'' \<or> strcaseeq line ''ls'' \<or> is ''ls '' then
        (sess, ftp_handle_list p line)
      else if is ''CWD '' \<or> is ''XCWD '' then ftp_handle_cwd p sess line
      else if is ''CDUP'' \<or> is ''XCUP'' then
        (sess\<lparr>cwd := strncpy ''/var/www'' 511\<rparr>, [cmd, Send FTP_RESP_CWD_OK])
      else if is ''TYPE '' then (sess, [cmd, Send FTP_RESP_TYPE_OK])
      else if is ''PASV'' then (sess, [cmd, Send FTP_RESP_PASV])
      else if is ''EPSV'' then (sess, [cmd, Send FTP_RESP_EPSV])
      else if is ''PORT '' then (sess, [cmd, warn (drop 5 line), Send FTP_RESP_PORT_OK])
      else if is ''RETR '' then (sess, ftp_handle_retr p line)
      else if is ''STOR '' then (sess, ftp_handle_stor p line)
      else if is ''DELE '' then (sess, ftp_handle_dele p line)
      else if is ''MKD '' \<or> is ''XMKD '' then
        (sess, [cmd, warn (ftp_extract_argument line 3), Send FTP_RESP_DELE_FAIL])
      else if is ''RMD '' \<or> is ''XRMD '' then
        (sess, [cmd, warn (ftp_extract_argument line 3), Send FTP_RESP_DELE_FAIL])
      else if is ''SYST'' then (sess, [cmd, Send FTP_RESP_SYST])
      else if is ''FEAT'' then (sess, [cmd, Send FTP_RESP_FEAT])
      else if is ''SIZE '' then (sess, [cmd, warn (drop 5 line), Send FTP_RESP_SIZE_FAIL])
      else if is ''NOOP'' then (sess, [cmd, Send FTP_RESP_NOOP])
      else if is ''SITE '' then (sess, [cmd, warn (drop 5 line), Send FTP_RESP_UNKNOWN])
      else if is ''MDTM '' then (sess, [cmd, Send FTP_RESP_SIZE_FAIL])
      else (sess, [cmd, warn line, Send FTP_RESP_UNKNOWN]))"

text \<open>One line; the last result is the new value of \<open>running\<close>.\<close>

definition ftp_command ::
  "ftp_peer \<Rightarrow> ftp_session_t \<Rightarrow> bool \<Rightarrow> string \<Rightarrow> ftp_session_t \<times> eff list \<times> bool" where
  "ftp_command p sess running line =
     (let (sess', es, running') =
        (if strncaseeq line ''USER '' 5 then
           (let (sess, es) = ftp_handle_user p sess line in (sess, es, running))
         else if strncaseeq line ''PASS '' 5 then
           (let (sess, es) = ftp_handle_pass p sess line in
            if FTP_MAX_AUTH_ATTEMPTS \<le> sint (auth_attempts sess) \<and> \<not> authenticated sess
            then (sess, es @ [Log UTILITIES_WARN (peer_args p @ [Num (sint (auth_attempts sess))]),
                              Send FTP_RESP_GOODBYE], False)
            else (sess, es, running))
         else if strncaseeq line ''QUIT'' 4 then
           (sess, [ftp_audit_command p line, Send FTP_RESP_GOODBYE], False)
         else if \<not> authenticated sess then
           (sess, [ftp_audit_command p line, Send FTP_RESP_NOT_LOGGED_IN], running)
         else (let (sess, es) = ftp_user_command p sess line in (sess, es, running)))
      in (sess', Log UTILITIES_WARN (Str line # peer_args p) # es, running'))"

section \<open>The receive loop\<close>

text \<open>
  The \<open>for\<close> loop over the bytes of one \<open>recv\<close>; \<open>line_buf\<close> are the first \<open>line_len\<close>
  bytes of the line buffer. The flag \<open>running\<close> is not looked at here.
\<close>

fun ftp_bytes ::
  "ftp_peer \<Rightarrow> ftp_session_t \<Rightarrow> string \<Rightarrow> bool \<Rightarrow> string \<Rightarrow> ftp_session_t \<times> string \<times> bool \<times> eff list" where
  "ftp_bytes p sess line_buf running [] = (sess, line_buf, running, [])"
| "ftp_bytes p sess line_buf running (c # cs) =
     (if c = LF then
        (if length line_buf = 0 then ftp_bytes p sess [] running cs
         else
           (case ftp_command p sess running (strip_crlf (cstr line_buf)) of
              (sess, es, running) \<Rightarrow>
                (case ftp_bytes p sess [] running cs of
                   (sess', line_buf', running', es') \<Rightarrow> (sess', line_buf', running', es @ es'))))
      else if length line_buf < FTP_RECV_BUFFER_SIZE - 1 then
        ftp_bytes p sess (line_buf @ [c]) running cs
      else ftp_bytes p sess line_buf running cs)"

function ftp_loop :: "ftp_peer \<Rightarrow> ftp_session_t \<Rightarrow> string \<Rightarrow> segment list \<Rightarrow> ftp_session_t \<times> eff list" where
  "ftp_loop p sess line_buf ib =
     (case recv (FTP_RECV_BUFFER_SIZE - 1) ib of
        (Got d, ib') \<Rightarrow>
          (case ftp_bytes p sess line_buf True d of
             (sess, line_buf, running, es) \<Rightarrow>
               if running then
                 (case ftp_loop p sess line_buf ib' of (sess', es') \<Rightarrow> (sess', es @ es'))
               else (sess, es))
      | _ \<Rightarrow> (sess, []))"
  by pat_completeness auto
termination
  by (relation "measure (\<lambda>(_, _, _, ib). inbox_size ib)") (auto simp: recv_decreases)

declare ftp_loop.simps [simp del]

text \<open>\<open>sid\<close> is the identifier \<open>ftp_generate_session_id\<close> gives the session.\<close>

definition run_ftp_service :: "string \<Rightarrow> connection \<Rightarrow> segment list \<Rightarrow> eff list" where
  "run_ftp_service sid conn ib =
     (let ip = remote_ip conn; port = uint (remote_port conn); fd = socket_file_descriptor conn;
          p = \<lparr>peer_ip = ip, peer_port = port, peer_sid = sid\<rparr>;
          (sess, es) = ftp_loop p ftp_session_init [] ib
      in [Log UTILITIES_INFO [Str ip, Num port, Num fd],
          Audit (audit_record_connection FTP_PROTOCOL ip port sid), Send FTP_BANNER]
         @ es
         @ [Log UTILITIES_INFO [Str ip, Num port, Str (username sess), Num (sint (auth_attempts sess))],
            Audit (audit_record_disconnect FTP_PROTOCOL ip port sid), Close fd])"

section \<open>Sessions are audited\<close>

lemmas ftp_handlers = ftp_handle_user_def ftp_handle_pass_def ftp_handle_list_def ftp_handle_retr_def
  ftp_handle_stor_def ftp_handle_cwd_def ftp_handle_dele_def Let_def

abbreviation ftp_inner :: "ftp_peer \<Rightarrow> eff \<Rightarrow> bool" where
  "ftp_inner p \<equiv> inner FTP_PROTOCOL (peer_ip p) (peer_port p) (peer_sid p)"

lemma ftp_audit_inner [simp]:
  "ftp_inner p (ftp_audit_command p line)"
  "ftp_inner p (ftp_audit_file p AUDIT_EVENT_FILE_ACCESS txt)"
  "ftp_inner p (ftp_audit_file p AUDIT_EVENT_FILE_MODIFY txt)"
  by (simp_all add: ftp_audit_command_def ftp_audit_file_def inner_audit attributed_def
      audit_record_command_def)

lemma ftp_user_command_inner: "list_all (ftp_inner p) (snd (ftp_user_command p sess line))"
  by (simp add: ftp_user_command_def ftp_handlers)

lemma ftp_command_inner: "list_all (ftp_inner p) (fst (snd (ftp_command p sess running line)))"
  using ftp_user_command_inner [of p sess line]
  by (simp add: ftp_command_def case_prod_beta ftp_handle_user_def ftp_handle_pass_def Let_def)

lemma ftp_bytes_inner: "list_all (ftp_inner p) (snd (snd (snd (ftp_bytes p sess buf running cs))))"
proof (induction cs arbitrary: sess buf running)
  case (Cons c cs)
  then show ?case
    using ftp_command_inner [of p sess running] by (simp add: case_prod_beta)
qed simp

lemma ftp_loop_inner: "list_all (ftp_inner p) (snd (ftp_loop p sess buf ib))"
proof (induction "inbox_size ib" arbitrary: sess buf ib rule: less_induct)
  case less
  show ?case
    using ftp_bytes_inner [of p]
    by (subst ftp_loop.simps)
      (auto simp: case_prod_beta recv_decreases' split: recv_ret.splits intro!: less.hyps)
qed

interpretation ftp: audited_service FTP_PROTOCOL run_ftp_service
proof (unfold_locales, goal_cases)
  case (1 sid c ib)
  let ?ip = "remote_ip c" and ?port = "uint (remote_port c)" and ?fd = "socket_file_descriptor c"
  let ?p = "\<lparr>peer_ip = ?ip, peer_port = ?port, peer_sid = sid\<rparr>"
  let ?l = "ftp_loop ?p ftp_session_init [] ib"
  show ?case
    using ftp_loop_inner [of ?p ftp_session_init "[]" ib]
    by (intro exI [of _ "[Log UTILITIES_INFO [Str ?ip, Num ?port, Num ?fd]]"]
        exI [of _ "Send FTP_BANNER # snd ?l @ [Log UTILITIES_INFO [Str ?ip, Num ?port,
          Str (username (fst ?l)), Num (sint (auth_attempts (fst ?l)))]]"] exI [of _ "[Close ?fd]"])
      (simp add: run_ftp_service_def Let_def case_prod_beta)
qed

section \<open>The session invariant\<close>

definition ftp_ok :: "ftp_session_t \<Rightarrow> bool" where
  "ftp_ok sess \<longleftrightarrow> length (username sess) < 256 \<and> length (password sess) < 256
     \<and> length (cwd sess) < 512"

lemma ftp_ok_init: "ftp_ok ftp_session_init"
  by (simp add: ftp_ok_def ftp_session_init_def strncpy_def)

lemma ftp_handle_user_ok: "ftp_ok sess \<Longrightarrow> ftp_ok (fst (ftp_handle_user p sess line))"
  by (simp add: ftp_handle_user_def ftp_ok_def Let_def min_less_iff_disj)

lemma ftp_handle_pass_ok: "ftp_ok sess \<Longrightarrow> ftp_ok (fst (ftp_handle_pass p sess line))"
  by (auto simp: ftp_handle_pass_def ftp_ok_def Let_def min_less_iff_disj)

lemma length_strncat_less: "length a < n \<Longrightarrow> length (strncat a b (n - length a - 1)) < n"
  by (simp add: strncat_def)

lemma ftp_handle_cwd_ok: "ftp_ok sess \<Longrightarrow> ftp_ok (fst (ftp_handle_cwd p sess line))"
  by (simp add: ftp_handle_cwd_def ftp_ok_def Let_def min_less_iff_disj
      length_strncat_less [where n = 512, simplified])

lemma ftp_user_command_ok: "ftp_ok sess \<Longrightarrow> ftp_ok (fst (ftp_user_command p sess line))"
  using ftp_handle_cwd_ok [of sess p line]
  by (simp add: ftp_user_command_def Let_def) (simp add: ftp_ok_def)

lemma ftp_command_ok: "ftp_ok sess \<Longrightarrow> ftp_ok (fst (ftp_command p sess running line))"
  using ftp_user_command_ok [of sess p line] ftp_handle_user_ok [of sess p line]
    ftp_handle_pass_ok [of sess p line]
  by (simp add: ftp_command_def case_prod_beta)

lemma ftp_bytes_ok: "ftp_ok sess \<Longrightarrow> ftp_ok (fst (ftp_bytes p sess buf running cs))"
  by (induction cs arbitrary: sess buf running) (simp_all add: case_prod_beta ftp_command_ok)

lemma ftp_loop_ok: "ftp_ok sess \<Longrightarrow> ftp_ok (fst (ftp_loop p sess buf ib))"
proof (induction "inbox_size ib" arbitrary: sess buf ib rule: less_induct)
  case less
  then show ?case
    by (subst ftp_loop.simps)
      (auto simp: case_prod_beta recv_decreases' ftp_bytes_ok split: recv_ret.splits intro!: less.hyps)
qed

text \<open>
  The counter of the logins: it is at most the number of bytes received, so it does not wrap around below
  \<open>2 ^ 31\<close> of them, and nobody is logged in while it is less than two.
\<close>

definition ftp_attempts_ok :: "nat \<Rightarrow> ftp_session_t \<Rightarrow> bool" where
  "ftp_attempts_ok n sess \<longleftrightarrow> 0 \<le> sint (auth_attempts sess) \<and> sint (auth_attempts sess) \<le> int n
     \<and> (authenticated sess \<longrightarrow> 2 \<le> sint (auth_attempts sess))"

lemma ftp_attempts_init: "ftp_attempts_ok 0 ftp_session_init"
  by (simp add: ftp_attempts_ok_def ftp_session_init_def)

lemma ftp_attempts_mono: "ftp_attempts_ok m sess \<Longrightarrow> m \<le> n \<Longrightarrow> ftp_attempts_ok n sess"
  by (simp add: ftp_attempts_ok_def)

lemma sint_suc:
  assumes "0 \<le> sint (a :: 32 word)" "sint a < 2 ^ 31 - 1"
  shows "sint (a + 1) = sint a + 1"
  using assms by (simp add: sint_word_ariths signed_take_bit_int_eq_self)

lemma ftp_handle_pass_attempts:
  assumes "ftp_attempts_ok n sess" "Suc n < 2 ^ 31"
  shows "ftp_attempts_ok (Suc n) (fst (ftp_handle_pass p sess line))"
proof -
  have "sint (auth_attempts sess + 1) = sint (auth_attempts sess) + 1"
    using assms by (intro sint_suc) (auto simp: ftp_attempts_ok_def)
  with assms show ?thesis by (auto simp: ftp_handle_pass_def ftp_attempts_ok_def Let_def ftp_consts)
qed

lemma ftp_user_command_attempts:
  "auth_attempts (fst (ftp_user_command p sess line)) = auth_attempts sess"
  "authenticated (fst (ftp_user_command p sess line)) = authenticated sess"
  by (simp_all add: ftp_user_command_def ftp_handle_cwd_def Let_def)

lemma ftp_command_attempts:
  assumes "ftp_attempts_ok n sess" "Suc n < 2 ^ 31"
  shows "ftp_attempts_ok (Suc n) (fst (ftp_command p sess running line))"
proof -
  have same: "ftp_attempts_ok (Suc n) sess'"
    if "auth_attempts sess' = auth_attempts sess" "authenticated sess' \<Longrightarrow> authenticated sess" for sess'
    using assms(1) that by (auto simp: ftp_attempts_ok_def)
  have user: "ftp_attempts_ok (Suc n) (fst (ftp_handle_user p sess line))"
    by (rule same) (simp_all add: ftp_handle_user_def Let_def)
  have cmd: "ftp_attempts_ok (Suc n) (fst (ftp_user_command p sess line))"
    by (rule same) (simp_all add: ftp_user_command_attempts)
  show ?thesis
    using ftp_handle_pass_attempts [OF assms] ftp_attempts_mono [OF assms(1), of "Suc n"] user cmd
    by (simp add: ftp_command_def case_prod_beta)
qed

lemma ftp_bytes_attempts:
  "ftp_attempts_ok n sess \<Longrightarrow> n + length cs < 2 ^ 31 \<Longrightarrow>
   ftp_attempts_ok (n + length cs) (fst (ftp_bytes p sess buf running cs))"
proof (induction cs arbitrary: n sess buf running)
  case (Cons c cs)
  have next_ok: "ftp_attempts_ok (Suc n) sess" using ftp_attempts_mono [OF Cons.prems(1), of "Suc n"] by simp
  show ?case
    using Cons.IH [OF next_ok] Cons.IH [OF ftp_command_attempts [OF Cons.prems(1)]] Cons.prems(2)
    by (simp add: case_prod_beta)
qed simp

lemma ftp_loop_attempts:
  "ftp_attempts_ok n sess \<Longrightarrow> n + length (stream ib) < 2 ^ 31 \<Longrightarrow>
   ftp_attempts_ok (n + length (stream ib)) (fst (ftp_loop p sess buf ib))"
proof (induction "inbox_size ib" arbitrary: n sess buf ib rule: less_induct)
  case less
  show ?case
  proof (cases "\<exists>d ib'. recv (FTP_RECV_BUFFER_SIZE - 1) ib = (Got d, ib')")
    case True
    then obtain d ib' where got: "recv (FTP_RECV_BUFFER_SIZE - 1) ib = (Got d, ib')" by blast
    obtain sess1 buf1 run1 es1 where b: "ftp_bytes p sess buf True d = (sess1, buf1, run1, es1)"
      by (cases "ftp_bytes p sess buf True d")
    have len: "length (stream ib) = length d + length (stream ib')" using recv_Got(4) [OF got] by simp
    from ftp_bytes_attempts [OF less.prems(1), of d p buf True] less.prems(2)
    have ok: "ftp_attempts_ok (n + length d) sess1" by (simp add: b len)
    with less.hyps [OF recv_Got(3) [OF got] ok, of buf1] less.prems(2)
      ftp_attempts_mono [OF ok, of "n + length (stream ib)"]
    show ?thesis
      by (subst ftp_loop.simps) (simp add: got [simplified] b len add.assoc case_prod_beta)
  next
    case False
    then have "fst (ftp_loop p sess buf ib) = sess"
      by (cases "recv (FTP_RECV_BUFFER_SIZE - 1) ib"; cases "fst (recv (FTP_RECV_BUFFER_SIZE - 1) ib)")
        (simp_all add: ftp_loop.simps)
    then show ?thesis using ftp_attempts_mono [OF less.prems(1)] by simp
  qed
qed

text \<open>Only QUIT ends the loop: whoever has made six attempts is logged in.\<close>

lemma ftp_command_running:
  "snd (snd (ftp_command p sess running line)) \<longleftrightarrow>
     running \<and> (strncaseeq line ''USER '' 5 \<or> strncaseeq line ''PASS '' 5 \<or> \<not> strncaseeq line ''QUIT'' 4)"
  by (auto simp: ftp_command_def case_prod_beta ftp_handle_pass_def Let_def ftp_consts)

section \<open>Segments do not matter\<close>

lemma ftp_bytes_append:
  "ftp_bytes p sess buf running (xs @ ys) =
     (case ftp_bytes p sess buf running xs of
        (sess', buf', running', es) \<Rightarrow>
          (case ftp_bytes p sess' buf' running' ys of
             (sess'', buf'', running'', es') \<Rightarrow> (sess'', buf'', running'', es @ es')))"
proof (induction xs arbitrary: sess buf running)
  case (Cons c xs)
  show ?case
  proof (cases "c = LF \<and> buf \<noteq> []")
    case True
    then show ?thesis
      by (cases "ftp_command p sess running (strip_crlf (cstr buf))") (simp add: Cons.IH case_prod_beta)
  next
    case False
    then show ?thesis by (auto simp: Cons.IH case_prod_beta)
  qed
qed (simp add: case_prod_beta)

lemma ftp_bytes_stopped: "\<not> fst (snd (snd (ftp_bytes p sess buf False cs)))"
  by (induction cs arbitrary: sess buf) (auto simp: case_prod_beta ftp_command_running split: prod.splits)

lemma ftp_loop_stream:
  assumes "fst (snd (snd (ftp_bytes p sess buf True (stream ib))))"
  shows "ftp_loop p sess buf ib =
    (fst (ftp_bytes p sess buf True (stream ib)), snd (snd (snd (ftp_bytes p sess buf True (stream ib)))))"
  using assms
proof (induction "inbox_size ib" arbitrary: sess buf ib rule: less_induct)
  case less
  obtain r ib' where recv: "recv (FTP_RECV_BUFFER_SIZE - 1) ib = (r, ib')"
    by (cases "recv (FTP_RECV_BUFFER_SIZE - 1) ib")
  show ?case
  proof (cases r)
    case (Got d)
    with recv have got: "recv (FTP_RECV_BUFFER_SIZE - 1) ib = (Got d, ib')" by simp
    note g = recv_Got(3,4) [OF got]
    obtain sess1 buf1 run1 es1 where b: "ftp_bytes p sess buf True d = (sess1, buf1, run1, es1)"
      by (cases "ftp_bytes p sess buf True d")
    have run1: "run1" using less.prems ftp_bytes_stopped [of p sess1 buf1 "stream ib'"]
      by (cases run1) (simp_all add: g(2) ftp_bytes_append b case_prod_beta)
    with less.prems have "fst (snd (snd (ftp_bytes p sess1 buf1 True (stream ib'))))"
      by (simp add: g(2) ftp_bytes_append b case_prod_beta)
    from less.hyps [OF g(1) this] show ?thesis
      by (subst ftp_loop.simps) (simp add: got [simplified] b run1 g(2) ftp_bytes_append case_prod_beta)
  qed (use recv recv_end [OF recv] in \<open>subst ftp_loop.simps, simp add: ftp_consts\<close>)+
qed

section \<open>Lines\<close>

definition ftp_line :: "string \<Rightarrow> bool" where
  "ftp_line l \<longleftrightarrow> l \<noteq> [] \<and> set l \<inter> {NUL, CR, LF} = {} \<and> length l \<le> 4094"

text \<open>The session a client has that sends the given lines.\<close>

fun ftp_lines :: "ftp_peer \<Rightarrow> ftp_session_t \<Rightarrow> bool \<Rightarrow> string list \<Rightarrow> ftp_session_t \<times> bool \<times> eff list" where
  "ftp_lines p sess running [] = (sess, running, [])"
| "ftp_lines p sess running (l # ls) =
     (case ftp_command p sess running l of
        (sess, es, running) \<Rightarrow>
          (case ftp_lines p sess running ls of
             (sess', running', es') \<Rightarrow> (sess', running', es @ es')))"

lemma ftp_bytes_collect:
  "LF \<notin> set l \<Longrightarrow> length buf + length l \<le> 4095 \<Longrightarrow>
   ftp_bytes p sess buf running (l @ cs) = ftp_bytes p sess (buf @ l) running cs"
  by (induction l arbitrary: buf) (auto simp: ftp_consts)

lemma ftp_bytes_lines:
  assumes "list_all ftp_line ls"
  shows "ftp_bytes p sess [] running (concat (map (\<lambda>l. l @ CRLF) ls)) =
    (case ftp_lines p sess running ls of (sess', running', es) \<Rightarrow> (sess', [], running', es))"
  using assms
proof (induction ls arbitrary: sess running)
  case (Cons l ls)
  then have l: "l \<noteq> []" "LF \<notin> set l" "CR \<notin> set l" "nul_free l" "length l \<le> 4094"
    by (auto simp: ftp_line_def nul_free_def)
  have "ftp_bytes p sess [] running (concat (map (\<lambda>l. l @ CRLF) (l # ls))) =
      ftp_bytes p sess [] running ((l @ [CR]) @ LF # concat (map (\<lambda>l. l @ CRLF) ls))" by simp
  also have "\<dots> = ftp_bytes p sess (l @ [CR]) running (LF # concat (map (\<lambda>l. l @ CRLF) ls))"
    using l by (subst ftp_bytes_collect) simp_all
  finally have "ftp_bytes p sess [] running (concat (map (\<lambda>l. l @ CRLF) (l # ls))) =
      ftp_bytes p sess (l @ [CR]) running (LF # concat (map (\<lambda>l. l @ CRLF) ls))" .
  moreover have "strip_crlf (cstr (l @ [CR])) = l"
    using l by (simp add: strip_crlf_no_crlf)
  ultimately show ?case using Cons by (simp add: case_prod_beta)
qed simp

lemma ftp_user_command_audits: "length (audits (snd (ftp_user_command p sess line))) = 1"
  by (simp add: ftp_user_command_def ftp_handlers ftp_audit_command_def ftp_audit_file_def)

lemma ftp_command_audits: "length (audits (fst (snd (ftp_command p sess running line)))) = 1"
  using ftp_user_command_audits [of p sess line]
  by (simp add: ftp_command_def case_prod_beta ftp_handle_user_def ftp_handle_pass_def
      ftp_audit_command_def Let_def)

lemma ftp_lines_audits: "length (audits (snd (snd (ftp_lines p sess running ls)))) = length ls"
  by (induction ls arbitrary: sess running) (simp_all add: case_prod_beta ftp_command_audits)

lemma ftp_lines_running:
  "\<forall>l \<in> set ls. \<not> strncaseeq l ''QUIT'' 4 \<Longrightarrow> fst (snd (ftp_lines p sess running ls)) = running"
  by (induction ls arbitrary: sess running) (simp_all add: case_prod_beta ftp_command_running)

section \<open>Properties\<close>

text \<open>C13: The FTP session state stays within its buffers, whatever bytes arrive, so the answer to PWD always fits
  its buffer of 600 bytes and is sent whole; and a client that sends less than \<open>2 ^ 31\<close> bytes, so that the
  \<open>int\<close> that counts its passwords does not wrap around, is not logged in before a second password.\<close>

theorem ftp_session_invariant:
  "ftp_ok (fst (ftp_loop p ftp_session_init [] ib))
   \<and> ftp_pwd_resp (fst (ftp_loop p ftp_session_init [] ib)) =
       ''257 '' @ [QUOTE] @ cwd (fst (ftp_loop p ftp_session_init [] ib)) @ [QUOTE]
       @ '' is the current directory'' @ CRLF
   \<and> (length (stream ib) < 2 ^ 31 \<longrightarrow> authenticated (fst (ftp_loop p ftp_session_init [] ib)) \<longrightarrow>
        2 \<le> sint (auth_attempts (fst (ftp_loop p ftp_session_init [] ib))))"
proof -
  have ok: "ftp_ok (fst (ftp_loop p ftp_session_init [] ib))" by (rule ftp_loop_ok [OF ftp_ok_init])
  then have "length (cwd (fst (ftp_loop p ftp_session_init [] ib))) < 512" by (simp add: ftp_ok_def)
  then have "ftp_pwd_resp (fst (ftp_loop p ftp_session_init [] ib)) =
       ''257 '' @ [QUOTE] @ cwd (fst (ftp_loop p ftp_session_init [] ib)) @ [QUOTE]
       @ '' is the current directory'' @ CRLF"
    unfolding ftp_pwd_resp_def by (intro snprintf_fits) simp
  with ok ftp_loop_attempts [OF ftp_attempts_init, of ib p "[]"] show ?thesis
    by (simp add: ftp_attempts_ok_def)
qed

text \<open>A client that gives two passwords.\<close>

theorem ftp_session_invariant_witness:
  "let sess = fst (ftp_loop \<lparr>peer_ip = ''10.0.0.1'', peer_port = 4711, peer_sid = ''id''\<rparr> ftp_session_init []
                [Data (''PASS a'' @ CRLF), Data (''PASS b'' @ CRLF)])
   in authenticated sess \<and> 2 \<le> sint (auth_attempts sess)"
proof -
  let ?p = "\<lparr>peer_ip = ''10.0.0.1'', peer_port = 4711, peer_sid = ''id''\<rparr>"
  let ?ib = "[Data (''PASS a'' @ CRLF), Data (''PASS b'' @ CRLF)]"
  have "authenticated (fst (ftp_loop ?p ftp_session_init [] ?ib))"
    by (simp add: ftp_loop.simps ftp_command_def ftp_handle_pass_def ftp_session_init_def ftp_consts Let_def
        strncaseeq_def char_eval strip_crlf_def case_prod_beta)
  then show ?thesis using ftp_session_invariant [of ?p ?ib] by (simp add: Let_def)
qed

text \<open>C14: How TCP cuts the client's bytes into segments makes no difference to an FTP session: two
  clients that send the same bytes, none of their lines being QUIT, see the same answers and
  leave the same records.\<close>

theorem ftp_segmentation_irrelevant:
  assumes "stream ib' = stream ib"
    and "fst (snd (snd (ftp_bytes \<lparr>peer_ip = remote_ip conn, peer_port = uint (remote_port conn),
           peer_sid = sid\<rparr> ftp_session_init [] True (stream ib))))"
  shows "run_ftp_service sid conn ib' = run_ftp_service sid conn ib"
  using assms by (simp add: run_ftp_service_def Let_def ftp_loop_stream)

theorem ftp_segmentation_irrelevant_witness:
  "run_ftp_service ''id'' (connection_create 5 ''10.0.0.1'' 4711 FTP_PROTOCOL 0 0)
     [Data ''US'', Data ''ER a'', Data [CR], Data [LF]] =
   run_ftp_service ''id'' (connection_create 5 ''10.0.0.1'' 4711 FTP_PROTOCOL 0 0)
     [Data (''USER a'' @ CRLF)]"
proof (rule ftp_segmentation_irrelevant)
  have "list_all ftp_line [''USER a'']" by (simp add: ftp_line_def)
  from ftp_bytes_lines [OF this] ftp_lines_running [of "[''USER a'']"]
  show "fst (snd (snd (ftp_bytes \<lparr>peer_ip = remote_ip (connection_create 5 ''10.0.0.1'' 4711 FTP_PROTOCOL 0 0),
      peer_port = uint (remote_port (connection_create 5 ''10.0.0.1'' 4711 FTP_PROTOCOL 0 0)),
      peer_sid = ''id''\<rparr> ftp_session_init [] True (stream [Data (''USER a'' @ CRLF)]))))"
    by (simp add: case_prod_beta strncaseeq_def char_eval)
qed simp

text \<open>C15: Nothing an FTP client does escapes the audit trail: for any lines other than QUIT, in any
  segmentation, the session handles exactly these lines in order and leaves exactly one record
  for each, between the connection and the disconnection.\<close>

theorem ftp_every_line_audited:
  assumes "list_all ftp_line ls" and "\<forall>l \<in> set ls. \<not> strncaseeq l ''QUIT'' 4"
    and "stream ib = concat (map (\<lambda>l. l @ CRLF) ls)"
  shows "\<exists>es. audits (run_ftp_service sid conn ib) =
      audit_record_connection FTP_PROTOCOL (remote_ip conn) (uint (remote_port conn)) sid
      # audits es @ [audit_record_disconnect FTP_PROTOCOL (remote_ip conn) (uint (remote_port conn)) sid]
    \<and> es = snd (snd (ftp_lines \<lparr>peer_ip = remote_ip conn, peer_port = uint (remote_port conn),
           peer_sid = sid\<rparr> ftp_session_init True ls))
    \<and> length (audits es) = length ls"
proof -
  let ?p = "\<lparr>peer_ip = remote_ip conn, peer_port = uint (remote_port conn), peer_sid = sid\<rparr>"
  let ?l = "ftp_lines ?p ftp_session_init True ls"
  have b: "ftp_bytes ?p ftp_session_init [] True (stream ib) = (fst ?l, [], True, snd (snd ?l))"
    using ftp_bytes_lines [OF assms(1), of ?p ftp_session_init True]
      ftp_lines_running [OF assms(2), of ?p ftp_session_init True] assms(3)
    by (simp add: case_prod_beta prod_eq_iff)
  then have "ftp_loop ?p ftp_session_init [] ib = (fst ?l, snd (snd ?l))"
    using ftp_loop_stream [of ?p ftp_session_init "[]" ib] by simp
  then show ?thesis by (simp add: run_ftp_service_def Let_def ftp_lines_audits)
qed

theorem ftp_every_line_audited_witness:
  "\<exists>es. audits (run_ftp_service ''id'' (connection_create 5 ''10.0.0.1'' 4711 FTP_PROTOCOL 0 0)
      [Data ''PASS'', Data ('' x'' @ CRLF @ ''PWD''), Data CRLF]) =
      audit_record_connection FTP_PROTOCOL ''10.0.0.1'' 4711 ''id''
      # audits es @ [audit_record_disconnect FTP_PROTOCOL ''10.0.0.1'' 4711 ''id'']
    \<and> length (audits es) = 2"
  using ftp_every_line_audited [of "[''PASS x'', ''PWD'']"
      "[Data ''PASS'', Data ('' x'' @ CRLF @ ''PWD''), Data CRLF]" "''id''"
      "connection_create 5 ''10.0.0.1'' 4711 FTP_PROTOCOL 0 0"]
  by (auto simp: ftp_line_def strncaseeq_def char_eval connection_create_def strncpy_def)

section \<open>What the limits do not do\<close>

text \<open>
  The lockout after \<open>FTP_MAX_AUTH_ATTEMPTS\<close> failed logins cannot happen: the second attempt
  already succeeds.
\<close>

lemma ftp_lockout_unreachable:
  "authenticated (fst (ftp_handle_pass p sess line))
   \<or> sint (auth_attempts (fst (ftp_handle_pass p sess line))) < FTP_MAX_AUTH_ATTEMPTS"
  by (auto simp: ftp_handle_pass_def Let_def ftp_consts)

text \<open>\<open>XCWD\<close> shares the handler of \<open>CWD\<close>, which cuts off three characters only.\<close>

lemma ftp_xcwd_argument: "ftp_extract_argument ''XCWD /tmp'' 3 = ''D /tmp''"
  by (simp add: ftp_extract_argument_def skip_spaces_def)

end
