(* ===== verification/Pop3_Honeypot.thy ===== *)
theory Pop3_Honeypot
  imports Service
begin

text \<open>
  src/service/pop3_honeypot.c: a fake Dovecot POP3 server. Every segment is taken as one command;
  the user name is kept until the next password.
\<close>

section \<open>Commands\<close>

definition POP3_RECV_BUFFER_SIZE :: nat where "POP3_RECV_BUFFER_SIZE = 4096"

definition pop3_generate_session_id :: "nat \<Rightarrow> int \<Rightarrow> int \<Rightarrow> int \<Rightarrow> string" where
  "pop3_generate_session_id len fd tv_sec tv_nsec =
     snprintf len (''pop3_'' @ dec_int fd @ ''_'' @ dec_int tv_sec @ ''_'' @ dec_int tv_nsec)"

definition pop3_capa :: string where
  "pop3_capa = concat (map (\<lambda>l. l @ CRLF)
     [''+OK Capability list follows'', ''USER'', ''UIDL'', ''TOP'', ''RESP-CODES'', ''AUTH-RESP-CODE'',
      ''PIPELINING'', ''STLS'', ''.''])"

text \<open>The answers that do not touch the session.\<close>

definition pop3_reply :: "string \<Rightarrow> string" where
  "pop3_reply buf =
     (let is = (\<lambda>name. strncaseeq buf name 4) in
      if is ''CAPA'' then pop3_capa
      else if is ''QUIT'' then ''+OK Bye.'' @ CRLF
      else if is ''NOOP'' then ''+OK'' @ CRLF
      else if is ''STAT'' then ''-ERR Not authenticated'' @ CRLF
      else if is ''LIST'' then ''-ERR Not authenticated'' @ CRLF
      else if is ''RETR'' then ''-ERR Not authenticated'' @ CRLF
      else if is ''STLS'' then ''-ERR TLS not available'' @ CRLF
      else if is ''AUTH'' then ''-ERR Unknown authentication mechanism'' @ CRLF
      else ''-ERR Unknown command'' @ CRLF)"

text \<open>One command: the new user name, the effects and the new value of \<open>running\<close>.\<close>

definition pop3_command :: "string \<Rightarrow> int \<Rightarrow> string \<Rightarrow> string \<Rightarrow> string \<Rightarrow> string \<times> eff list \<times> bool" where
  "pop3_command ip port sid username buf =
     (let es = [Log UTILITIES_INFO [Str buf, Str ip, Num port],
                Audit (audit_record_command POP3_PROTOCOL ip port sid buf)]
      in if strncaseeq buf ''USER '' 5 then
           (let username = strncpy (drop 5 buf) 255
            in (username, es @ [Log UTILITIES_INFO [Str username, Str ip, Num port],
                                Send (''+OK'' @ CRLF)], True))
         else if strncaseeq buf ''PASS '' 5 then
           (let password = drop 5 buf
            in ([], es @ [Log UTILITIES_WARN [Str username, Str password, Str ip, Num port],
                          Audit (audit_record_auth POP3_PROTOCOL ip port sid username (Some password) False),
                          Send (''-ERR Authentication failed.'' @ CRLF)], True))
         else (username, es @ [Send (pop3_reply buf)],
               strncaseeq buf ''CAPA'' 4 \<or> \<not> strncaseeq buf ''QUIT'' 4))"

section \<open>The receive loop\<close>

function pop3_loop :: "string \<Rightarrow> int \<Rightarrow> string \<Rightarrow> string \<Rightarrow> segment list \<Rightarrow> eff list" where
  "pop3_loop ip port sid username ib =
     (case recv (POP3_RECV_BUFFER_SIZE - 1) ib of
        (Got d, ib') \<Rightarrow>
          (case pop3_command ip port sid username (strip_crlf (cstr d)) of
             (username, es, running) \<Rightarrow>
               if running then es @ pop3_loop ip port sid username ib' else es)
      | _ \<Rightarrow> [])"
  by pat_completeness auto
termination
  by (relation "measure (\<lambda>(_, _, _, _, ib). inbox_size ib)") (auto simp: recv_decreases)

declare pop3_loop.simps [simp del]

text \<open>\<open>sid\<close> is the identifier \<open>pop3_generate_session_id\<close> gives the session.\<close>

definition run_pop3_service :: "string \<Rightarrow> connection \<Rightarrow> segment list \<Rightarrow> eff list" where
  "run_pop3_service sid conn ib =
     (let ip = remote_ip conn; port = uint (remote_port conn); fd = socket_file_descriptor conn
      in [Log UTILITIES_INFO [Str ip, Num port, Num fd],
          Audit (audit_record_connection POP3_PROTOCOL ip port sid),
          Send (''+OK Dovecot ready.'' @ CRLF)]
         @ pop3_loop ip port sid [] ib
         @ [Log UTILITIES_INFO [Str ip, Num port],
            Audit (audit_record_disconnect POP3_PROTOCOL ip port sid), Close fd])"

section \<open>Sessions are audited\<close>

lemma pop3_command_inner:
  "list_all (inner POP3_PROTOCOL ip port sid) (fst (snd (pop3_command ip port sid u buf)))"
  by (simp add: pop3_command_def Let_def)

interpretation pop3_loop: segment_loop "POP3_RECV_BUFFER_SIZE - 1"
  "\<lambda>username d. pop3_command ip port sid username (strip_crlf (cstr d))" "pop3_loop ip port sid" for ip port sid
  by unfold_locales (rule pop3_loop.simps)

lemma pop3_loop_inner: "list_all (inner POP3_PROTOCOL ip port sid) (pop3_loop ip port sid u ib)"
  by (rule pop3_loop.loop_effects) (rule pop3_command_inner)

interpretation pop3: audited_service POP3_PROTOCOL run_pop3_service
proof (unfold_locales, goal_cases)
  case (1 sid c ib)
  let ?ip = "remote_ip c" and ?port = "uint (remote_port c)" and ?fd = "socket_file_descriptor c"
  show ?case
    using pop3_loop_inner [of ?ip ?port sid "[]" ib]
    by (intro exI [of _ "[Log UTILITIES_INFO [Str ?ip, Num ?port, Num ?fd]]"]
        exI [of _ "Send (''+OK Dovecot ready.'' @ CRLF) # pop3_loop ?ip ?port sid [] ib
          @ [Log UTILITIES_INFO [Str ?ip, Num ?port]]"] exI [of _ "[Close ?fd]"])
      (simp add: run_pop3_service_def Let_def)
qed

section \<open>Dialogues\<close>

abbreviation pop3_line :: "string \<Rightarrow> bool" where
  "pop3_line \<equiv> sent_line (POP3_RECV_BUFFER_SIZE - 1)"

lemma pop3_loop_step:
  "pop3_line l \<Longrightarrow> pop3_loop ip port sid u (Data (l @ CRLF) # ib) =
    (case pop3_command ip port sid u l of
       (u', es, running) \<Rightarrow> if running then es @ pop3_loop ip port sid u' ib else es)"
  using pop3_loop.loop_line [of l ip port sid u ib] by (simp only: sent_line_text)

lemma pop3_user:
  "pop3_command ip port sid u0 (''USER '' @ u) =
     (strncpy u 255,
      [Log UTILITIES_INFO [Str (''USER '' @ u), Str ip, Num port],
       Audit (audit_record_command POP3_PROTOCOL ip port sid (''USER '' @ u)),
       Log UTILITIES_INFO [Str (strncpy u 255), Str ip, Num port], Send (''+OK'' @ CRLF)], True)"
  by (simp add: pop3_command_def strncaseeq_def char_eval)

lemma pop3_pass:
  "pop3_command ip port sid u (''PASS '' @ p) =
     ([], [Log UTILITIES_INFO [Str (''PASS '' @ p), Str ip, Num port],
       Audit (audit_record_command POP3_PROTOCOL ip port sid (''PASS '' @ p)),
       Log UTILITIES_WARN [Str u, Str p, Str ip, Num port],
       Audit (audit_record_auth POP3_PROTOCOL ip port sid u (Some p) False),
       Send (''-ERR Authentication failed.'' @ CRLF)], True)"
  by (simp add: pop3_command_def strncaseeq_def char_eval)

text \<open>What a client sends that tries a list of credentials, and what is to be recorded.\<close>

definition pop3_tries :: "(string \<times> string) list \<Rightarrow> segment list" where
  "pop3_tries creds = concat (map (\<lambda>(u, p). [Data (''USER '' @ u @ CRLF), Data (''PASS '' @ p @ CRLF)]) creds)"

definition pop3_tried :: "string \<Rightarrow> int \<Rightarrow> string \<Rightarrow> (string \<times> string) list \<Rightarrow> audit_req list" where
  "pop3_tried ip port sid creds = concat (map (\<lambda>(u, p).
     [audit_record_command POP3_PROTOCOL ip port sid (''USER '' @ u),
      audit_record_command POP3_PROTOCOL ip port sid (''PASS '' @ p),
      audit_record_auth POP3_PROTOCOL ip port sid u (Some p) False]) creds)"

definition pop3_cred :: "string \<times> string \<Rightarrow> bool" where
  "pop3_cred c \<longleftrightarrow> pop3_line (''USER '' @ fst c) \<and> pop3_line (''PASS '' @ snd c) \<and> length (fst c) \<le> 255"

lemma pop3_loop_tries:
  assumes "list_all pop3_cred creds"
  shows "audits (pop3_loop ip port sid u0 (pop3_tries creds)) = pop3_tried ip port sid creds
    \<and> sends (pop3_loop ip port sid u0 (pop3_tries creds)) =
        concat (replicate (length creds) [''+OK'' @ CRLF, ''-ERR Authentication failed.'' @ CRLF])"
  using assms
proof (induction creds arbitrary: u0)
  case Nil
  then show ?case by (simp add: pop3_tries_def pop3_tried_def pop3_loop.simps)
next
  case (Cons c creds)
  obtain u p where c: "c = (u, p)" by force
  with Cons.prems have l: "pop3_line (''USER '' @ u)" "pop3_line (''PASS '' @ p)" "length u \<le> 255"
    by (auto simp: pop3_cred_def)
  have "pop3_tries (c # creds) =
      Data ((''USER '' @ u) @ CRLF) # Data ((''PASS '' @ p) @ CRLF) # pop3_tries creds"
    by (simp add: pop3_tries_def c)
  then have "pop3_loop ip port sid u0 (pop3_tries (c # creds)) =
      fst (snd (pop3_command ip port sid u0 (''USER '' @ u)))
      @ fst (snd (pop3_command ip port sid u (''PASS '' @ p))) @ pop3_loop ip port sid [] (pop3_tries creds)"
    by (simp only: pop3_loop_step [OF l(1)] pop3_loop_step [OF l(2)] pop3_user pop3_pass
        strncpy_all [OF l(3)] prod.case if_True fst_conv snd_conv)
  with Cons.IH [of "[]"] Cons.prems show ?case
    by (simp only: pop3_user pop3_pass fst_conv snd_conv) (simp add: pop3_tried_def c)
qed

section \<open>Properties\<close>

text \<open>C25: A POP3 client that tries a list of credentials leaves, for each of them and in that order, the
  two commands and a failed login with exactly that name and password; it is never let in.\<close>

theorem pop3_credentials_captured:
  assumes "list_all pop3_cred creds"
  shows "audits (run_pop3_service sid conn (pop3_tries creds)) =
      audit_record_connection POP3_PROTOCOL (remote_ip conn) (uint (remote_port conn)) sid
      # pop3_tried (remote_ip conn) (uint (remote_port conn)) sid creds
      @ [audit_record_disconnect POP3_PROTOCOL (remote_ip conn) (uint (remote_port conn)) sid]
    \<and> sends (run_pop3_service sid conn (pop3_tries creds)) =
      (''+OK Dovecot ready.'' @ CRLF) #
      concat (replicate (length creds) [''+OK'' @ CRLF, ''-ERR Authentication failed.'' @ CRLF])"
  using pop3_loop_tries [OF assms]
  by (simp add: run_pop3_service_def Let_def)

theorem pop3_credentials_captured_witness:
  "pop3_tried ''10.0.0.1'' 4711 ''id'' [(''root'', ''toor''), (''admin'', ''1234'')] =
     tl (butlast (audits (run_pop3_service ''id'' (connection_create 5 ''10.0.0.1'' 4711 POP3_PROTOCOL 0 0)
       (pop3_tries [(''root'', ''toor''), (''admin'', ''1234'')]))))"
  using pop3_credentials_captured [of "[(''root'', ''toor''), (''admin'', ''1234'')]" "''id''"
      "connection_create 5 ''10.0.0.1'' 4711 POP3_PROTOCOL 0 0"]
  by (simp add: pop3_cred_def sent_line_def POP3_RECV_BUFFER_SIZE_def connection_create_def strncpy_def butlast_append)

section \<open>Pipelining\<close>

text \<open>
  The capability list offers PIPELINING, but two commands in one segment are one command: the
  password is recorded as part of the user name, not as a login.
\<close>

lemma pop3_pipelined_login_lost:
  "audits (run_pop3_service sid conn [Data (''USER a'' @ CRLF @ ''PASS b'' @ CRLF)]) =
     [audit_record_connection POP3_PROTOCOL (remote_ip conn) (uint (remote_port conn)) sid,
      audit_record_command POP3_PROTOCOL (remote_ip conn) (uint (remote_port conn)) sid
        (''USER a'' @ CRLF @ ''PASS b''),
      audit_record_disconnect POP3_PROTOCOL (remote_ip conn) (uint (remote_port conn)) sid]"
  by (simp add: run_pop3_service_def Let_def pop3_loop.simps POP3_RECV_BUFFER_SIZE_def strip_crlf_def
      pop3_command_def strncaseeq_def char_eval)

end
