(* ===== verification/Imap_Honeypot.thy ===== *)
theory Imap_Honeypot
  imports Service
begin

text \<open>
  src/service/imap_honeypot.c: a fake Dovecot IMAP server. Every segment is taken as one tagged
  command; LOGIN takes quoted or bare arguments.
\<close>

section \<open>Arguments and replies\<close>

definition IMAP_RECV_BUFFER_SIZE :: nat where "IMAP_RECV_BUFFER_SIZE = 4096"

definition imap_generate_session_id :: "nat \<Rightarrow> int \<Rightarrow> int \<Rightarrow> int \<Rightarrow> string" where
  "imap_generate_session_id len fd tv_sec tv_nsec =
     snprintf len (''imap_'' @ dec_int fd @ ''_'' @ dec_int tv_sec @ ''_'' @ dec_int tv_nsec)"

text \<open>The bytes that are copied into a buffer of \<open>cap\<close> bytes that starts out empty.\<close>

definition imap_copy :: "string \<Rightarrow> nat \<Rightarrow> nat \<Rightarrow> string" where
  "imap_copy src len cap = take (if cap \<le> len then cap - 1 else len) src"

definition imap_username :: "string \<Rightarrow> nat \<Rightarrow> string \<times> string option" where
  "imap_username p usize =
     (if p \<noteq> [] \<and> hd p = QUOTE then
        (case strchr (tl p) QUOTE of
           Some ulen \<Rightarrow> (imap_copy (tl p) ulen usize, Some (skip_spaces (drop (ulen + 1) (tl p))))
         | None \<Rightarrow> ([], None))
      else
        (case strchr p (CHR '' '') of
           Some ulen \<Rightarrow> (imap_copy p ulen usize, Some (drop (ulen + 1) p))
         | None \<Rightarrow> ([], None)))"

definition imap_password :: "string \<Rightarrow> nat \<Rightarrow> string" where
  "imap_password pw_start psize =
     (if pw_start \<noteq> [] \<and> hd pw_start = QUOTE then
        (case strchr (tl pw_start) QUOTE of
           Some plen \<Rightarrow> imap_copy (tl pw_start) plen psize
         | None \<Rightarrow> [])
      else strncpy pw_start (psize - 1))"

text \<open>The user name and the password, both empty before the call.\<close>

definition imap_parse_login_args :: "string \<Rightarrow> nat \<Rightarrow> nat \<Rightarrow> string \<times> string" where
  "imap_parse_login_args args usize psize =
     (case imap_username args usize of
        (username, None) \<Rightarrow> (username, [])
      | (username, Some pw_start) \<Rightarrow> (username, imap_password pw_start psize))"

text \<open>The answers that do not touch the audit trail.\<close>

definition imap_reply :: "string \<Rightarrow> string \<Rightarrow> string" where
  "imap_reply tag cmd =
     (let is = (\<lambda>name. strncaseeq cmd name (length name)) in
      if is ''CAPABILITY'' then
        snprintf 512 (''* CAPABILITY IMAP4rev1 LITERAL+ SASL-IR LOGIN-REFERRALS ''
          @ ''ID ENABLE IDLE AUTH=PLAIN AUTH=LOGIN STARTTLS'' @ CRLF
          @ tag @ '' OK CAPABILITY completed'' @ CRLF)
      else if is ''LOGOUT'' then
        snprintf 256 (''* BYE Dovecot closing connection'' @ CRLF @ tag @ '' OK LOGOUT completed'' @ CRLF)
      else if is ''NOOP'' then snprintf 128 (tag @ '' OK NOOP completed'' @ CRLF)
      else if is ''STARTTLS'' then snprintf 256 (tag @ '' BAD TLS not available'' @ CRLF)
      else if is ''AUTHENTICATE'' then
        snprintf 256 (tag @ '' NO [AUTHENTICATIONFAILED] Authentication failed.'' @ CRLF)
      else if is ''SELECT'' \<or> is ''EXAMINE'' \<or> is ''LIST'' \<or> is ''FETCH'' \<or> is ''STORE'' \<or> is ''SEARCH'' then
        snprintf 256 (tag @ '' BAD Not authenticated'' @ CRLF)
      else snprintf 256 (tag @ '' BAD Command not recognized'' @ CRLF))"

section \<open>Commands\<close>

definition imap_tag :: "string \<Rightarrow> string" where
  "imap_tag buf =
     (case strchr buf (CHR '' '') of
        Some tag_len \<Rightarrow> imap_copy buf tag_len 64
      | None \<Rightarrow> ''*'')"

definition imap_cmd :: "string \<Rightarrow> string" where
  "imap_cmd buf = (case strchr buf (CHR '' '') of Some i \<Rightarrow> drop (i + 1) buf | None \<Rightarrow> buf)"

text \<open>One command: the effects and the new value of \<open>running\<close>.\<close>

definition imap_command :: "string \<Rightarrow> int \<Rightarrow> string \<Rightarrow> string \<Rightarrow> eff list \<times> bool" where
  "imap_command ip port sid buf =
     (let es = [Log UTILITIES_INFO [Str buf, Str ip, Num port],
                Audit (audit_record_command IMAP_PROTOCOL ip port sid buf)];
          tag = imap_tag buf;
          cmd = imap_cmd buf
      in if strncaseeq cmd ''LOGIN '' 6 then
           (let (username, password) = imap_parse_login_args (drop 6 cmd) 256 256
            in (es @ [Log UTILITIES_WARN [Str username, Str password, Str ip, Num port],
                      Audit (audit_record_auth IMAP_PROTOCOL ip port sid username (Some password) False),
                      Send (snprintf 512 (tag @ '' NO [AUTHENTICATIONFAILED] Authentication failed.'' @ CRLF))],
                True))
         else
           (es @ (if \<not> strncaseeq cmd ''CAPABILITY'' 10 \<and> \<not> strncaseeq cmd ''LOGOUT'' 6
                     \<and> \<not> strncaseeq cmd ''NOOP'' 4 \<and> \<not> strncaseeq cmd ''STARTTLS'' 8
                     \<and> strncaseeq cmd ''AUTHENTICATE'' 12
                  then [Log UTILITIES_WARN [Str cmd, Str ip, Num port]] else [])
               @ [Send (imap_reply tag cmd)],
            strncaseeq cmd ''CAPABILITY'' 10 \<or> \<not> strncaseeq cmd ''LOGOUT'' 6))"

section \<open>The receive loop\<close>

definition imap_banner :: string where
  "imap_banner = ''* OK [CAPABILITY IMAP4rev1 LITERAL+ SASL-IR LOGIN-REFERRALS ''
     @ ''AUTH=PLAIN] Dovecot ready.'' @ CRLF"

function imap_loop :: "string \<Rightarrow> int \<Rightarrow> string \<Rightarrow> segment list \<Rightarrow> eff list" where
  "imap_loop ip port sid ib =
     (case recv (IMAP_RECV_BUFFER_SIZE - 1) ib of
        (Got d, ib') \<Rightarrow>
          (case imap_command ip port sid (strip_crlf (cstr d)) of
             (es, running) \<Rightarrow> if running then es @ imap_loop ip port sid ib' else es)
      | _ \<Rightarrow> [])"
  by pat_completeness auto
termination
  by (relation "measure (\<lambda>(_, _, _, ib). inbox_size ib)") (auto simp: recv_decreases)

declare imap_loop.simps [simp del]

text \<open>\<open>sid\<close> is the identifier \<open>imap_generate_session_id\<close> gives the session.\<close>

definition run_imap_service :: "string \<Rightarrow> connection \<Rightarrow> segment list \<Rightarrow> eff list" where
  "run_imap_service sid conn ib =
     (let ip = remote_ip conn; port = uint (remote_port conn); fd = socket_file_descriptor conn
      in [Log UTILITIES_INFO [Str ip, Num port, Num fd],
          Audit (audit_record_connection IMAP_PROTOCOL ip port sid), Send imap_banner]
         @ imap_loop ip port sid ib
         @ [Log UTILITIES_INFO [Str ip, Num port],
            Audit (audit_record_disconnect IMAP_PROTOCOL ip port sid), Close fd])"

section \<open>Sessions are audited\<close>

lemma imap_command_inner:
  "list_all (inner IMAP_PROTOCOL ip port sid) (fst (imap_command ip port sid buf))"
  by (simp add: imap_command_def Let_def case_prod_beta)

text \<open>The loop carries no state.\<close>

interpretation imap_loop: segment_loop "IMAP_RECV_BUFFER_SIZE - 1"
  "\<lambda>_ d. ((), imap_command ip port sid (strip_crlf (cstr d)))" "\<lambda>_. imap_loop ip port sid" for ip port sid
  by unfold_locales (subst imap_loop.simps, simp add: case_prod_beta split: recv_ret.split)

lemma imap_loop_inner: "list_all (inner IMAP_PROTOCOL ip port sid) (imap_loop ip port sid ib)"
  by (rule imap_loop.loop_effects) (simp add: imap_command_inner)

interpretation imap: audited_service IMAP_PROTOCOL run_imap_service
proof (unfold_locales, goal_cases)
  case (1 sid c ib)
  let ?ip = "remote_ip c" and ?port = "uint (remote_port c)" and ?fd = "socket_file_descriptor c"
  show ?case
    using imap_loop_inner [of ?ip ?port sid ib]
    by (intro exI [of _ "[Log UTILITIES_INFO [Str ?ip, Num ?port, Num ?fd]]"]
        exI [of _ "Send imap_banner # imap_loop ?ip ?port sid ib @ [Log UTILITIES_INFO [Str ?ip, Num ?port]]"]
        exI [of _ "[Close ?fd]"])
      (simp add: run_imap_service_def Let_def)
qed

section \<open>Replies are whole\<close>

lemma length_imap_copy: "0 < cap \<Longrightarrow> length (imap_copy s n cap) < cap"
  by (auto simp: imap_copy_def)

lemma length_imap_tag: "length (imap_tag buf) \<le> 63"
  using length_imap_copy [of 64 buf] by (auto simp: imap_tag_def simp flip: less_Suc_eq_le split: option.split)

text \<open>What a complete answer looks like: its last line starts with the tag.\<close>

definition imap_complete :: "string \<Rightarrow> string \<Rightarrow> bool" where
  "imap_complete tag r \<longleftrightarrow> (\<exists>untagged rest. r = untagged @ tag @ CHR '' '' # rest @ CRLF
     \<and> (untagged = [] \<or> suffix CRLF untagged) \<and> LF \<notin> set rest)"

text \<open>
  The tag of a line as the protocol has it: what stands before the first space. A line without a space is
  answered with \<open>*\<close>; of a longer tag the first 63 bytes are used.
\<close>

definition imap_expected_tag :: "string \<Rightarrow> string" where
  "imap_expected_tag l =
     (if CHR '' '' \<in> set l then take 63 (takeWhile (\<lambda>c. c \<noteq> CHR '' '') l) else ''*'')"

lemma imap_tag_expected: "imap_tag l = imap_expected_tag l"
proof (cases "CHR '' '' \<in> set l")
  case True
  then obtain t c where l: "l = t @ CHR '' '' # c" "CHR '' '' \<notin> set t" by (meson split_list_first)
  then have "takeWhile (\<lambda>c. c \<noteq> CHR '' '') l = t" by (auto simp: takeWhile_tail)
  with l show ?thesis
    by (auto simp: imap_expected_tag_def imap_tag_def strchr_fresh imap_copy_def)
next
  case False
  then have "strchr l (CHR '' '') = None"
    by (induction l) (auto simp: strchr_def)
  with False show ?thesis by (simp add: imap_expected_tag_def imap_tag_def)
qed

lemma imap_complete_line:
  assumes "length tag \<le> 63" "length u + length t + 63 < n" "u = [] \<or> suffix CRLF u"
    and "3 \<le> length t" "hd t = CHR '' ''" "drop (length t - 3) (tl t) = CRLF"
    and "LF \<notin> set (take (length t - 3) (tl t))"
  shows "imap_complete tag (snprintf n (u @ tag @ t))"
proof -
  obtain t' where t: "t = CHR '' '' # t'" using assms(4,5) by (cases t) auto
  have "LF \<notin> set (take (length t' - 2) t')" using assms(7) by (simp add: t numeral_eq_Suc)
  moreover have "t' = take (length t' - 2) t' @ CRLF"
    using assms(4,6) append_take_drop_id [of "length t' - 2" t'] by (simp add: t numeral_eq_Suc)
  then have "u @ tag @ t = u @ tag @ CHR '' '' # take (length t' - 2) t' @ CRLF" by (simp add: t)
  moreover have "snprintf n (u @ tag @ t) = u @ tag @ t" using assms(1,2) by (intro snprintf_fits) simp
  ultimately show ?thesis using assms(3) unfolding imap_complete_def by metis
qed

lemmas imap_complete_tagged = imap_complete_line [where u = "[]", simplified]

lemma imap_reply_complete:
  assumes "length tag \<le> 63"
  shows "imap_complete tag (imap_reply tag cmd)"
proof -
  note line = imap_complete_tagged [OF assms]
  have "imap_complete tag (snprintf 512 ((''* CAPABILITY IMAP4rev1 LITERAL+ SASL-IR LOGIN-REFERRALS ''
          @ ''ID ENABLE IDLE AUTH=PLAIN AUTH=LOGIN STARTTLS'' @ CRLF)
          @ tag @ '' OK CAPABILITY completed'' @ CRLF))"
    by (rule imap_complete_line [OF assms]) (simp_all add: suffix_def)
  moreover have "imap_complete tag
      (snprintf 256 ((''* BYE Dovecot closing connection'' @ CRLF) @ tag @ '' OK LOGOUT completed'' @ CRLF))"
    by (rule imap_complete_line [OF assms]) (simp_all add: suffix_def)
  ultimately show ?thesis by (simp add: imap_reply_def Let_def line)
qed

section \<open>Logins\<close>

lemma imap_copy_all: "length u < cap \<Longrightarrow> imap_copy (u @ t) (length u) cap = u"
  by (simp add: imap_copy_def)

text \<open>The two ways a client may write the arguments of LOGIN.\<close>

definition imap_quoted :: "string \<Rightarrow> string" where
  "imap_quoted s = [QUOTE] @ s @ [QUOTE]"

definition imap_atom :: "string \<Rightarrow> bool" where
  "imap_atom s \<longleftrightarrow> s \<noteq> [] \<and> CHR '' '' \<notin> set s \<and> QUOTE \<notin> set s \<and> length s \<le> 255"

definition imap_quotable :: "string \<Rightarrow> bool" where
  "imap_quotable s \<longleftrightarrow> QUOTE \<notin> set s \<and> length s \<le> 255"

text \<open>One argument: its text, and how it is written.\<close>

fun imap_arg :: "bool \<times> string \<Rightarrow> string" where
  "imap_arg (quoted, s) = (if quoted then imap_quoted s else s)"

fun imap_arg_ok :: "bool \<times> string \<Rightarrow> bool" where
  "imap_arg_ok (quoted, s) \<longleftrightarrow> (if quoted then imap_quotable s else imap_atom s)"

lemma imap_atom_hd: "imap_atom s \<Longrightarrow> s \<noteq> [] \<and> hd s \<noteq> QUOTE \<and> hd s \<noteq> CHR '' ''"
  by (cases s) (auto simp: imap_atom_def)

lemma imap_username_arg:
  assumes "imap_arg_ok u" and "w \<noteq> []" "hd w \<noteq> CHR '' ''"
  shows "imap_username (imap_arg u @ '' '' @ w) 256 = (snd u, Some w)"
proof -
  obtain q s where u: "u = (q, s)" by force
  have w: "skip_spaces (CHR '' '' # w) = w"
    using assms(2,3) by (cases w) (simp_all add: skip_spaces_def)
  show ?thesis
  proof (cases q)
    case True
    with assms(1) have s: "QUOTE \<notin> set s" "length s < 256" by (auto simp: u imap_quotable_def)
    from True show ?thesis
      by (simp add: u imap_username_def imap_quoted_def strchr_fresh [OF s(1)] imap_copy_all [OF s(2)] w)
  next
    case False
    with assms(1) have s: "CHR '' '' \<notin> set s" "length s < 256" "s \<noteq> []" "hd s \<noteq> QUOTE"
      using imap_atom_hd [of s] by (auto simp: u imap_atom_def)
    from False s(3,4) show ?thesis
      by (simp add: u imap_username_def strchr_fresh [OF s(1)] imap_copy_all [OF s(2)])
  qed
qed

lemma imap_password_arg:
  assumes "imap_arg_ok p"
  shows "imap_password (imap_arg p) 256 = snd p"
proof -
  obtain q s where p: "p = (q, s)" by force
  show ?thesis
  proof (cases q)
    case True
    with assms have s: "QUOTE \<notin> set s" "length s < 256" by (auto simp: p imap_quotable_def)
    from True show ?thesis
      by (simp add: p imap_password_def imap_quoted_def strchr_fresh [OF s(1)] imap_copy_all [OF s(2)])
  next
    case False
    with assms have "length s \<le> 255" "hd s \<noteq> QUOTE"
      using imap_atom_hd [of s] by (auto simp: p imap_atom_def)
    with False show ?thesis by (auto simp: p imap_password_def strncpy_all)
  qed
qed

lemma imap_arg_start:
  assumes "imap_arg_ok p"
  shows "imap_arg p \<noteq> [] \<and> hd (imap_arg p) \<noteq> CHR '' ''"
  using assms by (cases p rule: imap_arg.cases)
    (auto simp: imap_quoted_def imap_atom_hd split: if_splits)

lemma imap_parse_login:
  assumes "imap_arg_ok u" "imap_arg_ok p"
  shows "imap_parse_login_args (imap_arg u @ '' '' @ imap_arg p) 256 256 = (snd u, snd p)"
  using imap_username_arg [OF assms(1), of "imap_arg p"] imap_arg_start [OF assms(2)]
    imap_password_arg [OF assms(2)]
  by (simp add: imap_parse_login_args_def)

definition imap_login_line :: "string \<Rightarrow> bool \<times> string \<Rightarrow> bool \<times> string \<Rightarrow> string" where
  "imap_login_line tag u p = tag @ '' LOGIN '' @ imap_arg u @ '' '' @ imap_arg p"

definition imap_auth_failed :: "string \<Rightarrow> string" where
  "imap_auth_failed tag = tag @ '' NO [AUTHENTICATIONFAILED] Authentication failed.'' @ CRLF"

lemma imap_command_login:
  assumes tag: "CHR '' '' \<notin> set tag" "length tag \<le> 63" and "imap_arg_ok u" "imap_arg_ok p"
  shows "imap_command ip port sid (imap_login_line tag u p) =
    ([Log UTILITIES_INFO [Str (imap_login_line tag u p), Str ip, Num port],
      Audit (audit_record_command IMAP_PROTOCOL ip port sid (imap_login_line tag u p)),
      Log UTILITIES_WARN [Str (snd u), Str (snd p), Str ip, Num port],
      Audit (audit_record_auth IMAP_PROTOCOL ip port sid (snd u) (Some (snd p)) False),
      Send (imap_auth_failed tag)], True)"
proof -
  let ?args = "imap_arg u @ '' '' @ imap_arg p"
  have line: "imap_login_line tag u p = tag @ CHR '' '' # ''LOGIN '' @ ?args"
    by (simp add: imap_login_line_def)
  have "imap_tag (imap_login_line tag u p) = tag"
    using tag by (simp add: line imap_tag_def strchr_fresh imap_copy_all)
  moreover have "imap_cmd (imap_login_line tag u p) = ''LOGIN '' @ ?args"
    using tag by (simp add: line imap_cmd_def strchr_fresh)
  moreover have "strncaseeq (''LOGIN '' @ ?args) ''LOGIN '' 6" by (simp add: strncaseeq_def char_eval)
  moreover have "snprintf 512 (imap_auth_failed tag) = imap_auth_failed tag"
    using tag(2) by (intro snprintf_fits) (simp add: imap_auth_failed_def)
  ultimately show ?thesis
    using imap_parse_login [OF assms(3,4)]
    by (simp add: imap_command_def Let_def) (simp add: imap_auth_failed_def)
qed

text \<open>A login attempt that fits one \<open>recv\<close>.\<close>

fun imap_try_ok :: "string \<times> (bool \<times> string) \<times> bool \<times> string \<Rightarrow> bool" where
  "imap_try_ok (tag, u, p) \<longleftrightarrow> CHR '' '' \<notin> set tag \<and> length tag \<le> 63 \<and> imap_arg_ok u \<and> imap_arg_ok p
     \<and> sent_line (IMAP_RECV_BUFFER_SIZE - 1) (imap_login_line tag u p)"

definition imap_tries :: "(string \<times> (bool \<times> string) \<times> bool \<times> string) list \<Rightarrow> segment list" where
  "imap_tries ts = map (\<lambda>(tag, u, p). Data (imap_login_line tag u p @ CRLF)) ts"

definition imap_tried ::
  "string \<Rightarrow> int \<Rightarrow> string \<Rightarrow> (string \<times> (bool \<times> string) \<times> bool \<times> string) list \<Rightarrow> audit_req list" where
  "imap_tried ip port sid ts = concat (map (\<lambda>(tag, u, p).
     [audit_record_command IMAP_PROTOCOL ip port sid (imap_login_line tag u p),
      audit_record_auth IMAP_PROTOCOL ip port sid (snd u) (Some (snd p)) False]) ts)"

lemma imap_loop_step:
  "sent_line (IMAP_RECV_BUFFER_SIZE - 1) l \<Longrightarrow> imap_loop ip port sid (Data (l @ CRLF) # ib) =
    (case imap_command ip port sid l of
       (es, running) \<Rightarrow> if running then es @ imap_loop ip port sid ib else es)"
  using imap_loop.loop_line [of l ip port sid ib] by (simp only: sent_line_text prod.case case_prod_beta snd_conv)

lemma imap_loop_tries:
  assumes "list_all imap_try_ok ts"
  shows "audits (imap_loop ip port sid (imap_tries ts)) = imap_tried ip port sid ts
    \<and> sends (imap_loop ip port sid (imap_tries ts)) = map (\<lambda>t. imap_auth_failed (fst t)) ts"
  using assms
proof (induction ts)
  case Nil
  then show ?case by (simp add: imap_tries_def imap_tried_def imap_loop.simps)
next
  case (Cons t ts)
  obtain tag u p where t: "t = (tag, u, p)" by (cases t)
  with Cons.prems have ok: "CHR '' '' \<notin> set tag" "length tag \<le> 63" "imap_arg_ok u" "imap_arg_ok p"
    "sent_line (IMAP_RECV_BUFFER_SIZE - 1) (imap_login_line tag u p)" by auto
  have "imap_tries (t # ts) = Data (imap_login_line tag u p @ CRLF) # imap_tries ts"
    by (simp add: imap_tries_def t)
  then have "imap_loop ip port sid (imap_tries (t # ts)) =
      fst (imap_command ip port sid (imap_login_line tag u p)) @ imap_loop ip port sid (imap_tries ts)"
    by (simp only: imap_loop_step [OF ok(5)] imap_command_login [OF ok(1-4)] prod.case if_True fst_conv)
  with Cons.IH Cons.prems show ?case
    by (simp only: imap_command_login [OF ok(1-4)] fst_conv) (simp add: imap_tried_def t)
qed

section \<open>Properties\<close>

text \<open>C26: Every IMAP command line, whatever its bytes, is answered with exactly one message; it is never cut,
  and its last line starts with the tag of the command: what stands before the first space, or its first
  63 bytes when it is longer. A line without a space is answered with the tag \<open>*\<close>.\<close>

theorem imap_one_tagged_reply:
  "\<exists>r. sends (fst (imap_command ip port sid l)) = [r]
     \<and> imap_complete (if CHR '' '' \<in> set l then take 63 (takeWhile (\<lambda>c. c \<noteq> CHR '' '') l) else ''*'') r"
  using imap_reply_complete [OF length_imap_tag, of l "imap_cmd l"]
    imap_complete_tagged [OF length_imap_tag, of "'' NO [AUTHENTICATIONFAILED] Authentication failed.'' @ CRLF" 512 l]
  unfolding imap_expected_tag_def [symmetric] imap_tag_expected [symmetric]
  by (simp add: imap_command_def Let_def case_prod_beta)

text \<open>C27: An IMAP client that tries a list of logins, each argument quoted or bare, leaves for each of
  them and in that order the command and a failed login with exactly that name and password, and
  gets the failure with its own tag.\<close>

theorem imap_logins_captured:
  assumes "list_all imap_try_ok ts"
  shows "audits (run_imap_service sid conn (imap_tries ts)) =
      audit_record_connection IMAP_PROTOCOL (remote_ip conn) (uint (remote_port conn)) sid
      # imap_tried (remote_ip conn) (uint (remote_port conn)) sid ts
      @ [audit_record_disconnect IMAP_PROTOCOL (remote_ip conn) (uint (remote_port conn)) sid]
    \<and> sends (run_imap_service sid conn (imap_tries ts)) =
      imap_banner # map (\<lambda>t. imap_auth_failed (fst t)) ts"
  using imap_loop_tries [OF assms] by (simp add: run_imap_service_def Let_def)

theorem imap_logins_captured_witness:
  "sends (run_imap_service ''id'' (connection_create 5 ''10.0.0.1'' 4711 IMAP_PROTOCOL 0 0)
     (imap_tries [(''a1'', (True, ''the root''), (False, ''toor'')), (''a2'', (False, ''admin''), (True, ''''))])) =
   [imap_banner, imap_auth_failed ''a1'', imap_auth_failed ''a2'']"
  using imap_logins_captured [of "[(''a1'', (True, ''the root''), (False, ''toor'')),
      (''a2'', (False, ''admin''), (True, ''''))]" "''id''" "connection_create 5 ''10.0.0.1'' 4711 IMAP_PROTOCOL 0 0"]
  by (simp add: imap_quotable_def imap_atom_def sent_line_def IMAP_RECV_BUFFER_SIZE_def
      imap_login_line_def imap_quoted_def)

end
