(* ===== verification/Smtp_Honeypot.thy ===== *)
theory Smtp_Honeypot
  imports Service
begin

unbundle bit_operations_syntax

text \<open>
  src/service/smtp_honeypot.c: a fake Postfix server. Base64, lines read byte by byte, the two
  AUTH mechanisms, DATA, the command loop. This service looks at what \<open>send\<close> returns, so its
  socket is two scripts: what \<open>recv\<close> delivers, and whether each \<open>send\<close> takes the whole
  message (when that script is used up, it does). An effect \<open>Send s\<close> is the call.
\<close>

section \<open>Constants\<close>

definition SMTP_BANNER :: string where
  "SMTP_BANNER = ''220 mail.honeydew.local ESMTP Postfix (Ubuntu)'' @ CRLF"
definition SMTP_BUF_SIZE :: nat where "SMTP_BUF_SIZE = 4096"
definition SMTP_DATA_MAX :: nat where "SMTP_DATA_MAX = 65536"
definition SMTP_EHLO_RESPONSE :: string where
  "SMTP_EHLO_RESPONSE = concat (map (\<lambda>l. l @ CRLF)
     [''250-mail.honeydew.local'', ''250-SIZE 10240000'', ''250-AUTH PLAIN LOGIN'', ''250 OK''])"
definition SMTP_AUTH_USERNAME_CHALLENGE :: string where
  "SMTP_AUTH_USERNAME_CHALLENGE = ''334 VXNlcm5hbWU6'' @ CRLF"
definition SMTP_AUTH_PASSWORD_CHALLENGE :: string where
  "SMTP_AUTH_PASSWORD_CHALLENGE = ''334 UGFzc3dvcmQ6'' @ CRLF"
definition SMTP_AUTH_FAILED :: string where
  "SMTP_AUTH_FAILED = ''535 5.7.8 Authentication failed'' @ CRLF"
definition SMTP_MAIL_OK :: string where "SMTP_MAIL_OK = ''250 2.1.0 Ok'' @ CRLF"
definition SMTP_RCPT_OK :: string where "SMTP_RCPT_OK = ''250 2.1.5 Ok'' @ CRLF"
definition SMTP_DATA_START :: string where
  "SMTP_DATA_START = ''354 End data with <CR><LF>.<CR><LF>'' @ CRLF"
definition SMTP_DATA_QUEUED :: string where "SMTP_DATA_QUEUED = ''250 2.0.0 Ok: queued'' @ CRLF"
definition SMTP_VRFY_OK :: string where "SMTP_VRFY_OK = ''252 2.0.0 user'' @ CRLF"
definition SMTP_RSET_OK :: string where "SMTP_RSET_OK = ''250 2.0.0 Ok'' @ CRLF"
definition SMTP_QUIT_OK :: string where "SMTP_QUIT_OK = ''221 2.0.0 Bye'' @ CRLF"
definition SMTP_UNKNOWN_CMD :: string where
  "SMTP_UNKNOWN_CMD = ''502 5.5.2 Error: command not recognized'' @ CRLF"

section \<open>Base64\<close>

definition base64_alphabet :: string where
  "base64_alphabet = ''ABCDEFGHIJKLMNOPQRSTUVWXYZabcdefghijklmnopqrstuvwxyz0123456789+/''"

text \<open>The table has 0 at every character outside the alphabet.\<close>

definition decode_table :: "char \<Rightarrow> 32 word" where
  "decode_table c = (case strchr base64_alphabet c of Some i \<Rightarrow> of_nat i | None \<Rightarrow> 0)"

text \<open>The inner loop: up to \<open>n\<close> sextets, and what is left of the input.\<close>

fun base64_sextets :: "nat \<Rightarrow> string \<Rightarrow> 32 word list \<times> string" where
  "base64_sextets 0 input = ([], input)"
| "base64_sextets (Suc n) [] = ([], [])"
| "base64_sextets (Suc n) (c # input) =
     (if c = CHR ''='' then (case base64_sextets n input of (xs, r) \<Rightarrow> (0 # xs, r))
      else if c = CR \<or> c = LF \<or> c = CHR '' '' then base64_sextets (Suc n) input
      else (case base64_sextets n input of (xs, r) \<Rightarrow> (decode_table c # xs, r)))"

definition base64_bytes :: "32 word list \<Rightarrow> string" where
  "base64_bytes sextet =
     (let valid = length sextet;
          s = sextet @ replicate 4 0;
          triple = push_bit 18 (s ! 0) OR push_bit 12 (s ! 1) OR push_bit 6 (s ! 2) OR s ! 3
      in [char_of (unat (drop_bit 16 triple AND 0xFF))]
         @ (if 2 < valid then [char_of (unat (drop_bit 8 triple AND 0xFF))] else [])
         @ (if 3 < valid then [char_of (unat (triple AND 0xFF))] else []))"

lemma base64_sextets_rest: "base64_sextets n s = (xs, r) \<Longrightarrow> length r + length xs \<le> length s"
  by (induction n s arbitrary: xs r rule: base64_sextets.induct)
    (auto split: if_splits prod.splits intro: le_SucI)

text \<open>The outer loop; \<open>room\<close> is what is left of \<open>out_size - 1\<close>.\<close>

function base64_loop :: "nat \<Rightarrow> string \<Rightarrow> string" where
  "base64_loop room input =
     (if input = [] \<or> room = 0 then []
      else
        (case base64_sextets 4 input of
           (sextet, rest) \<Rightarrow>
             if length sextet < 2 then []
             else take room (base64_bytes sextet)
                  @ base64_loop (room - length (take room (base64_bytes sextet))) rest))"
  by pat_completeness auto
termination
  by (relation "measure (\<lambda>(_, input). length input)") (auto dest!: base64_sextets_rest [OF sym])

declare base64_loop.simps [simp del]

text \<open>
  The bytes written to \<open>output\<close>; their number is the result. The callers pass the sizes of their arrays,
  all \<open>SMTP_BUF_SIZE\<close>; for the size 0, which no caller passes, \<open>out_size - 1\<close> is 0 here and wraps around in C.
\<close>

definition base64_decode :: "string \<Rightarrow> nat \<Rightarrow> string" where
  "base64_decode input out_size = base64_loop (out_size - 1) (cstr input)"

section \<open>The socket\<close>

type_synonym smtp_io = "segment list \<times> bool list"

definition smtp_send :: "smtp_io \<Rightarrow> string \<Rightarrow> bool \<times> smtp_io" where
  "smtp_send io data = (case snd io of [] \<Rightarrow> (True, io) | ok # rest \<Rightarrow> (ok, fst io, rest))"

text \<open>The loop of \<open>smtp_recv_line\<close>, with what is in the buffer; \<open>None\<close> is the result -1.\<close>

function smtp_read :: "nat \<Rightarrow> string \<Rightarrow> segment list \<Rightarrow> string option \<times> segment list" where
  "smtp_read buf_size buf ib =
     (if \<not> length buf < buf_size - 1 then (Some buf, ib)
      else
        (case recv 1 ib of
           (Got c, ib') \<Rightarrow>
             let buf = buf @ c in
             if 2 \<le> length buf \<and> drop (length buf - 2) buf = CRLF
             then (Some (take (length buf - 2) buf), ib')
             else smtp_read buf_size buf ib'
         | (_, ib') \<Rightarrow> (None, ib')))"
  by pat_completeness auto
termination
  by (relation "measure (\<lambda>(_, _, ib). inbox_size ib)") (auto simp: recv_decreases)

declare smtp_read.simps [simp del]

definition smtp_recv_line :: "smtp_io \<Rightarrow> nat \<Rightarrow> string option \<times> smtp_io" where
  "smtp_recv_line io buf_size =
     (case smtp_read buf_size [] (fst io) of (r, ib') \<Rightarrow> (r, ib', snd io))"

text \<open>A line as the callers use it, up to the first NUL and without line ends.\<close>

definition smtp_text :: "string \<Rightarrow> string" where
  "smtp_text line = strip_crlf (cstr line)"

section \<open>AUTH\<close>

definition smtp_handle_auth_login :: "string \<Rightarrow> int \<Rightarrow> smtp_io \<Rightarrow> eff list \<times> smtp_io" where
  "smtp_handle_auth_login ip port io =
     (let (ok, io) = smtp_send io SMTP_AUTH_USERNAME_CHALLENGE;
          es = [Send SMTP_AUTH_USERNAME_CHALLENGE]
      in if \<not> ok then (es, io)
         else case smtp_recv_line io SMTP_BUF_SIZE of
           (None, io) \<Rightarrow> (es, io)
         | (Some line, io) \<Rightarrow>
             let line = smtp_text line;
                 es = es @ [Log UTILITIES_WARN [Str line, Str ip, Num port]];
                 username = cstr (base64_decode line SMTP_BUF_SIZE);
                 (ok, io) = smtp_send io SMTP_AUTH_PASSWORD_CHALLENGE;
                 es = es @ [Send SMTP_AUTH_PASSWORD_CHALLENGE]
             in if \<not> ok then (es, io)
                else case smtp_recv_line io SMTP_BUF_SIZE of
                  (None, io) \<Rightarrow> (es, io)
                | (Some line, io) \<Rightarrow>
                    let line = smtp_text line;
                        password = cstr (base64_decode line SMTP_BUF_SIZE)
                    in (es @ [Log UTILITIES_WARN [Str line, Str ip, Num port],
                              Log UTILITIES_WARN [Str username, Str password, Str ip, Num port],
                              Send SMTP_AUTH_FAILED],
                        snd (smtp_send io SMTP_AUTH_FAILED)))"

text \<open>The user name and the password within the decoded bytes.\<close>

definition smtp_plain_credentials :: "string \<Rightarrow> string \<times> string" where
  "smtp_plain_credentials decoded =
     (case strchr decoded NUL of
        None \<Rightarrow> ([], [])
      | Some i \<Rightarrow>
          let username = drop (i + 1) decoded in
          (cstr username,
           case strchr username NUL of None \<Rightarrow> [] | Some j \<Rightarrow> cstr (drop (j + 1) username)))"

text \<open>The end of \<open>smtp_handle_auth_plain\<close>, once the data are there.\<close>

definition smtp_plain_capture :: "string \<Rightarrow> int \<Rightarrow> string \<Rightarrow> smtp_io \<Rightarrow> eff list \<times> smtp_io" where
  "smtp_plain_capture ip port auth_data io =
     (let (username, password) = smtp_plain_credentials (base64_decode auth_data SMTP_BUF_SIZE)
      in ([Log UTILITIES_WARN [Str auth_data, Str ip, Num port],
           Log UTILITIES_WARN [Str username, Str password, Str ip, Num port],
           Send SMTP_AUTH_FAILED], snd (smtp_send io SMTP_AUTH_FAILED)))"

definition smtp_handle_auth_plain :: "string \<Rightarrow> int \<Rightarrow> smtp_io \<Rightarrow> string option \<Rightarrow> eff list \<times> smtp_io" where
  "smtp_handle_auth_plain ip port io arg =
     (case arg of
        Some a \<Rightarrow> smtp_plain_capture ip port (strncpy a (SMTP_BUF_SIZE - 1)) io
      | None \<Rightarrow>
          let (ok, io) = smtp_send io (''334'' @ CRLF);
              es = [Send (''334'' @ CRLF)]
          in if \<not> ok then (es, io)
             else case smtp_recv_line io SMTP_BUF_SIZE of
               (None, io) \<Rightarrow> (es, io)
             | (Some line, io) \<Rightarrow>
                 let (es', io) = smtp_plain_capture ip port
                                   (strncpy (smtp_text line) (SMTP_BUF_SIZE - 1)) io
                 in (es @ es', io))"

section \<open>DATA\<close>

lemma smtp_read_le: "inbox_size (snd (smtp_read n buf ib)) \<le> inbox_size ib"
proof (induction "inbox_size ib" arbitrary: buf ib rule: less_induct)
  case less
  have "inbox_size (snd (recv 1 ib)) \<le> inbox_size ib"
    by (induction "1 :: nat" ib rule: recv.induct) auto
  moreover have "inbox_size (snd (smtp_read n buf' (snd (recv 1 ib)))) \<le> inbox_size ib"
    if "fst (recv 1 ib) = Got d" for d buf'
    using less [OF recv_decreases' [OF that], of buf'] recv_decreases' [OF that] by simp
  ultimately show ?case
    by (subst smtp_read.simps) (auto simp: Let_def case_prod_beta split: recv_ret.split)
qed

lemma smtp_read_less:
  assumes "fst (smtp_read n [] ib) = Some line" and "1 < n"
  shows "inbox_size (snd (smtp_read n [] ib)) < inbox_size ib"
proof -
  from assms obtain d where d: "fst (recv 1 ib) = Got d"
    by (subst (asm) smtp_read.simps) (auto simp: case_prod_beta split: recv_ret.splits)
  note r = recv_decreases' [OF d]
  have "inbox_size (snd (smtp_read n buf (snd (recv 1 ib)))) < inbox_size ib" for buf
    using smtp_read_le [of n buf "snd (recv 1 ib)"] r by simp
  then show ?thesis using r d assms(2)
    by (subst smtp_read.simps) (simp add: case_prod_beta Let_def)
qed

lemma smtp_recv_line_less:
  "smtp_recv_line io SMTP_BUF_SIZE = (Some line, io') \<Longrightarrow> inbox_size (fst io') < inbox_size (fst io)"
  using smtp_read_less [of SMTP_BUF_SIZE "fst io" line]
  by (auto simp: smtp_recv_line_def SMTP_BUF_SIZE_def case_prod_beta)

text \<open>The loop of \<open>smtp_handle_data\<close>; \<open>None\<close> when the connection ends first.\<close>

function smtp_data_lines :: "string \<Rightarrow> smtp_io \<Rightarrow> string option \<times> smtp_io" where
  "smtp_data_lines data_buf io =
     (if \<not> length data_buf < SMTP_DATA_MAX - 1 then (Some data_buf, io)
      else
        (case smtp_recv_line io SMTP_BUF_SIZE of
           (None, io) \<Rightarrow> (None, io)
         | (Some line, io) \<Rightarrow>
             let line = cstr line in
             if line = ''.'' then (Some data_buf, io)
             else smtp_data_lines
                    (if length data_buf + length line + 2 < SMTP_DATA_MAX
                     then data_buf @ line @ [LF] else data_buf) io))"
  by pat_completeness auto
termination
  by (relation "measure (\<lambda>(_, io). inbox_size (fst io))") (auto dest!: smtp_recv_line_less [OF sym])

declare smtp_data_lines.simps [simp del]

definition smtp_handle_data :: "string \<Rightarrow> int \<Rightarrow> smtp_io \<Rightarrow> eff list \<times> smtp_io" where
  "smtp_handle_data ip port io =
     (let (ok, io) = smtp_send io SMTP_DATA_START;
          es = [Send SMTP_DATA_START]
      in if \<not> ok then (es, io)
         else case smtp_data_lines [] io of
           (None, io) \<Rightarrow> (es, io)
         | (Some data_buf, io) \<Rightarrow>
             let summary = map (\<lambda>c. if c = CR \<or> c = LF then CHR '' '' else c) (take 400 data_buf)
             in (es @ [Log UTILITIES_WARN [Num (int (length data_buf)), Str ip, Num port, Str summary],
                       Send SMTP_DATA_QUEUED],
                 snd (smtp_send io SMTP_DATA_QUEUED)))"

section \<open>Commands\<close>

text \<open>A command that is answered at once: what is logged and the reply.\<close>

definition smtp_reply :: "string \<Rightarrow> int \<Rightarrow> string \<Rightarrow> log_arg list \<times> string" where
  "smtp_reply ip port line =
     (let is = (\<lambda>name. strncaseeq line name (length name));
          arg = (\<lambda>n. [Str (skip_spaces (drop n line)), Str ip, Num port])
      in if is ''EHLO'' \<or> is ''HELO'' then (arg 4, SMTP_EHLO_RESPONSE)
         else if is ''MAIL FROM:'' then (arg 10, SMTP_MAIL_OK)
         else if is ''RCPT TO:'' then (arg 8, SMTP_RCPT_OK)
         else if is ''VRFY'' then (arg 4, SMTP_VRFY_OK)
         else if is ''RSET'' then ([Str ip, Num port], SMTP_RSET_OK)
         else if is ''QUIT'' then ([Str ip, Num port], SMTP_QUIT_OK)
         else ([Str line, Str ip, Num port], SMTP_UNKNOWN_CMD))"

text \<open>One line that is not empty; the last result tells whether the loop goes on.\<close>

definition smtp_command :: "string \<Rightarrow> int \<Rightarrow> smtp_io \<Rightarrow> string \<Rightarrow> eff list \<times> smtp_io \<times> bool" where
  "smtp_command ip port io line =
     (let is = (\<lambda>name. strncaseeq line name (length name));
          (es, io) =
            (if is ''AUTH LOGIN'' then smtp_handle_auth_login ip port io
             else if is ''AUTH PLAIN'' then
               (let arg = skip_spaces (drop 10 line)
                in smtp_handle_auth_plain ip port io (if arg \<noteq> [] then Some arg else None))
             else if is ''DATA'' then smtp_handle_data ip port io
             else
               (let (args, reply) = smtp_reply ip port line
                in ([Log UTILITIES_WARN args, Send reply], snd (smtp_send io reply))))
      in (Log UTILITIES_WARN [Str line, Str ip, Num port] # es, io, \<not> is ''QUIT''))"

section \<open>The command loop\<close>

lemma smtp_send_inbox [simp]: "fst (snd (smtp_send io s)) = fst io"
  by (simp add: smtp_send_def split: list.split)

lemma smtp_recv_line_le: "inbox_size (fst (snd (smtp_recv_line io n))) \<le> inbox_size (fst io)"
  using smtp_read_le [of n "[]" "fst io"] by (simp add: smtp_recv_line_def case_prod_beta)

lemma smtp_data_lines_le: "inbox_size (fst (snd (smtp_data_lines buf io))) \<le> inbox_size (fst io)"
proof (induction "inbox_size (fst io)" arbitrary: buf io rule: less_induct)
  case less
  obtain r io1 where recv: "smtp_recv_line io SMTP_BUF_SIZE = (r, io1)"
    by (cases "smtp_recv_line io SMTP_BUF_SIZE")
  have le: "inbox_size (fst io1) \<le> inbox_size (fst io)"
    using smtp_recv_line_le [of io SMTP_BUF_SIZE] by (simp add: recv)
  have "inbox_size (fst (snd (smtp_data_lines buf' io1))) \<le> inbox_size (fst io)" if "r = Some l" for l buf'
    using less [of io1 buf'] smtp_recv_line_less [of io l io1] recv that by auto
  with le show ?case
    by (subst smtp_data_lines.simps) (auto simp: recv Let_def split: option.split)
qed

lemma smtp_auth_le:
  "inbox_size (fst (snd (smtp_handle_auth_login ip port io))) \<le> inbox_size (fst io)"
  "inbox_size (fst (snd (smtp_handle_auth_plain ip port io arg))) \<le> inbox_size (fst io)"
proof -
  have trans: "inbox_size (fst (snd (smtp_recv_line io' n))) \<le> inbox_size (fst io)"
    if "inbox_size (fst io') \<le> inbox_size (fst io)" for io' n
    using that smtp_recv_line_le [of io' n] by simp
  show "inbox_size (fst (snd (smtp_handle_auth_login ip port io))) \<le> inbox_size (fst io)"
    by (simp add: smtp_handle_auth_login_def Let_def case_prod_beta trans split: option.split)
  show "inbox_size (fst (snd (smtp_handle_auth_plain ip port io arg))) \<le> inbox_size (fst io)"
    by (simp add: smtp_handle_auth_plain_def smtp_plain_capture_def Let_def case_prod_beta trans
        split: option.split)
qed

lemma smtp_handle_data_le: "inbox_size (fst (snd (smtp_handle_data ip port io))) \<le> inbox_size (fst io)"
  using smtp_data_lines_le [of "[]" "snd (smtp_send io SMTP_DATA_START)"]
  by (simp add: smtp_handle_data_def Let_def case_prod_beta split: option.split)

lemma smtp_command_le: "inbox_size (fst (fst (snd (smtp_command ip port io line)))) \<le> inbox_size (fst io)"
  using smtp_auth_le [of ip port io] smtp_handle_data_le [of ip port io]
  by (simp add: smtp_command_def Let_def case_prod_beta)

lemma smtp_command_less:
  "smtp_recv_line io SMTP_BUF_SIZE = (Some line, io1) \<Longrightarrow> smtp_command ip port io1 l = (es, io2, running) \<Longrightarrow>
   inbox_size (fst io2) < inbox_size (fst io)"
  using smtp_command_le [of ip port io1 l] smtp_recv_line_less [of io line io1] by simp

function smtp_loop :: "string \<Rightarrow> int \<Rightarrow> smtp_io \<Rightarrow> eff list" where
  "smtp_loop ip port io =
     (case smtp_recv_line io SMTP_BUF_SIZE of
        (None, _) \<Rightarrow> []
      | (Some line, io) \<Rightarrow>
          let line = smtp_text line in
          if length line = 0 then smtp_loop ip port io
          else
            (case smtp_command ip port io line of
               (es, io, running) \<Rightarrow> if running then es @ smtp_loop ip port io else es))"
  by pat_completeness auto
termination
proof (relation "measure (\<lambda>(_, _, io). inbox_size (fst io))", goal_cases)
  case 1
  show ?case by simp
next
  case 2
  then show ?case by (simp only: in_measure prod.case) (metis smtp_recv_line_less)
next
  case 3
  then show ?case by (simp only: in_measure prod.case) (metis smtp_command_less)
qed

declare smtp_loop.simps [simp del]

text \<open>\<open>outs\<close> is the script of the sends.\<close>

definition run_smtp_service :: "connection \<Rightarrow> bool list \<Rightarrow> segment list \<Rightarrow> eff list" where
  "run_smtp_service conn outs ib =
     (let ip = remote_ip conn; port = uint (remote_port conn); fd = socket_file_descriptor conn;
          (ok, io) = smtp_send (ib, outs) SMTP_BANNER
      in [Log UTILITIES_INFO [Str ip, Num port, Num fd], Send SMTP_BANNER]
         @ (if \<not> ok then [Log UTILITIES_ERROR [Str ip, Num port], Close fd]
            else smtp_loop ip port io @ [Close fd, Log UTILITIES_INFO [Str ip, Num port]]))"

section \<open>Base64 decodes what a client encodes\<close>

definition base64_char :: "nat \<Rightarrow> char" where
  "base64_char n = base64_alphabet ! n"

fun base64_encode :: "string \<Rightarrow> string" where
  "base64_encode [] = []"
| "base64_encode [a] =
     (let A = of_char a in
      [base64_char (A div 4), base64_char (A mod 4 * 16), CHR ''='', CHR ''=''])"
| "base64_encode [a, b] =
     (let A = of_char a; B = of_char b in
      [base64_char (A div 4), base64_char (A mod 4 * 16 + B div 16), base64_char (B mod 16 * 4),
       CHR ''=''])"
| "base64_encode (a # b # c # s) =
     (let A = of_char a; B = of_char b; C = of_char c in
      [base64_char (A div 4), base64_char (A mod 4 * 16 + B div 16),
       base64_char (B mod 16 * 4 + C div 64), base64_char (C mod 64)] @ base64_encode s)"

lemma alphabet_facts: "distinct base64_alphabet" "length base64_alphabet = 64"
  "set base64_alphabet \<inter> {CHR ''='', CR, LF, CHR '' '', NUL} = {}"
  by (simp_all add: base64_alphabet_def)

lemma find_index_nth: "distinct xs \<Longrightarrow> n < length xs \<Longrightarrow> find_index (\<lambda>d. d = xs ! n) xs = Some n"
proof (induction xs arbitrary: n)
  case (Cons x xs)
  then show ?case by (cases n) auto
qed simp

lemma decode_base64_char: "n < 64 \<Longrightarrow> decode_table (base64_char n) = of_nat n"
  using find_index_nth [OF alphabet_facts(1), of n]
  by (simp add: decode_table_def base64_char_def strchr_def alphabet_facts(2))

lemma base64_char_plain:
  assumes "n < 64"
  shows "base64_char n \<notin> {CHR ''='', CR, LF, CHR '' '', NUL}"
proof -
  have "base64_char n \<in> set base64_alphabet" using assms by (simp add: base64_char_def alphabet_facts(2))
  then show ?thesis using alphabet_facts(3) by blast
qed

lemma or_shift:
  assumes "y < 2 ^ k"
  shows "push_bit k x OR y = x * 2 ^ k + (y :: nat)"
proof -
  have y: "take_bit k y = y" using assms by (rule take_bit_nat_eq_self)
  have "push_bit k x AND y = 0"
    by (rule bit_eqI) (subst y [symmetric], auto simp: bit_simps)
  then show ?thesis by (simp add: disjunctive_add_eq_or [symmetric] push_bit_eq_mult)
qed

lemma or_shift_word:
  assumes "y < 2 ^ k"
  shows "push_bit k (of_nat x) OR of_nat y = (of_nat (x * 2 ^ k + y) :: 32 word)"
proof -
  have "push_bit k (of_nat x) OR of_nat y = (of_nat (push_bit k x OR y) :: 32 word)"
    by (simp add: of_nat_or_eq push_bit_eq_mult)
  then show ?thesis by (simp only: or_shift [OF assms])
qed

text \<open>The four sextets of three bytes.\<close>

lemma triple_value:
  assumes "A < 256" "B < 256" "C < (256 :: nat)"
    and "triple = push_bit 18 (of_nat (A div 4)) OR push_bit 12 (of_nat (A mod 4 * 16 + B div 16))
      OR push_bit 6 (of_nat (B mod 16 * 4 + C div 64)) OR (of_nat (C mod 64) :: 32 word)"
  shows "unat triple = A * 65536 + B * 256 + C"
proof -
  have 1: "push_bit 6 (of_nat (B mod 16 * 4 + C div 64)) OR (of_nat (C mod 64) :: 32 word) =
      of_nat ((B mod 16 * 4 + C div 64) * 2 ^ 6 + C mod 64)"
    by (rule or_shift_word) simp
  have 2: "(B mod 16 * 4 + C div 64) * 2 ^ 6 + C mod 64 = B mod 16 * 256 + C" by simp
  have 3: "push_bit 12 (of_nat (A mod 4 * 16 + B div 16)) OR (of_nat (B mod 16 * 256 + C) :: 32 word) =
      of_nat ((A mod 4 * 16 + B div 16) * 2 ^ 12 + (B mod 16 * 256 + C))"
    using assms(3) by (intro or_shift_word) (simp add: less_trans [of _ "15 * 256 + 256"])
  have "x * 4096 + y * 256 = (16 * x + y) * 256" for x y :: nat by simp
  then have b: "B div 16 * 4096 + B mod 16 * 256 = B * 256" by (simp only: mult_div_mod_eq)
  then have 4: "(A mod 4 * 16 + B div 16) * 2 ^ 12 + (B mod 16 * 256 + C) = A mod 4 * 65536 + B * 256 + C"
    by (simp add: b)
  have 5: "push_bit 18 (of_nat (A div 4)) OR (of_nat (A mod 4 * 65536 + B * 256 + C) :: 32 word) =
      of_nat (A div 4 * 2 ^ 18 + (A mod 4 * 65536 + B * 256 + C))"
    using assms(2,3) by (intro or_shift_word) simp
  have "x * 262144 + y * 65536 = (4 * x + y) * 65536" for x y :: nat by simp
  then have a: "A div 4 * 262144 + A mod 4 * 65536 = A * 65536" by (simp only: mult_div_mod_eq)
  then have 6: "A div 4 * 2 ^ 18 + (A mod 4 * 65536 + B * 256 + C) = A * 65536 + B * 256 + C"
    by (simp add: a)
  have "triple = of_nat (A * 65536 + B * 256 + C)"
    unfolding assms(4) 1 2 3 4 5 6 ..
  then show ?thesis using assms(1-3) by (simp add: unat_of_nat del: of_nat_add of_nat_mult)
qed
text \<open>What the decoder makes of the three bytes.\<close>

lemma base_256_digits:
  fixes A B C :: nat
  assumes "A < 256" "B < 256" "C < 256"
  shows "(A * 65536 + B * 256 + C) div 65536 mod 256 = A"
    and "(A * 65536 + B * 256 + C) div 256 mod 256 = B"
    and "(A * 65536 + B * 256 + C) mod 256 = C"
proof -
  have "B * 256 + C < 65536" using assms by simp
  then have "(A * 65536 + (B * 256 + C)) div 65536 = A" by (intro div_nat_eqI) simp_all
  with assms show "(A * 65536 + B * 256 + C) div 65536 mod 256 = A" by (simp add: add.assoc)
  have "(A * 65536 + B * 256 + C) div 256 = A * 256 + B" using assms by (intro div_nat_eqI) simp_all
  with assms show "(A * 65536 + B * 256 + C) div 256 mod 256 = B" by simp
  have "(C + (A * 256 + B) * 256) mod 256 = C" using assms by (simp only: mod_mult_self1 mod_less)
  then show "(A * 65536 + B * 256 + C) mod 256 = C" by (simp add: algebra_simps)
qed

lemma base64_bytes_triple:
  fixes A B C :: nat
  assumes "A < 256" "B < 256" "C < 256"
  shows "base64_bytes [of_nat (A div 4), of_nat (A mod 4 * 16 + B div 16),
      of_nat (B mod 16 * 4 + C div 64), of_nat (C mod 64)] = [char_of A, char_of B, char_of C]"
proof -
  let ?t = "push_bit 18 (of_nat (A div 4)) OR push_bit 12 (of_nat (A mod 4 * 16 + B div 16))
      OR push_bit 6 (of_nat (B mod 16 * 4 + C div 64)) OR (of_nat (C mod 64) :: 32 word)"
  have t: "unat ?t = A * 65536 + B * 256 + C" by (rule triple_value [OF assms refl])
  have "unat (drop_bit 16 ?t AND 0xFF) = (A * 65536 + B * 256 + C) div 2 ^ 16 mod 256"
    "unat (drop_bit 8 ?t AND 0xFF) = (A * 65536 + B * 256 + C) div 2 ^ 8 mod 256"
    "unat (drop_bit 0 ?t AND 0xFF) = (A * 65536 + B * 256 + C) div 2 ^ 0 mod 256"
    by (subst unat_byte_at, simp, unfold t, rule refl)+
  then have "unat (drop_bit 16 ?t AND 0xFF) = A" "unat (drop_bit 8 ?t AND 0xFF) = B"
    "unat (?t AND 0xFF) = C"
    using base_256_digits [OF assms] by (simp_all del: of_nat_add of_nat_mult drop_bit_or)
  then show ?thesis unfolding base64_bytes_def Let_def
    by (simp del: of_nat_add of_nat_mult drop_bit_or)
qed

lemma base64_group_loop:
  assumes "base64_sextets 4 (g @ s) = (xs, s)" "2 \<le> length xs" "g \<noteq> []"
  shows "base64_loop room (g @ s) =
    take room (base64_bytes xs) @ base64_loop (room - length (take room (base64_bytes xs))) s"
  using assms by (subst base64_loop.simps) (auto simp: base64_loop.simps [of 0])
lemma base64_loop_zero [simp]: "base64_loop 0 s = []" "base64_loop n [] = []"
  by (simp_all add: base64_loop.simps)

lemma sextets_four: "base64_sextets 4 = base64_sextets (Suc (Suc (Suc (Suc 0))))"
  by (simp add: numeral_eq_Suc)

lemma sextets_char:
  "n < 64 \<Longrightarrow> base64_sextets (Suc k) (base64_char n # s) =
     (case base64_sextets k s of (xs, r) \<Rightarrow> (of_nat n # xs, r))"
  using base64_char_plain [of n] by (auto simp: decode_base64_char)

lemma sextets_pad:
  "base64_sextets (Suc k) (CHR ''='' # s) = (case base64_sextets k s of (xs, r) \<Rightarrow> (0 # xs, r))"
  by simp

lemmas sextets_eval = sextets_four sextets_char sextets_pad

lemma sextets_bounds:
  fixes A B C :: nat
  assumes "A < 256" "B < 256" "C < 256"
  shows "A div 4 < 64" "A mod 4 * 16 + B div 16 < 64" "B mod 16 * 4 + C div 64 < 64" "C mod 64 < 64"
    "A mod 4 * 16 < 64" "B mod 16 * 4 < 64"
proof -
  have "A mod 4 \<le> 3" "B mod 16 \<le> 15" using mod_less_divisor [of 4 A] mod_less_divisor [of 16 B] by auto
  moreover have "B div 16 \<le> 15" "C div 64 \<le> 3" using assms by auto
  ultimately show "A mod 4 * 16 + B div 16 < 64" "B mod 16 * 4 + C div 64 < 64"
    "A mod 4 * 16 < 64" "B mod 16 * 4 < 64" by auto
qed (use assms in auto)

text \<open>Padding decodes to NUL bytes.\<close>

definition base64_padding :: "string \<Rightarrow> string" where
  "base64_padding s = replicate ((3 - length s mod 3) mod 3) NUL"

lemma char_of_zero: "char_of (0 :: nat) = NUL"
  by (simp add: char_of_def)

lemma base64_quad:
  fixes A B C :: nat
  assumes "A < 256" "B < 256" "C < 256"
    and "base64_sextets 4 (g @ s) = ([of_nat (A div 4), of_nat (A mod 4 * 16 + B div 16),
      of_nat (B mod 16 * 4 + C div 64), of_nat (C mod 64)], s)" "g \<noteq> []"
  shows "base64_loop room (g @ s) = take room [char_of A, char_of B, char_of C] @ base64_loop (room - 3) s"
  using base64_group_loop [OF assms(4) _ assms(5), of room] base64_bytes_triple [OF assms(1-3)]
  by (cases "room < 3") (simp_all add: numeral_3_eq_3)

lemma base64_loop_encode:
  "base64_loop room (base64_encode s) = take room (s @ base64_padding s)"
proof (induction s arbitrary: room rule: base64_encode.induct)
  case (2 a)
  let ?A = "of_char a :: nat"
  have "base64_loop room (base64_encode [a] @ []) =
      take room [char_of ?A, char_of (0 :: nat), char_of (0 :: nat)] @ base64_loop (room - 3) []"
    using sextets_bounds [of ?A 0 0]
    by (intro base64_quad) (simp_all add: Let_def sextets_eval del: base64_sextets.simps(3) of_nat_add of_nat_mult)
  then show ?case by (simp add: base64_padding_def numeral_2_eq_2 char_of_zero)
next
  case (3 a b)
  let ?A = "of_char a :: nat" and ?B = "of_char b :: nat"
  have "base64_loop room (base64_encode [a, b] @ []) =
      take room [char_of ?A, char_of ?B, char_of (0 :: nat)] @ base64_loop (room - 3) []"
    using sextets_bounds [of ?A ?B 0]
    by (intro base64_quad) (simp_all add: Let_def sextets_eval del: base64_sextets.simps(3) of_nat_add of_nat_mult)
  then show ?case by (simp add: base64_padding_def numeral_2_eq_2 char_of_zero)
next
  case (4 a b c s)
  let ?A = "of_char a :: nat" and ?B = "of_char b :: nat" and ?C = "of_char c :: nat"
  let ?g = "[base64_char (?A div 4), base64_char (?A mod 4 * 16 + ?B div 16),
       base64_char (?B mod 16 * 4 + ?C div 64), base64_char (?C mod 64)]"
  have "base64_loop room (?g @ base64_encode s) =
      take room [char_of ?A, char_of ?B, char_of ?C] @ base64_loop (room - 3) (base64_encode s)"
    using sextets_bounds [of ?A ?B ?C]
    by (intro base64_quad) (simp_all add: sextets_eval del: base64_sextets.simps(3) of_nat_add of_nat_mult)
  moreover have "base64_padding (a # b # c # s) = base64_padding s" by (simp add: base64_padding_def)
  ultimately show ?case using 4 by (simp add: Let_def take_Cons' numeral_3_eq_3)
qed (simp add: base64_padding_def)
lemma sextets_of_char [simp]:
  "(of_char a :: nat) div 4 < 64" "(of_char a :: nat) mod 4 * 16 < 64"
  "(of_char a :: nat) mod 4 * 16 + of_char b div 16 < 64"
  "(of_char b :: nat) mod 16 * 4 < 64" "(of_char b :: nat) mod 16 * 4 + of_char c div 64 < 64"
  "(of_char c :: nat) mod 64 < 64"
  using sextets_bounds [of "of_char a" "of_char b" "of_char c"] by simp_all

lemma set_base64_encode: "set (base64_encode s) \<inter> {NUL, CR, LF, CHR '' ''} = {}"
proof -
  have "base64_char n \<notin> {NUL, CR, LF, CHR '' ''}" if "n < 64" for n
    using base64_char_plain [OF that] by blast
  from this [OF sextets_of_char(1)] this [OF sextets_of_char(2)] this [OF sextets_of_char(3)]
    this [OF sextets_of_char(4)] this [OF sextets_of_char(5)] this [OF sextets_of_char(6)]
  show ?thesis by (induction s rule: base64_encode.induct) (simp_all add: Let_def)
qed

lemma nul_free_base64_encode: "nul_free (base64_encode s)"
  using set_base64_encode [of s] by (auto simp: nul_free_def)


lemma base64_decode_encode:
  "base64_decode (base64_encode s) n = take (n - 1) (s @ base64_padding s)"
  by (simp add: base64_decode_def nul_free_base64_encode base64_loop_encode)

section \<open>Lines\<close>

lemma recv_one_byte:
  assumes "stream ib = c # s"
  shows "\<exists>ib'. recv 1 ib = (Got [c], ib') \<and> stream ib' = s"
  using assms
proof (cases ib)
  case (Cons seg ib0)
  with assms obtain t where t: "seg = Data (c # t)" "s = t @ stream ib0"
    by (cases seg) (auto split: if_splits simp: append_eq_Cons_conv)
  with Cons show ?thesis by (cases t) auto
qed simp

lemma smtp_read_stream:
  assumes "stream ib = l @ CRLF @ rest" "CR \<notin> set l" "length buf + length l + 2 < n"
    and "buf = [] \<or> last buf \<noteq> CR"
  shows "\<exists>ib'. smtp_read n buf ib = (Some (buf @ l), ib') \<and> stream ib' = rest"
  using assms
proof (induction l arbitrary: buf ib)
  case Nil
  from recv_one_byte [of ib CR "LF # rest"] Nil obtain ib1 where
    r1: "recv 1 ib = (Got [CR], ib1)" "stream ib1 = LF # rest" by auto
  from recv_one_byte [OF r1(2)] obtain ib2 where r2: "recv 1 ib1 = (Got [LF], ib2)" "stream ib2 = rest"
    by blast
  have "smtp_read n buf ib = smtp_read n (buf @ [CR]) ib1"
    using Nil r1 by (subst smtp_read.simps) (auto simp: Let_def)
  also have "\<dots> = (Some buf, ib2)"
    using Nil r2 by (subst smtp_read.simps) (auto simp: Let_def)
  finally show ?case using r2 by simp
next
  case (Cons c l)
  then have c: "c \<noteq> CR" by auto
  from recv_one_byte [of ib c "l @ CRLF @ rest"] Cons.prems obtain ib1 where
    r1: "recv 1 ib = (Got [c], ib1)" "stream ib1 = l @ CRLF @ rest" by auto
  have "drop (length (buf @ [c]) - 2) (buf @ [c]) \<noteq> CRLF"
    using Cons.prems(4) by (cases buf rule: rev_cases) auto
  then have "smtp_read n buf ib = smtp_read n (buf @ [c]) ib1"
    using Cons.prems r1 by (subst smtp_read.simps) (auto simp: Let_def)
  with Cons.IH [OF r1(2), of "buf @ [c]"] Cons.prems c show ?case by simp
qed

text \<open>A line a client may send: no NUL, no line end, and it fits the buffer.\<close>

definition smtp_line :: "string \<Rightarrow> bool" where
  "smtp_line l \<longleftrightarrow> set l \<inter> {NUL, CR, LF} = {} \<and> length l + 2 < SMTP_BUF_SIZE"

lemma smtp_line_text: "smtp_line l \<Longrightarrow> cstr l = l" "smtp_line l \<Longrightarrow> smtp_text l = l"
  by (auto simp: smtp_line_def smtp_text_def nul_free_def strip_crlf_no_crlf)

lemma smtp_recv_line_stream:
  assumes "stream (fst io) = l @ CRLF @ rest" "smtp_line l"
  shows "\<exists>ib'. smtp_recv_line io SMTP_BUF_SIZE = (Some l, ib', snd io) \<and> stream ib' = rest"
  using smtp_read_stream [OF assms(1), of "[]" SMTP_BUF_SIZE] assms(2)
  by (auto simp: smtp_recv_line_def smtp_line_def)

section \<open>Credentials\<close>









lemma smtp_send_ok [simp]: "smtp_send (ib, []) s = (True, ib, [])"
  by (simp add: smtp_send_def)




section \<open>Properties\<close>

text \<open>C22: The Base64 decoder inverts the encoding of every byte string, up to the capacity of the
  output buffer, of which the last byte is kept for the terminator; the padding decodes to NUL bytes.\<close>

theorem base64_round_trip:
  "base64_decode (base64_encode s) n = take (n - 1) (s @ base64_padding s)"
  by (rule base64_decode_encode)



section \<open>Mail\<close>

lemma smtp_data_lines_stream:
  assumes "list_all (\<lambda>l. smtp_line l \<and> l \<noteq> ''.'') ls"
    and "stream (fst io) = concat (map (\<lambda>l. l @ CRLF) (ls @ [''.''])) @ rest"
    and "length buf + length (concat (map (\<lambda>l. l @ [LF]) ls)) + 2 < SMTP_DATA_MAX"
  shows "\<exists>ib'. smtp_data_lines buf io = (Some (buf @ concat (map (\<lambda>l. l @ [LF]) ls)), ib', snd io)
    \<and> stream ib' = rest"
  using assms
proof (induction ls arbitrary: buf io)
  case Nil
  have dot: "smtp_line ''.''" by (simp add: smtp_line_def SMTP_BUF_SIZE_def)
  from Nil smtp_recv_line_stream [OF _ dot, of io rest] obtain ib' where
    "smtp_recv_line io SMTP_BUF_SIZE = (Some ''.'', ib', snd io)" "stream ib' = rest" by auto
  with Nil show ?case by (subst smtp_data_lines.simps) (auto simp: Let_def)
next
  case (Cons l ls)
  then have l: "smtp_line l" "l \<noteq> ''.''" by auto
  let ?rest = "concat (map (\<lambda>l. l @ CRLF) (ls @ [''.''])) @ rest"
  from Cons.prems(2) have "stream (fst io) = l @ CRLF @ ?rest" by simp
  from smtp_recv_line_stream [OF this l(1)] obtain ib1 where
    1: "smtp_recv_line io SMTP_BUF_SIZE = (Some l, ib1, snd io)" "stream ib1 = ?rest" by blast
  have "smtp_data_lines buf io = smtp_data_lines (buf @ l @ [LF]) (ib1, snd io)"
    using Cons.prems(3) 1 l(2) smtp_line_text(1) [OF l(1)]
    by (subst smtp_data_lines.simps) (auto simp: Let_def)
  with Cons.IH [of "(ib1, snd io)" "buf @ l @ [LF]"] Cons.prems 1(2) show ?case by simp
qed

definition smtp_summary :: "string \<Rightarrow> string" where
  "smtp_summary m = map (\<lambda>c. if c = CR \<or> c = LF then CHR '' '' else c) (take 400 m)"

text \<open>C24: A mail of up to about 64 kB that arrives line by line is taken whole: its number of bytes and
  its first 400 bytes on one line are logged, it is reported as queued, and the lines after the
  final dot are commands again, when the two \<open>send\<close> calls succeed (their script is \<open>[]\<close>).\<close>

theorem smtp_mail_captured:
  assumes "list_all (\<lambda>l. smtp_line l \<and> l \<noteq> ''.'') ls"
    and "stream ib = concat (map (\<lambda>l. l @ CRLF) (ls @ [''.''])) @ rest"
    and "length (concat (map (\<lambda>l. l @ [LF]) ls)) + 2 < SMTP_DATA_MAX"
  shows "\<exists>ib'. smtp_command ip port (ib, []) ''DATA'' =
      ([Log UTILITIES_WARN [Str ''DATA'', Str ip, Num port], Send SMTP_DATA_START,
        Log UTILITIES_WARN [Num (int (length (concat (map (\<lambda>l. l @ [LF]) ls)))), Str ip, Num port,
          Str (smtp_summary (concat (map (\<lambda>l. l @ [LF]) ls)))],
        Send SMTP_DATA_QUEUED], (ib', []), True)
    \<and> stream ib' = rest"
proof -
  from smtp_data_lines_stream [OF assms(1), of "(ib, [])" rest "[]"] assms(2,3) obtain ib' where
    "smtp_data_lines [] (ib, []) = (Some (concat (map (\<lambda>l. l @ [LF]) ls)), ib', [])" "stream ib' = rest"
    by auto
  then show ?thesis
    by (auto simp: smtp_command_def smtp_handle_data_def smtp_summary_def strncaseeq_def char_eval)
qed

theorem smtp_mail_captured_witness:
  "\<exists>ib'. smtp_command ''10.0.0.1'' 4711
      ([Data (''Hi'' @ CRLF @ ''.''), Data (CRLF @ ''QUIT'' @ CRLF)], []) ''DATA'' =
      ([Log UTILITIES_WARN [Str ''DATA'', Str ''10.0.0.1'', Num 4711], Send SMTP_DATA_START,
        Log UTILITIES_WARN [Num 3, Str ''10.0.0.1'', Num 4711, Str ''Hi ''],
        Send SMTP_DATA_QUEUED], (ib', []), True)
    \<and> stream ib' = ''QUIT'' @ CRLF"
  using smtp_mail_captured [of "[''Hi'']" "[Data (''Hi'' @ CRLF @ ''.''), Data (CRLF @ ''QUIT'' @ CRLF)]"
      "''QUIT'' @ CRLF" "''10.0.0.1''" 4711]
  by (simp add: smtp_line_def SMTP_BUF_SIZE_def SMTP_DATA_MAX_def smtp_summary_def)

section \<open>The audit trail\<close>

text \<open>An effect that is neither a record nor a close.\<close>

fun unrecorded :: "eff \<Rightarrow> bool" where
  "unrecorded (Send s) \<longleftrightarrow> True"
| "unrecorded (Log l as) \<longleftrightarrow> True"
| "unrecorded e \<longleftrightarrow> False"

lemma unrecorded_effects: "list_all unrecorded es \<Longrightarrow> audits es = [] \<and> closes es = []"
  by (induction es) (auto split: eff.splits)

lemma smtp_command_unrecorded: "list_all unrecorded (fst (smtp_command ip port io line))"
  by (simp add: smtp_command_def smtp_handle_auth_login_def smtp_handle_auth_plain_def
      smtp_plain_capture_def smtp_handle_data_def Let_def case_prod_beta split: option.split)

lemma smtp_loop_unrecorded: "list_all unrecorded (smtp_loop ip port io)"
proof (induction ip port io rule: smtp_loop.induct)
  case (1 ip port io)
  show ?case
    using 1 smtp_command_unrecorded [of ip port]
    by (subst smtp_loop.simps) (auto simp: Let_def split: option.splits prod.splits; metis fst_conv)
qed

text \<open>
  The SMTP service closes its socket once, whatever happens, but nothing of its sessions reaches
  the audit trail: the captured credentials and mails are in the log only.
\<close>

theorem smtp_session_not_audited:
  "audits (run_smtp_service conn outs ib) = []
   \<and> closes (run_smtp_service conn outs ib) = [socket_file_descriptor conn]"
  using unrecorded_effects [OF smtp_loop_unrecorded]
  by (simp add: run_smtp_service_def Let_def case_prod_beta)

end
