(* ===== verification/Postgresql_Honeypot.thy ===== *)
theory Postgresql_Honeypot
  imports Service
begin

text \<open>
  src/service/postgresql_honeypot.c: a fake PostgreSQL server that asks for an MD5 password. The
  startup message, the packets, the session.

  The receive buffer lies on the stack and is not cleared: \<open>stack\<close> is what the memory from
  \<open>buf\<close> on, beyond its end too, holds before the first \<open>recv\<close>.
\<close>

section \<open>Constants\<close>

definition PG_RECV_BUFFER_SIZE :: nat where "PG_RECV_BUFFER_SIZE = 4096"
definition PG_PROTOCOL_VERSION_3 :: nat where "PG_PROTOCOL_VERSION_3 = 196608"
definition PG_AUTH_MD5 :: nat where "PG_AUTH_MD5 = 5"
definition PG_SALT_LEN :: nat where "PG_SALT_LEN = 4"

lemmas pg_consts = PG_RECV_BUFFER_SIZE_def PG_PROTOCOL_VERSION_3_def PG_AUTH_MD5_def PG_SALT_LEN_def

definition pg_generate_session_id :: "nat \<Rightarrow> int \<Rightarrow> int \<Rightarrow> int \<Rightarrow> string" where
  "pg_generate_session_id len fd tv_sec tv_nsec =
     snprintf len (''pg_'' @ dec_int fd @ ''_'' @ dec_int tv_sec @ ''_'' @ dec_int tv_nsec)"

section \<open>The startup message\<close>

text \<open>
  The loop over the parameters: the memory from \<open>params\<close> on and the number of bytes remaining;
  \<open>None\<close> is the result -1.
\<close>

function pg_params :: "nat \<Rightarrow> string \<Rightarrow> nat \<Rightarrow> string option" where
  "pg_params usize params remaining =
     (if \<not> 1 < remaining then None
      else
        let key_len = strnlen params remaining in
        if key_len = 0 \<or> remaining \<le> key_len then None
        else
          let key = take key_len params;
              params = drop (key_len + 1) params;
              remaining = remaining - (key_len + 1)
          in if remaining = 0 then None
             else
               let val_len = strnlen params remaining;
                   val = params;
                   params = drop (val_len + 1) params;
                   remaining = remaining - (if val_len < remaining then val_len + 1 else remaining)
               in if key = ''user'' then Some (strncpy (cstr val) (usize - 1))
                  else pg_params usize params remaining)"
  by pat_completeness auto
termination
  by (relation "measure (\<lambda>(_, _, remaining). remaining)") auto

declare pg_params.simps [simp del]

definition pg_parse_startup_username :: "string \<Rightarrow> nat \<Rightarrow> nat \<Rightarrow> string option" where
  "pg_parse_startup_username buf n usize =
     (if n \<le> 8 then None else pg_params usize (drop 8 buf) (n - 8))"

section \<open>Packets\<close>

definition pg_send_auth_md5 :: "string \<Rightarrow> eff" where
  "pg_send_auth_md5 salt = Send (''R'' @ htonl 12 @ htonl PG_AUTH_MD5 @ take PG_SALT_LEN salt)"

text \<open>The packet of \<open>pg_send_error_response\<close>, built in a buffer of 512 bytes.\<close>

definition pg_error_packet :: "string \<Rightarrow> string \<Rightarrow> string \<Rightarrow> string" where
  "pg_error_packet severity code message =
     (let fields = ''S'' @ severity @ [NUL] @ ''V'' @ severity @ [NUL] @ ''C'' @ code @ [NUL]
                   @ ''M'' @ message @ [NUL] @ [NUL];
          pos = 1 + 4 + length fields
      in ''E'' @ htonl (pos - 1) @ fields)"

definition pg_send_error_response :: "string \<Rightarrow> string \<Rightarrow> string \<Rightarrow> eff" where
  "pg_send_error_response severity code message = Send (pg_error_packet severity code message)"

definition pg_failure_message :: "string \<Rightarrow> string" where
  "pg_failure_message username =
     snprintf 512 (''password authentication failed for user '' @ [QUOTE] @ username @ [QUOTE])"

section \<open>The session\<close>

text \<open>The salt: four values of \<open>rand() % 256\<close>.\<close>

definition pg_salt :: "(nat \<Rightarrow> nat) \<Rightarrow> string" where
  "pg_salt rand = map (\<lambda>i. char_of (rand i mod 256)) [0..<PG_SALT_LEN]"

text \<open>From the password message on.\<close>

definition pg_password :: "string \<Rightarrow> int \<Rightarrow> string \<Rightarrow> string \<Rightarrow> segment list \<Rightarrow> eff list" where
  "pg_password ip port sid username ib =
     (case recv PG_RECV_BUFFER_SIZE ib of
        (Got d, _) \<Rightarrow>
          if 5 < length d \<and> hd d = CHR ''p'' then
            let pw_len = strnlen (drop 5 d) (length d - 5);
                pw_len = (if 256 \<le> pw_len then 256 - 1 else pw_len);
                password_hash = take pw_len (drop 5 d)
            in [Log UTILITIES_WARN [Str username, Str password_hash, Str ip, Num port],
                Audit (audit_record_auth POSTGRESQL_PROTOCOL ip port sid username (Some password_hash) False),
                pg_send_error_response ''FATAL'' ''28P01'' (pg_failure_message username)]
          else [Log UTILITIES_WARN [Str ip, Num port]]
      | _ \<Rightarrow> [Log UTILITIES_WARN [Str ip, Num port]])"

text \<open>From the check of the protocol version on; \<open>n\<close> bytes of the memory \<open>buf\<close> were received.\<close>

definition pg_authenticate ::
  "string \<Rightarrow> int \<Rightarrow> string \<Rightarrow> (nat \<Rightarrow> nat) \<Rightarrow> string \<Rightarrow> nat \<Rightarrow> segment list \<Rightarrow> eff list" where
  "pg_authenticate ip port sid rand buf n ib =
     (let proto_ver = be32 (drop 4 buf) in
      if proto_ver \<noteq> PG_PROTOCOL_VERSION_3 then
        [Log UTILITIES_WARN [Num (int proto_ver), Str ip, Num port],
         pg_send_error_response ''FATAL'' ''08004'' ''unsupported protocol version'']
      else
        let username = (case pg_parse_startup_username buf n 256 of Some u \<Rightarrow> u | None \<Rightarrow> [])
        in [Log UTILITIES_INFO [Str username, Str ip, Num port], pg_send_auth_md5 (pg_salt rand)]
           @ pg_password ip port sid username ib)"

definition pg_body ::
  "string \<Rightarrow> int \<Rightarrow> string \<Rightarrow> (nat \<Rightarrow> nat) \<Rightarrow> string \<Rightarrow> segment list \<Rightarrow> eff list" where
  "pg_body ip port sid rand stack ib =
     (case recv PG_RECV_BUFFER_SIZE ib of
        (Got d, ib) \<Rightarrow>
          if length d < 8 then [Log UTILITIES_WARN [Num (int (length d)), Str ip, Num port]]
          else
            let buf = overlay d stack; msg_len = be32 buf; proto_ver = be32 (drop 4 buf);
                es = [Log UTILITIES_DEBUG [Num (int msg_len), Num (int proto_ver), Str ip, Num port]]
            in if proto_ver = 80877103 then
                 es @ [Log UTILITIES_INFO [Str ip, Num port], Send ''N'']
                 @ (case recv PG_RECV_BUFFER_SIZE ib of
                      (Got d, ib) \<Rightarrow>
                        if length d \<le> 8 then [Log UTILITIES_WARN [Str ip, Num port]]
                        else pg_authenticate ip port sid rand (overlay d buf) (length d) ib
                    | _ \<Rightarrow> [Log UTILITIES_WARN [Str ip, Num port]])
               else es @ pg_authenticate ip port sid rand buf (length d) ib
      | _ \<Rightarrow> [Log UTILITIES_WARN [Str ip, Num port]])"

text \<open>\<open>sid\<close> is the identifier \<open>pg_generate_session_id\<close> gives the session.\<close>

definition run_postgresql_service ::
  "(nat \<Rightarrow> nat) \<Rightarrow> string \<Rightarrow> string \<Rightarrow> connection \<Rightarrow> segment list \<Rightarrow> eff list" where
  "run_postgresql_service rand stack sid conn ib =
     (let ip = remote_ip conn; port = uint (remote_port conn); fd = socket_file_descriptor conn
      in [Log UTILITIES_INFO [Str ip, Num port, Num fd],
          Audit (audit_record_connection POSTGRESQL_PROTOCOL ip port sid)]
         @ pg_body ip port sid rand stack ib
         @ [Log UTILITIES_INFO [Str ip, Num port],
            Audit (audit_record_disconnect POSTGRESQL_PROTOCOL ip port sid), Close fd])"

section \<open>Sessions are audited\<close>

lemma pg_body_inner: "list_all (inner POSTGRESQL_PROTOCOL ip port sid) (pg_body ip port sid rand stack ib)"
  by (simp add: pg_body_def pg_authenticate_def pg_password_def pg_send_auth_md5_def
      pg_send_error_response_def Let_def case_prod_beta split: recv_ret.split)

interpretation pg: audited_service POSTGRESQL_PROTOCOL "run_postgresql_service rand stack" for rand stack
proof (unfold_locales, goal_cases)
  case (1 sid c ib)
  let ?ip = "remote_ip c" and ?port = "uint (remote_port c)" and ?fd = "socket_file_descriptor c"
  show ?case
    using pg_body_inner [of ?ip ?port sid rand stack ib]
    by (intro exI [of _ "[Log UTILITIES_INFO [Str ?ip, Num ?port, Num ?fd]]"]
        exI [of _ "pg_body ?ip ?port sid rand stack ib @ [Log UTILITIES_INFO [Str ?ip, Num ?port]]"]
        exI [of _ "[Close ?fd]"])
      (simp add: run_postgresql_service_def Let_def)
qed

section \<open>Big-endian numbers\<close>

lemma length_htonl [simp]: "length (htonl n) = 4"
  by (simp add: htonl_def)

lemma base_256_four: "a < 2 ^ 32 \<Longrightarrow>
  (a div 2 ^ 24 mod 256) * 2 ^ 24 + (a div 2 ^ 16 mod 256) * 2 ^ 16 + (a div 2 ^ 8 mod 256) * 2 ^ 8 + a mod 256 = (a :: nat)"
proof -
  assume "a < 2 ^ 32"
  then have 1: "a div 2 ^ 24 mod 256 = a div 2 ^ 24" by (simp add: less_mult_imp_div_less)
  have "a div 2 ^ 16 = a div 2 ^ 24 * 256 + a div 2 ^ 16 mod 256"
    using div_mult_mod_eq [of "a div 2 ^ 16" 256] by (simp add: div_mult2_eq [symmetric])
  moreover have "a div 2 ^ 8 = a div 2 ^ 16 * 256 + a div 2 ^ 8 mod 256"
    using div_mult_mod_eq [of "a div 2 ^ 8" 256] by (simp add: div_mult2_eq [symmetric])
  moreover have "a = a div 2 ^ 8 * 256 + a mod 256" by simp
  moreover have "z * 2 ^ 24 + p * 2 ^ 16 + q * 2 ^ 8 + r = a"
    if "y = z * 256 + p" "x = y * 256 + q" "a = x * 256 + r" for x y z p q r
    using that by simp
  ultimately show ?thesis unfolding 1 by blast
qed

lemma be32_htonl: "n < 2 ^ 32 \<Longrightarrow> be32 (htonl n @ s) = n"
  using base_256_four [of n] by (simp add: be32_def htonl_def nth_append)

text \<open>A packet of the protocol: a type, the length of the rest, the rest.\<close>

definition wire_framed :: "string \<Rightarrow> bool" where
  "wire_framed p \<longleftrightarrow> 5 \<le> length p \<and> be32 (tl p) = length p - 1"

fun framed_eff :: "eff \<Rightarrow> bool" where
  "framed_eff (Send p) \<longleftrightarrow> p = ''N'' \<or> wire_framed p"
| "framed_eff e \<longleftrightarrow> True"

lemma framed_effects: "list_all framed_eff es \<Longrightarrow> list_all (\<lambda>p. p = ''N'' \<or> wire_framed p) (sends es)"
  by (induction es) (auto split: eff.splits)

lemma wire_framedI: "n = 4 + length s \<Longrightarrow> n < 2 ^ 32 \<Longrightarrow> wire_framed (c # htonl n @ s)"
  by (simp add: wire_framed_def be32_htonl)

lemma error_packet_framed: "2 * length s + length c + length m < 2 ^ 31 \<Longrightarrow> wire_framed (pg_error_packet s c m)"
  by (simp add: pg_error_packet_def Let_def wire_framedI)

lemma pg_body_framed: "list_all framed_eff (pg_body ip port sid rand stack ib)"
proof -
  have "length (pg_failure_message u) \<le> 512 - 1" for u
    unfolding pg_failure_message_def by (rule length_snprintf_le)
  then have "wire_framed (pg_error_packet ''FATAL'' ''28P01'' (pg_failure_message u))" for u
    by (intro error_packet_framed) (simp add: le_less_trans [of _ 511])
  moreover have "wire_framed (pg_error_packet ''FATAL'' ''08004'' ''unsupported protocol version'')"
    by (rule error_packet_framed) simp
  moreover have "framed_eff (pg_send_auth_md5 (pg_salt rand))"
    by (simp add: pg_send_auth_md5_def pg_salt_def pg_consts wire_framedI)
  ultimately show ?thesis
    by (simp add: pg_body_def pg_authenticate_def pg_password_def pg_send_error_response_def
        Let_def case_prod_beta split: recv_ret.split)
qed

section \<open>Startup messages\<close>

text \<open>What a client sends: the request for TLS, and the startup message with its parameters.\<close>

definition pg_ssl_request :: string where
  "pg_ssl_request = htonl 8 @ htonl 80877103"

definition pg_params_bytes :: "(string \<times> string) list \<Rightarrow> string" where
  "pg_params_bytes kvs = concat (map (\<lambda>(k, v). k @ [NUL] @ v @ [NUL]) kvs)"

definition pg_startup :: "(string \<times> string) list \<Rightarrow> string" where
  "pg_startup kvs = htonl (9 + length (pg_params_bytes kvs)) @ htonl PG_PROTOCOL_VERSION_3
     @ pg_params_bytes kvs @ [NUL]"

definition pg_param_ok :: "string \<times> string \<Rightarrow> bool" where
  "pg_param_ok kv \<longleftrightarrow> fst kv \<noteq> [] \<and> nul_free (fst kv) \<and> nul_free (snd kv)"

lemma pg_params_step:
  assumes "pg_param_ok (k, v)" and "length k + length v + 2 < n"
  shows "pg_params usize (k @ NUL # v @ NUL # mem) n =
    (if k = ''user'' then Some (take (usize - 1) v)
     else pg_params usize mem (n - (length k + length v + 2)))"
proof -
  have kv: "k \<noteq> []" "nul_free k" "nul_free v" using assms(1) by (auto simp: pg_param_ok_def)
  have "strnlen (k @ NUL # v @ NUL # mem) n = length k"
    using kv(2) assms(2) by (intro strnlen_nul) simp_all
  moreover have "strnlen (v @ NUL # mem) (n - (length k + 1)) = length v"
    using kv(3) assms(2) by (intro strnlen_nul) simp_all
  moreover have "cstr (v @ NUL # mem) = v" using kv(3) by simp
  moreover have "n - Suc (length k) - Suc (length v) = n - Suc (Suc (length k + length v))" by simp
  ultimately show ?thesis using kv(1) assms(2)
    by (subst pg_params.simps) (simp add: Let_def strncpy_def)
qed

text \<open>The first parameter called \<open>user\<close>.\<close>

lemma pg_params_find:
  assumes "list_all pg_param_ok (pre @ [(''user'', u)])" and "''user'' \<notin> fst ` set pre"
    and "length (pg_params_bytes (pre @ [(''user'', u)])) < n"
  shows "pg_params usize (pg_params_bytes (pre @ [(''user'', u)]) @ mem) n = Some (take (usize - 1) u)"
  using assms
proof (induction pre arbitrary: n)
  case Nil
  then show ?case using pg_params_step [of "''user''" u n usize mem] by (simp add: pg_params_bytes_def)
next
  case (Cons kv pre)
  obtain k v where kv: "kv = (k, v)" by force
  let ?rest = "pg_params_bytes (pre @ [(''user'', u)])"
  have bytes: "pg_params_bytes ((kv # pre) @ [(''user'', u)]) @ mem = k @ NUL # v @ NUL # ?rest @ mem"
    by (simp add: pg_params_bytes_def kv)
  have "length k + length v + 2 + length ?rest < n"
    using Cons.prems(3) by (simp add: pg_params_bytes_def kv)
  with pg_params_step [of k v n usize "?rest @ mem"] Cons show ?case
    by (simp only: bytes) (auto simp: kv)
qed

lemma pg_startup_user:
  assumes "list_all pg_param_ok (pre @ [(''user'', u)])" and "''user'' \<notin> fst ` set pre"
  shows "pg_parse_startup_username (overlay (pg_startup (pre @ (''user'', u) # post)) mem)
      (length (pg_startup (pre @ (''user'', u) # post))) 256 = Some (take 255 u)"
proof -
  let ?p = "pg_params_bytes (pre @ [(''user'', u)])" and ?q = "pg_params_bytes post"
  let ?m = "pg_startup (pre @ (''user'', u) # post)"
  have m: "?m = htonl (9 + length ?p + length ?q) @ htonl PG_PROTOCOL_VERSION_3 @ ?p @ ?q @ [NUL]"
    by (simp add: pg_startup_def pg_params_bytes_def add.assoc)
  then have "drop 8 (overlay ?m mem) = ?p @ ?q @ NUL # drop (length ?m) mem"
    by (simp add: overlay_def)
  moreover have "length ?m - 8 = length ?p + length ?q + 1" "8 < length ?m"
    unfolding m by simp_all
  ultimately show ?thesis
    using pg_params_find [OF assms, of "length ?m - 8" 256 "?q @ NUL # drop (length ?m) mem"]
    by (simp add: pg_parse_startup_username_def)
qed

section \<open>Dialogues\<close>

text \<open>A login: parameters, the user among them, and the answer to the challenge.\<close>

definition pg_password_message :: "string \<Rightarrow> string" where
  "pg_password_message h = ''p'' @ htonl (5 + length h) @ h @ [NUL]"

lemma recv_whole: "m \<noteq> [] \<Longrightarrow> length m \<le> n \<Longrightarrow> recv n (Data m # ib) = (Got m, ib)"
  by simp

lemma pg_password_captured:
  assumes "nul_free h" "length h \<le> 255"
  shows "pg_password ip port sid u (Data (pg_password_message h) # ib) =
    [Log UTILITIES_WARN [Str u, Str h, Str ip, Num port],
     Audit (audit_record_auth POSTGRESQL_PROTOCOL ip port sid u (Some h) False),
     pg_send_error_response ''FATAL'' ''28P01'' (pg_failure_message u)]"
proof -
  let ?m = "pg_password_message h"
  have m: "?m \<noteq> []" "length ?m = 6 + length h" "hd ?m = CHR ''p''" "drop 5 ?m = h @ [NUL]"
    by (simp_all add: pg_password_message_def)
  then have r: "recv PG_RECV_BUFFER_SIZE (Data ?m # ib) = (Got ?m, ib)"
    using assms(2) by (intro recv_whole) (simp_all add: pg_consts)
  have "strnlen (h @ [NUL]) (length ?m - 5) = length h"
    using assms(1) m(2) by (intro strnlen_nul) simp_all
  then show ?thesis using assms(2) m
    by (simp only: pg_password_def r prod.case recv_ret.case) (simp add: Let_def)
qed

lemma length_pg_startup: "length (pg_startup kvs) = 9 + length (pg_params_bytes kvs)"
  by (simp add: pg_startup_def)

lemma pg_startup_version: "be32 (drop 4 (overlay (pg_startup kvs) mem)) = PG_PROTOCOL_VERSION_3"
  using be32_htonl [of PG_PROTOCOL_VERSION_3] by (simp add: pg_startup_def overlay_def pg_consts)

lemma pg_login:
  assumes "list_all pg_param_ok (pre @ [(''user'', u)])" and "''user'' \<notin> fst ` set pre"
    and "nul_free h" "length h \<le> 255" "length u \<le> 255"
  shows "pg_authenticate ip port sid rand (overlay (pg_startup (pre @ (''user'', u) # post)) mem)
      (length (pg_startup (pre @ (''user'', u) # post))) (Data (pg_password_message h) # ib) =
    [Log UTILITIES_INFO [Str u, Str ip, Num port], pg_send_auth_md5 (pg_salt rand),
     Log UTILITIES_WARN [Str u, Str h, Str ip, Num port],
     Audit (audit_record_auth POSTGRESQL_PROTOCOL ip port sid u (Some h) False),
     pg_send_error_response ''FATAL'' ''28P01'' (pg_failure_message u)]"
  using pg_startup_user [OF assms(1,2), of post mem] pg_password_captured [OF assms(3,4)] assms(5)
  by (simp add: pg_authenticate_def Let_def pg_startup_version)

text \<open>The packets of a refused login.\<close>

lemma pg_error_packet_framed:
  assumes "2 * length s + length c + length m \<le> 490"
  shows "length (pg_error_packet s c m) \<le> 512"
    and "be32 (tl (pg_error_packet s c m)) = length (pg_error_packet s c m) - 1"
  using assms by (simp_all add: pg_error_packet_def Let_def be32_htonl)

lemma length_pg_failure: "length u \<le> 255 \<Longrightarrow> length (pg_failure_message u) \<le> 297"
  by (simp add: pg_failure_message_def snprintf_def)

section \<open>Properties\<close>

text \<open>C28: The PostgreSQL service captures the user name of the startup message, whatever parameters come
  before or after it, and the password hash of the answer to its challenge, with or without a
  request for TLS before; it records exactly one failed login with them.\<close>

theorem pg_credentials_captured:
  assumes "list_all pg_param_ok (pre @ [(''user'', u)])" and "''user'' \<notin> fst ` set pre"
    and "nul_free h" "length h \<le> 255" "length u \<le> 255"
    and "length (pg_startup (pre @ (''user'', u) # post)) \<le> 4096"
    and "ib = (if tls then [Data pg_ssl_request] else [])
      @ [Data (pg_startup (pre @ (''user'', u) # post)), Data (pg_password_message h)]"
  shows "audits (run_postgresql_service rand stack sid conn ib) =
      [audit_record_connection POSTGRESQL_PROTOCOL (remote_ip conn) (uint (remote_port conn)) sid,
       audit_record_auth POSTGRESQL_PROTOCOL (remote_ip conn) (uint (remote_port conn)) sid u (Some h) False,
       audit_record_disconnect POSTGRESQL_PROTOCOL (remote_ip conn) (uint (remote_port conn)) sid]
    \<and> sends (run_postgresql_service rand stack sid conn ib) =
      (if tls then [''N''] else [])
      @ [''R'' @ htonl 12 @ htonl 5 @ pg_salt rand,
         pg_error_packet ''FATAL'' ''28P01'' (pg_failure_message u)]"
proof -
  let ?m = "pg_startup (pre @ (''user'', u) # post)"
  have m: "?m \<noteq> []" "8 < length ?m" "\<not> length ?m \<le> 8" "\<not> length ?m < 8"
    using length_pg_startup [of "pre @ (''user'', u) # post"] by auto
  have rm: "recv PG_RECV_BUFFER_SIZE (Data ?m # ib') = (Got ?m, ib')" for ib'
    using m assms(6) by (intro recv_whole) (simp_all add: pg_consts)
  have rs: "recv PG_RECV_BUFFER_SIZE (Data pg_ssl_request # ib') = (Got pg_ssl_request, ib')"
    "length pg_ssl_request = 8" "be32 (drop 4 (overlay pg_ssl_request mem)) = 80877103" for ib' mem
    using be32_htonl [of 80877103]
    by (simp_all add: pg_ssl_request_def pg_consts overlay_def htonl_def [of 8])
  have ver: "be32 (drop 4 (overlay ?m mem)) \<noteq> 80877103" for mem
    by (simp add: pg_startup_version pg_consts)
  note login = pg_login [OF assms(1-5), of "remote_ip conn" "uint (remote_port conn)" sid rand post _ "[]"]
  have salt: "take PG_SALT_LEN (pg_salt rand) = pg_salt rand" by (simp add: pg_salt_def)
  show ?thesis
  proof (cases tls)
    case True
    then show ?thesis
      unfolding assms(7) run_postgresql_service_def pg_body_def Let_def
      by (simp add: rm rs m login pg_send_auth_md5_def pg_send_error_response_def salt PG_AUTH_MD5_def
          del: recv.simps)
  next
    case False
    then show ?thesis
      unfolding assms(7) run_postgresql_service_def pg_body_def Let_def
      by (simp add: rm m ver login pg_send_auth_md5_def pg_send_error_response_def salt PG_AUTH_MD5_def
          del: recv.simps)
  qed
qed

theorem pg_credentials_captured_witness:
  "audits (run_postgresql_service (\<lambda>i. i) [] ''id'' (connection_create 5 ''10.0.0.1'' 4711 POSTGRESQL_PROTOCOL 0 0)
     [Data pg_ssl_request, Data (pg_startup [(''database'', ''x''), (''user'', ''postgres'')]),
      Data (pg_password_message ''md5abc'')]) =
     [audit_record_connection POSTGRESQL_PROTOCOL ''10.0.0.1'' 4711 ''id'',
      audit_record_auth POSTGRESQL_PROTOCOL ''10.0.0.1'' 4711 ''id'' ''postgres'' (Some ''md5abc'') False,
      audit_record_disconnect POSTGRESQL_PROTOCOL ''10.0.0.1'' 4711 ''id'']"
  using pg_credentials_captured [of "[(''database'', ''x'')]" "''postgres''" "''md5abc''" "[]"
      "[Data pg_ssl_request, Data (pg_startup [(''database'', ''x''), (''user'', ''postgres'')]),
        Data (pg_password_message ''md5abc'')]" True "\<lambda>i. i" "[]" "''id''"
      "connection_create 5 ''10.0.0.1'' 4711 POSTGRESQL_PROTOCOL 0 0"]
  by (simp add: pg_param_ok_def length_pg_startup pg_params_bytes_def connection_create_def strncpy_def)

text \<open>C29: The refusal fits its packet buffer for every user name that can be captured, whatever the
  client sends as its startup message, and the length field of the packet is right.\<close>

theorem pg_refusal_fits:
  "let u = (case pg_parse_startup_username buf n 256 of Some u \<Rightarrow> u | None \<Rightarrow> []);
       p = pg_error_packet ''FATAL'' ''28P01'' (pg_failure_message u)
   in length u \<le> 255 \<and> length p \<le> 512 \<and> be32 (tl p) = length p - 1"
proof -
  let ?u = "case pg_parse_startup_username buf n 256 of Some u \<Rightarrow> u | None \<Rightarrow> []"
  have "pg_params 256 params m = Some u \<Longrightarrow> length u \<le> 255" for params m u
    by (induction "256 :: nat" params m rule: pg_params.induct)
      (subst (asm) (2) pg_params.simps, auto simp: Let_def split: if_splits)
  then have u: "length ?u \<le> 255" by (auto simp: pg_parse_startup_username_def split: option.split)
  then have "length (pg_failure_message ?u) \<le> 297" by (rule length_pg_failure)
  with u pg_error_packet_framed [of "''FATAL''" "''28P01''" "pg_failure_message ?u"] show ?thesis
    by (simp add: Let_def)
qed

end
