(* ===== verification/Questdb_Honeypot.thy ===== *)
theory Questdb_Honeypot
  imports Postgresql_Honeypot
begin

text \<open>
  src/service/questdb_honeypot.c: a fake QuestDB server, which speaks the PostgreSQL protocol.
  Unlike the PostgreSQL service it lets every client in and answers its queries. The helpers that
  are the same, word for word, as those of src/service/postgresql_honeypot.c are defined by them.
\<close>

section \<open>Constants\<close>

definition QDB_RECV_BUFFER_SIZE :: nat where "QDB_RECV_BUFFER_SIZE = 4096"
definition QDB_PROTOCOL_VERSION_3 :: nat where "QDB_PROTOCOL_VERSION_3 = 196608"
definition QDB_AUTH_MD5 :: nat where "QDB_AUTH_MD5 = 5"
definition QDB_SALT_LEN :: nat where "QDB_SALT_LEN = 4"
definition QDB_SERVER_VERSION :: string where "QDB_SERVER_VERSION = ''QuestDB 7.3.10''"

lemmas qdb_consts = QDB_RECV_BUFFER_SIZE_def QDB_PROTOCOL_VERSION_3_def QDB_AUTH_MD5_def QDB_SALT_LEN_def

definition qdb_generate_session_id :: "nat \<Rightarrow> int \<Rightarrow> int \<Rightarrow> int \<Rightarrow> string" where
  "qdb_generate_session_id len fd tv_sec tv_nsec =
     snprintf len (''qdb_'' @ dec_int fd @ ''_'' @ dec_int tv_sec @ ''_'' @ dec_int tv_nsec)"

section \<open>Packets\<close>

definition qdb_parse_startup_username :: "string \<Rightarrow> nat \<Rightarrow> nat \<Rightarrow> string option" where
  "qdb_parse_startup_username = pg_parse_startup_username"

definition qdb_send_auth_md5 :: "string \<Rightarrow> eff" where
  "qdb_send_auth_md5 salt = Send (''R'' @ htonl 12 @ htonl QDB_AUTH_MD5 @ take QDB_SALT_LEN salt)"

definition qdb_send_auth_ok :: eff where
  "qdb_send_auth_ok = Send (''R'' @ htonl 8 @ htonl 0)"

definition qdb_send_parameter_status :: "string \<Rightarrow> string \<Rightarrow> eff" where
  "qdb_send_parameter_status name value =
     (let nlen = length name + 1; vlen = length value + 1
      in Send (''S'' @ htonl (4 + nlen + vlen) @ name @ [NUL] @ value @ [NUL]))"

definition qdb_send_ready_for_query :: eff where
  "qdb_send_ready_for_query = Send (''Z'' @ htonl 5 @ ''I'')"

definition qdb_send_error_response :: "string \<Rightarrow> string \<Rightarrow> string \<Rightarrow> eff" where
  "qdb_send_error_response = pg_send_error_response"

definition qdb_send_empty_query_result :: "string \<Rightarrow> eff list" where
  "qdb_send_empty_query_result tag =
     [Send (''T'' @ htonl 6 @ [NUL, NUL]), Send (''C'' @ htonl (4 + (length tag + 1)) @ tag @ [NUL])]"

section \<open>Queries\<close>

text \<open>The text of a query in a message of type \<open>Q\<close>.\<close>

definition qdb_sql :: "string \<Rightarrow> string" where
  "qdb_sql d =
     (if 5 < length d then
        let sql_len = strnlen (drop 5 d) (length d - 5);
            sql_len = (if QDB_RECV_BUFFER_SIZE \<le> sql_len then QDB_RECV_BUFFER_SIZE - 1 else sql_len)
        in strip_crlf (take sql_len (drop 5 d))
      else [])"

definition qdb_answer :: "string \<Rightarrow> int \<Rightarrow> string \<Rightarrow> eff list" where
  "qdb_answer ip port sql =
     (if strncaseeq sql ''SELECT'' 6 then qdb_send_empty_query_result ''SELECT 0''
      else if strncaseeq sql ''INSERT'' 6 then qdb_send_empty_query_result ''INSERT 0 1''
      else if strncaseeq sql ''CREATE'' 6 then qdb_send_empty_query_result ''CREATE TABLE''
      else if strncaseeq sql ''SHOW'' 4 then qdb_send_empty_query_result ''SHOW''
      else if strncaseeq sql ''DROP'' 4 then
        [Log UTILITIES_WARN [Str sql, Str ip, Num port],
         qdb_send_error_response ''ERROR'' ''42501'' ''permission denied'']
      else [qdb_send_error_response ''ERROR'' ''42601'' ''syntax error''])"

text \<open>One message; the second result tells whether the loop goes on.\<close>

definition qdb_message :: "string \<Rightarrow> int \<Rightarrow> string \<Rightarrow> string \<Rightarrow> eff list \<times> bool" where
  "qdb_message ip port sid d =
     (let msg_type = hd d in
      if msg_type = CHR ''Q'' then
        (let sql = qdb_sql d
         in ([Log UTILITIES_WARN [Str sql, Str ip, Num port],
              Audit (audit_record_command QUESTDB_PROTOCOL ip port sid sql)]
             @ qdb_answer ip port sql @ [qdb_send_ready_for_query], True))
      else if msg_type = CHR ''X'' then ([Log UTILITIES_INFO [Str ip, Num port]], False)
      else if msg_type = CHR ''P'' then
        ([Log UTILITIES_INFO [Str ip, Num port], Send (''1'' @ htonl 4)], True)
      else ([Log UTILITIES_DEBUG [Str [msg_type], Num (of_char msg_type), Str ip, Num port]], True))"

function qdb_loop :: "string \<Rightarrow> int \<Rightarrow> string \<Rightarrow> segment list \<Rightarrow> eff list" where
  "qdb_loop ip port sid ib =
     (case recv QDB_RECV_BUFFER_SIZE ib of
        (Got d, ib') \<Rightarrow>
          (case qdb_message ip port sid d of
             (es, running) \<Rightarrow> if running then es @ qdb_loop ip port sid ib' else es)
      | _ \<Rightarrow> [])"
  by pat_completeness auto
termination
  by (relation "measure (\<lambda>(_, _, _, ib). inbox_size ib)") (auto simp: recv_decreases)

declare qdb_loop.simps [simp del]

section \<open>The session\<close>

definition qdb_salt :: "(nat \<Rightarrow> nat) \<Rightarrow> string" where
  "qdb_salt rand = map (\<lambda>i. char_of (rand i mod 256)) [0..<QDB_SALT_LEN]"

definition qdb_welcome :: "eff list" where
  "qdb_welcome =
     [qdb_send_auth_ok, qdb_send_parameter_status ''server_version'' QDB_SERVER_VERSION,
      qdb_send_parameter_status ''server_encoding'' ''UTF8'',
      qdb_send_parameter_status ''client_encoding'' ''UTF8'',
      qdb_send_parameter_status ''DateStyle'' ''ISO, MDY'', qdb_send_ready_for_query]"

text \<open>From the password message on.\<close>

definition qdb_password :: "string \<Rightarrow> int \<Rightarrow> string \<Rightarrow> string \<Rightarrow> segment list \<Rightarrow> eff list" where
  "qdb_password ip port sid username ib =
     (case recv QDB_RECV_BUFFER_SIZE ib of
        (Got d, ib') \<Rightarrow>
          if length d \<le> 5 \<or> hd d \<noteq> CHR ''p'' then [Log UTILITIES_WARN [Str ip, Num port]]
          else
            let pw_len = strnlen (drop 5 d) (length d - 5);
                pw_len = (if 256 \<le> pw_len then 256 - 1 else pw_len);
                password_hash = take pw_len (drop 5 d)
            in [Log UTILITIES_WARN [Str username, Str password_hash, Str ip, Num port],
                Audit (audit_record_auth QUESTDB_PROTOCOL ip port sid username (Some password_hash) False)]
               @ qdb_welcome @ qdb_loop ip port sid ib'
      | _ \<Rightarrow> [Log UTILITIES_WARN [Str ip, Num port]])"

definition qdb_authenticate ::
  "string \<Rightarrow> int \<Rightarrow> string \<Rightarrow> (nat \<Rightarrow> nat) \<Rightarrow> string \<Rightarrow> nat \<Rightarrow> segment list \<Rightarrow> eff list" where
  "qdb_authenticate ip port sid rand buf n ib =
     (let proto_ver = be32 (drop 4 buf) in
      if proto_ver \<noteq> QDB_PROTOCOL_VERSION_3 then
        [Log UTILITIES_WARN [Num (int proto_ver), Str ip, Num port],
         qdb_send_error_response ''FATAL'' ''08004'' ''unsupported protocol version'']
      else
        let username = (case qdb_parse_startup_username buf n 256 of Some u \<Rightarrow> u | None \<Rightarrow> [])
        in [Log UTILITIES_INFO [Str username, Str ip, Num port], qdb_send_auth_md5 (qdb_salt rand)]
           @ qdb_password ip port sid username ib)"

definition qdb_body ::
  "string \<Rightarrow> int \<Rightarrow> string \<Rightarrow> (nat \<Rightarrow> nat) \<Rightarrow> string \<Rightarrow> segment list \<Rightarrow> eff list" where
  "qdb_body ip port sid rand stack ib =
     (case recv QDB_RECV_BUFFER_SIZE ib of
        (Got d, ib) \<Rightarrow>
          if length d < 8 then [Log UTILITIES_WARN [Num (int (length d)), Str ip, Num port]]
          else
            let buf = overlay d stack; proto_ver = be32 (drop 4 buf)
            in if proto_ver = 80877103 then
                 [Log UTILITIES_INFO [Str ip, Num port], Send ''N'']
                 @ (case recv QDB_RECV_BUFFER_SIZE ib of
                      (Got d, ib) \<Rightarrow>
                        if length d \<le> 8 then [Log UTILITIES_WARN [Str ip, Num port]]
                        else qdb_authenticate ip port sid rand (overlay d buf) (length d) ib
                    | _ \<Rightarrow> [Log UTILITIES_WARN [Str ip, Num port]])
               else qdb_authenticate ip port sid rand buf (length d) ib
      | _ \<Rightarrow> [Log UTILITIES_WARN [Str ip, Num port]])"

text \<open>\<open>sid\<close> is the identifier \<open>qdb_generate_session_id\<close> gives the session.\<close>

definition run_questdb_service ::
  "(nat \<Rightarrow> nat) \<Rightarrow> string \<Rightarrow> string \<Rightarrow> connection \<Rightarrow> segment list \<Rightarrow> eff list" where
  "run_questdb_service rand stack sid conn ib =
     (let ip = remote_ip conn; port = uint (remote_port conn); fd = socket_file_descriptor conn
      in [Log UTILITIES_INFO [Str ip, Num port, Num fd],
          Audit (audit_record_connection QUESTDB_PROTOCOL ip port sid)]
         @ qdb_body ip port sid rand stack ib
         @ [Log UTILITIES_INFO [Str ip, Num port],
            Audit (audit_record_disconnect QUESTDB_PROTOCOL ip port sid), Close fd])"

section \<open>Sessions are audited\<close>

interpretation qdb_loop: segment_loop QDB_RECV_BUFFER_SIZE
  "\<lambda>_ d. ((), qdb_message ip port sid d)" "\<lambda>_. qdb_loop ip port sid" for ip port sid
  by unfold_locales (subst qdb_loop.simps, simp add: case_prod_beta split: recv_ret.split)

lemmas qdb_packets = qdb_send_auth_md5_def qdb_send_auth_ok_def qdb_send_parameter_status_def
  qdb_send_ready_for_query_def qdb_send_error_response_def pg_send_error_response_def
  qdb_send_empty_query_result_def qdb_welcome_def

text \<open>What holds of the effects of every message holds of the body of the session.\<close>

lemma qdb_body_effects:
  assumes "\<And>l as. P (Log l as)" and "P (Send ''N'')"
    and "P (qdb_send_auth_md5 (qdb_salt rand))" and "list_all P qdb_welcome"
    and "\<And>u h. P (Audit (audit_record_auth QUESTDB_PROTOCOL ip port sid u h False))"
    and "P (qdb_send_error_response ''FATAL'' ''08004'' ''unsupported protocol version'')"
    and "\<And>d. list_all P (fst (qdb_message ip port sid d))"
  shows "list_all P (qdb_body ip port sid rand stack ib)"
proof -
  have "list_all P (qdb_loop ip port sid ib')" for ib'
    using assms(7) by (intro qdb_loop.loop_effects) simp
  with assms have "list_all P (qdb_authenticate ip port sid rand buf n ib')" for buf n ib'
    by (simp add: qdb_authenticate_def qdb_password_def Let_def case_prod_beta split: recv_ret.split)
  with assms show ?thesis
    by (simp add: qdb_body_def Let_def case_prod_beta split: recv_ret.split)
qed

lemma qdb_message_inner: "list_all (inner QUESTDB_PROTOCOL ip port sid) (fst (qdb_message ip port sid d))"
  by (simp add: qdb_message_def qdb_answer_def qdb_packets Let_def)

interpretation qdb: audited_service QUESTDB_PROTOCOL "run_questdb_service rand stack" for rand stack
proof (unfold_locales, goal_cases)
  case (1 sid c ib)
  let ?ip = "remote_ip c" and ?port = "uint (remote_port c)" and ?fd = "socket_file_descriptor c"
  have "list_all (inner QUESTDB_PROTOCOL ?ip ?port sid) (qdb_body ?ip ?port sid rand stack ib)"
    by (rule qdb_body_effects) (simp_all add: qdb_packets Let_def qdb_message_inner)
  then show ?case
    by (intro exI [of _ "[Log UTILITIES_INFO [Str ?ip, Num ?port, Num ?fd]]"]
        exI [of _ "qdb_body ?ip ?port sid rand stack ib @ [Log UTILITIES_INFO [Str ?ip, Num ?port]]"]
        exI [of _ "[Close ?fd]"])
      (simp add: run_questdb_service_def Let_def)
qed

section \<open>Packets are framed\<close>

lemma qdb_answer_framed: "list_all framed_eff (qdb_answer ip port sql)"
proof -
  have "wire_framed (pg_error_packet ''ERROR'' ''42501'' ''permission denied'')"
    "wire_framed (pg_error_packet ''ERROR'' ''42601'' ''syntax error'')"
    by (rule error_packet_framed; simp)+
  then show ?thesis by (simp add: qdb_answer_def qdb_packets wire_framedI)
qed

lemma qdb_message_framed: "list_all framed_eff (fst (qdb_message ip port sid d))"
  using qdb_answer_framed
  by (simp add: qdb_message_def qdb_send_ready_for_query_def Let_def wire_framedI
      wire_framedI [where s = "[]", simplified])

lemma qdb_body_framed: "list_all framed_eff (qdb_body ip port sid rand stack ib)"
proof (rule qdb_body_effects)
  show "framed_eff (qdb_send_error_response ''FATAL'' ''08004'' ''unsupported protocol version'')"
    using error_packet_framed [of "''FATAL''" "''08004''" "''unsupported protocol version''"]
    by (simp add: qdb_packets)
qed (simp_all add: qdb_packets Let_def qdb_message_framed wire_framedI qdb_salt_def qdb_consts
    QDB_SERVER_VERSION_def)

section \<open>Dialogues\<close>

definition qdb_query_message :: "string \<Rightarrow> string" where
  "qdb_query_message q = ''Q'' @ htonl (5 + length q) @ q @ [NUL]"

definition qdb_query_ok :: "string \<Rightarrow> bool" where
  "qdb_query_ok q \<longleftrightarrow> nul_free q \<and> strip_crlf q = q \<and> length q \<le> 4000"

lemma qdb_query:
  assumes "qdb_query_ok q"
  shows "qdb_message ip port sid (qdb_query_message q) =
    ([Log UTILITIES_WARN [Str q, Str ip, Num port],
      Audit (audit_record_command QUESTDB_PROTOCOL ip port sid q)]
     @ qdb_answer ip port q @ [qdb_send_ready_for_query], True)"
proof -
  have "length (qdb_query_message q) = 6 + length q" "hd (qdb_query_message q) = CHR ''Q''"
    "drop 5 (qdb_query_message q) = q @ [NUL]" by (simp_all add: qdb_query_message_def)
  moreover from this(1) have "strnlen (q @ [NUL]) (length (qdb_query_message q) - 5) = length q"
    using assms by (intro strnlen_nul) (simp_all add: qdb_query_ok_def)
  ultimately have "qdb_sql (qdb_query_message q) = q"
    using assms by (simp add: qdb_sql_def Let_def qdb_query_ok_def qdb_consts)
  then show ?thesis using \<open>hd (qdb_query_message q) = CHR ''Q''\<close> by (simp add: qdb_message_def)
qed

lemma qdb_queries:
  assumes "list_all qdb_query_ok qs"
  shows "qdb_loop ip port sid (map (\<lambda>q. Data (qdb_query_message q)) qs) =
    concat (map (\<lambda>q. [Log UTILITIES_WARN [Str q, Str ip, Num port],
      Audit (audit_record_command QUESTDB_PROTOCOL ip port sid q)]
     @ qdb_answer ip port q @ [qdb_send_ready_for_query]) qs)"
  using assms
proof (induction qs)
  case (Cons q qs)
  then have q: "qdb_query_ok q" by simp
  have "qdb_query_message q \<noteq> []" "length (qdb_query_message q) \<le> QDB_RECV_BUFFER_SIZE"
    using q by (simp_all add: qdb_query_message_def qdb_query_ok_def qdb_consts)
  from qdb_loop.loop_message [OF this] Cons show ?case by (simp add: qdb_query [OF q])
qed simp

lemma qdb_password_captured:
  assumes "nul_free h" "length h \<le> 255"
  shows "qdb_password ip port sid u (Data (pg_password_message h) # ib) =
    [Log UTILITIES_WARN [Str u, Str h, Str ip, Num port],
     Audit (audit_record_auth QUESTDB_PROTOCOL ip port sid u (Some h) False)]
    @ qdb_welcome @ qdb_loop ip port sid ib"
proof -
  let ?m = "pg_password_message h"
  have m: "?m \<noteq> []" "length ?m = 6 + length h" "hd ?m = CHR ''p''" "drop 5 ?m = h @ [NUL]"
    by (simp_all add: pg_password_message_def)
  then have r: "recv QDB_RECV_BUFFER_SIZE (Data ?m # ib) = (Got ?m, ib)"
    using assms(2) by (intro recv_whole) (simp_all add: qdb_consts)
  have "strnlen (h @ [NUL]) (length ?m - 5) = length h"
    using assms(1) m(2) by (intro strnlen_nul) simp_all
  then show ?thesis using assms(2) m
    by (simp only: qdb_password_def r prod.case recv_ret.case) (simp add: Let_def)
qed

lemma qdb_login:
  assumes "list_all pg_param_ok (pre @ [(''user'', u)])" and "''user'' \<notin> fst ` set pre"
    and "nul_free h" "length h \<le> 255" "length u \<le> 255"
  shows "qdb_authenticate ip port sid rand (overlay (pg_startup (pre @ (''user'', u) # post)) mem)
      (length (pg_startup (pre @ (''user'', u) # post))) (Data (pg_password_message h) # ib) =
    [Log UTILITIES_INFO [Str u, Str ip, Num port], qdb_send_auth_md5 (qdb_salt rand),
     Log UTILITIES_WARN [Str u, Str h, Str ip, Num port],
     Audit (audit_record_auth QUESTDB_PROTOCOL ip port sid u (Some h) False)]
    @ qdb_welcome @ qdb_loop ip port sid ib"
  using pg_startup_user [OF assms(1,2), of post mem] qdb_password_captured [OF assms(3,4)] assms(5)
    pg_startup_version
  by (simp add: qdb_authenticate_def Let_def qdb_parse_startup_username_def pg_consts qdb_consts)

lemma audits_qdb_query:
  "audits (concat (map (\<lambda>q. [Log UTILITIES_WARN [Str q, Str ip, Num port],
      Audit (audit_record_command QUESTDB_PROTOCOL ip port sid q)]
     @ qdb_answer ip port q @ [qdb_send_ready_for_query]) qs)) =
   map (audit_record_command QUESTDB_PROTOCOL ip port sid) qs"
proof -
  have "audits (qdb_answer ip port q) = []" for q
    by (simp add: qdb_answer_def qdb_packets)
  then show ?thesis by (induction qs) (simp_all add: qdb_send_ready_for_query_def)
qed

section \<open>Properties\<close>

text \<open>C30: A QuestDB session, with or without a request for TLS first, records the user name and the
  password hash and then every query in order: every client is let in, since its queries are taken whatever the hash.\<close>

theorem qdb_session_records:
  assumes "list_all pg_param_ok (pre @ [(''user'', u)])" and "''user'' \<notin> fst ` set pre"
    and "nul_free h" "length h \<le> 255" "length u \<le> 255"
    and "length (pg_startup (pre @ (''user'', u) # post)) \<le> 4096"
    and "list_all qdb_query_ok qs"
    and "ib = (if tls then [Data pg_ssl_request] else [])
      @ [Data (pg_startup (pre @ (''user'', u) # post)), Data (pg_password_message h)]
      @ map (\<lambda>q. Data (qdb_query_message q)) qs"
  shows "audits (run_questdb_service rand stack sid conn ib) =
      audit_record_connection QUESTDB_PROTOCOL (remote_ip conn) (uint (remote_port conn)) sid
      # audit_record_auth QUESTDB_PROTOCOL (remote_ip conn) (uint (remote_port conn)) sid u (Some h) False
      # map (audit_record_command QUESTDB_PROTOCOL (remote_ip conn) (uint (remote_port conn)) sid) qs
      @ [audit_record_disconnect QUESTDB_PROTOCOL (remote_ip conn) (uint (remote_port conn)) sid]"
proof -
  let ?m = "pg_startup (pre @ (''user'', u) # post)" and ?qs = "map (\<lambda>q. Data (qdb_query_message q)) qs"
  have m: "?m \<noteq> []" "8 < length ?m" "\<not> length ?m \<le> 8" "\<not> length ?m < 8"
    using length_pg_startup [of "pre @ (''user'', u) # post"] by auto
  have rm: "recv QDB_RECV_BUFFER_SIZE (Data ?m # ib') = (Got ?m, ib')" for ib'
    using m assms(6) by (intro recv_whole) (simp_all add: qdb_consts)
  have rs: "recv QDB_RECV_BUFFER_SIZE (Data pg_ssl_request # ib') = (Got pg_ssl_request, ib')"
    "length pg_ssl_request = 8" "be32 (drop 4 (overlay pg_ssl_request mem)) = 80877103" for ib' mem
    using be32_htonl [of 80877103]
    by (simp_all add: pg_ssl_request_def qdb_consts overlay_def htonl_def [of 8])
  have ver: "be32 (drop 4 (overlay ?m mem)) \<noteq> 80877103" for mem
    by (simp add: pg_startup_version pg_consts)
  note login = qdb_login [OF assms(1-5), of "remote_ip conn" "uint (remote_port conn)" sid rand post _ ?qs]
  have greet: "audits qdb_welcome = []" by (simp add: qdb_packets Let_def)
  show ?thesis
    unfolding assms(8) run_questdb_service_def qdb_body_def Let_def
    by (cases tls) (simp_all add: rm rs m ver login greet qdb_send_auth_md5_def
        qdb_queries [OF assms(7)] audits_qdb_query [simplified] del: recv.simps)
qed

theorem qdb_session_records_witness:
  "audits (run_questdb_service (\<lambda>i. i) [] ''id'' (connection_create 5 ''10.0.0.1'' 4711 QUESTDB_PROTOCOL 0 0)
     [Data (pg_startup [(''user'', ''admin'')]), Data (pg_password_message ''md5abc''),
      Data (qdb_query_message ''DROP TABLE trades'')]) =
     [audit_record_connection QUESTDB_PROTOCOL ''10.0.0.1'' 4711 ''id'',
      audit_record_auth QUESTDB_PROTOCOL ''10.0.0.1'' 4711 ''id'' ''admin'' (Some ''md5abc'') False,
      audit_record_command QUESTDB_PROTOCOL ''10.0.0.1'' 4711 ''id'' ''DROP TABLE trades'',
      audit_record_disconnect QUESTDB_PROTOCOL ''10.0.0.1'' 4711 ''id'']"
  using qdb_session_records [of "[]" "''admin''" "''md5abc''" "[]" "[''DROP TABLE trades'']"
      "[Data (pg_startup [(''user'', ''admin'')]), Data (pg_password_message ''md5abc''),
        Data (qdb_query_message ''DROP TABLE trades'')]" False "\<lambda>i. i" "[]" "''id''"
      "connection_create 5 ''10.0.0.1'' 4711 QUESTDB_PROTOCOL 0 0"]
  by (simp add: pg_param_ok_def qdb_query_ok_def strip_crlf_def length_pg_startup pg_params_bytes_def
      connection_create_def strncpy_def)

text \<open>C31: Whatever a client sends, every packet of the PostgreSQL and the QuestDB service carries the
  right length, apart from the single byte that refuses TLS.\<close>

theorem wire_packets_framed:
  "list_all (\<lambda>p. p = ''N'' \<or> wire_framed p) (sends (run_postgresql_service rand stack sid conn ib))
   \<and> list_all (\<lambda>p. p = ''N'' \<or> wire_framed p) (sends (run_questdb_service rand stack sid conn ib))"
  using framed_effects [OF pg_body_framed] framed_effects [OF qdb_body_framed]
  by (simp add: run_postgresql_service_def run_questdb_service_def Let_def)

end
