(* ===== verification/Mysql_Honeypot.thy ===== *)
theory Mysql_Honeypot
  imports Service
begin

unbundle bit_operations_syntax

text \<open>
  src/service/mysql_honeypot.c: a fake MySQL server that refuses every login and goes on reading
  queries. The packets with their little-endian numbers, the handshake, the session.

  The receive buffer lies on the stack: \<open>stack\<close> is what the memory from \<open>recv_buf\<close> on,
  beyond its end too, holds before the first \<open>recv\<close>. The user name stays a pointer into that
  buffer, which later messages overwrite. \<open>getrandom\<close> and \<open>rand\<close>, the result of the
  \<open>send\<close> of the greeting and the value of the connection counter are parameters.
\<close>

section \<open>Constants\<close>

definition MYSQL_HONEYPOT_SERVER_VERSION :: string where
  "MYSQL_HONEYPOT_SERVER_VERSION = ''5.7.42-0ubuntu0.18.04.1''"
definition MYSQL_HONEYPOT_AUTH_PLUGIN :: string where
  "MYSQL_HONEYPOT_AUTH_PLUGIN = ''mysql_native_password''"
definition MYSQL_HONEYPOT_CHARSET_UTF8 :: char where "MYSQL_HONEYPOT_CHARSET_UTF8 = CHR 0x21"
definition MYSQL_HONEYPOT_PROTOCOL_VER :: char where "MYSQL_HONEYPOT_PROTOCOL_VER = CHR 0x0A"
definition MYSQL_HONEYPOT_ERR_CODE :: "16 word" where "MYSQL_HONEYPOT_ERR_CODE = 1045"
definition MYSQL_HONEYPOT_RECV_BUF_SIZE :: nat where "MYSQL_HONEYPOT_RECV_BUF_SIZE = 4096"
definition MYSQL_HONEYPOT_GREETING_SIZE :: nat where "MYSQL_HONEYPOT_GREETING_SIZE = 512"

lemmas mysql_consts = MYSQL_HONEYPOT_SERVER_VERSION_def MYSQL_HONEYPOT_AUTH_PLUGIN_def
  MYSQL_HONEYPOT_CHARSET_UTF8_def MYSQL_HONEYPOT_PROTOCOL_VER_def MYSQL_HONEYPOT_ERR_CODE_def
  MYSQL_HONEYPOT_RECV_BUF_SIZE_def MYSQL_HONEYPOT_GREETING_SIZE_def

section \<open>Packets\<close>

definition mysql_charset :: string where
  "mysql_charset = ''abcdefghijklmnopqrstuvwxyz'' @ ''ABCDEFGHIJKLMNOPQRSTUVWXYZ'' @ ''0123456789''"

text \<open>The 32 bytes of \<open>getrandom\<close>, or \<open>None\<close> when it fails; the values of \<open>rand\<close>.\<close>

definition mysql_generate_salt :: "(nat \<Rightarrow> byte) option \<Rightarrow> (nat \<Rightarrow> nat) \<Rightarrow> nat \<Rightarrow> string" where
  "mysql_generate_salt getrandom rand len =
     (case getrandom of
        Some rand_bytes \<Rightarrow>
          map (\<lambda>i. mysql_charset ! (unat (rand_bytes (i mod 32)) mod length mysql_charset)) [0..<len]
      | None \<Rightarrow> map (\<lambda>i. mysql_charset ! (rand i mod length mysql_charset)) [0..<len])"

definition mysql_write_le16 :: "16 word \<Rightarrow> string" where
  "mysql_write_le16 val =
     [char_of (unat (val AND 0xFF)), char_of (unat (drop_bit 8 val AND 0xFF))]"

definition mysql_write_le24 :: "32 word \<Rightarrow> string" where
  "mysql_write_le24 val =
     [char_of (unat (val AND 0xFF)), char_of (unat (drop_bit 8 val AND 0xFF)),
      char_of (unat (drop_bit 16 val AND 0xFF))]"

definition mysql_write_le32 :: "32 word \<Rightarrow> string" where
  "mysql_write_le32 val =
     [char_of (unat (val AND 0xFF)), char_of (unat (drop_bit 8 val AND 0xFF)),
      char_of (unat (drop_bit 16 val AND 0xFF)), char_of (unat (drop_bit 24 val AND 0xFF))]"

definition mysql_capabilities :: "32 word" where "mysql_capabilities = 0x0000F7DF"

definition mysql_greeting_payload :: "string \<Rightarrow> string \<Rightarrow> 32 word \<Rightarrow> string" where
  "mysql_greeting_payload salt_part1 salt_part2 conn_id =
     (let cap_lower = ucast (mysql_capabilities AND 0xFFFF);
          cap_upper = ucast (drop_bit 16 mysql_capabilities AND 0xFFFF)
      in [MYSQL_HONEYPOT_PROTOCOL_VER] @ MYSQL_HONEYPOT_SERVER_VERSION @ [NUL]
         @ mysql_write_le32 conn_id @ salt_part1 @ [NUL]
         @ mysql_write_le16 cap_lower @ [MYSQL_HONEYPOT_CHARSET_UTF8] @ mysql_write_le16 0x0002
         @ mysql_write_le16 cap_upper @ [CHR 0x15] @ replicate 10 NUL @ salt_part2 @ [NUL]
         @ MYSQL_HONEYPOT_AUTH_PLUGIN @ [NUL])"

text \<open>What the two calls of \<open>mysql_generate_salt\<close> draw. The packet is empty for the result 0.\<close>

record mysql_random =
  my_getrandom1 :: "(nat \<Rightarrow> byte) option"
  my_rand1 :: "nat \<Rightarrow> nat"
  my_getrandom2 :: "(nat \<Rightarrow> byte) option"
  my_rand2 :: "nat \<Rightarrow> nat"

definition mysql_build_greeting_packet :: "mysql_random \<Rightarrow> nat \<Rightarrow> 32 word \<Rightarrow> string" where
  "mysql_build_greeting_packet r buf_size conn_id =
     (let salt_part1 = mysql_generate_salt (my_getrandom1 r) (my_rand1 r) 8;
          salt_part2 = mysql_generate_salt (my_getrandom2 r) (my_rand2 r) 12;
          payload = mysql_greeting_payload salt_part1 salt_part2 conn_id; pos = length payload
      in if buf_size < pos + 4 then []
         else mysql_write_le24 (of_nat pos) @ [NUL] @ payload)"

definition mysql_denied :: "string \<Rightarrow> string \<Rightarrow> string" where
  "mysql_denied username ip =
     snprintf 256 (''Access denied for user '' @ [CHR 0x27] @ username @ [CHR 0x27] @ ''@'' @ [CHR 0x27]
       @ ip @ [CHR 0x27] @ '' (using password: YES)'')"

definition mysql_build_error_packet :: "nat \<Rightarrow> byte \<Rightarrow> string \<Rightarrow> string \<Rightarrow> string" where
  "mysql_build_error_packet buf_size seq_id username ip =
     (let message = mysql_denied username ip;
          payload_len = 1 + 2 + 1 + 5 + length message
      in if buf_size < payload_len + 4 then []
         else mysql_write_le24 (of_nat payload_len) @ [char_of (unat seq_id)]
              @ [CHR 0xFF] @ mysql_write_le16 MYSQL_HONEYPOT_ERR_CODE @ ''#'' @ ''28000'' @ message)"

section \<open>The client's packets\<close>

text \<open>The offset of the user name, or \<open>None\<close> for NULL.\<close>

definition mysql_extract_username :: "string \<Rightarrow> nat \<Rightarrow> nat option" where
  "mysql_extract_username pkt pkt_len =
     (if pkt_len \<le> 36 then None
      else if strchr (take (pkt_len - 36) (drop 36 pkt)) NUL = None then None
      else Some 36)"

definition mysql_extract_and_log_query :: "string \<Rightarrow> int \<Rightarrow> string \<Rightarrow> string \<Rightarrow> eff list" where
  "mysql_extract_and_log_query ip port sid pkt =
     (if length pkt < 5 then []
      else
        let cmd = pkt ! 4 in
        if cmd = CHR 0x03 \<and> 5 < length pkt then
          let query_len = length pkt - 5;
              query_len = (if 1024 < query_len then 1024 else query_len);
              query = cstr (take query_len (drop 5 pkt))
          in [Log UTILITIES_WARN [Str query, Str ip, Num port],
              Audit (audit_record_command MYSQL_PROTOCOL ip port sid query)]
        else [Log UTILITIES_WARN [Num (of_char cmd), Str ip, Num port]])"

text \<open>What \<open>username\<close> points to: the literal, or the buffer from some offset on.\<close>

datatype mysql_name = Unknown | In_buffer nat

fun mysql_name_text :: "mysql_name \<Rightarrow> string \<Rightarrow> string" where
  "mysql_name_text Unknown recv_buf = ''(unknown)''"
| "mysql_name_text (In_buffer off) recv_buf = cstr (drop off recv_buf)"

section \<open>The session\<close>

text \<open>One message after the refusal; the memory from \<open>recv_buf\<close> on is the state.\<close>

definition mysql_message ::
  "string \<Rightarrow> int \<Rightarrow> string \<Rightarrow> mysql_name \<Rightarrow> string \<Rightarrow> string \<Rightarrow> string \<times> eff list \<times> bool" where
  "mysql_message ip port sid username recv_buf d =
     (let recv_buf = overlay d recv_buf;
          seq = of_char (recv_buf ! 3) :: byte;
          err_pkt = mysql_build_error_packet 512 (seq + 1) (mysql_name_text username recv_buf) ip
      in (recv_buf,
          [Log UTILITIES_WARN [Num (int (length d)), Str ip, Num port]]
          @ mysql_extract_and_log_query ip port sid d
          @ (if 0 < length err_pkt then [Send err_pkt] else []), True))"

function mysql_loop :: "string \<Rightarrow> int \<Rightarrow> string \<Rightarrow> mysql_name \<Rightarrow> string \<Rightarrow> segment list \<Rightarrow> eff list" where
  "mysql_loop ip port sid username recv_buf ib =
     (case recv MYSQL_HONEYPOT_RECV_BUF_SIZE ib of
        (Got d, ib') \<Rightarrow>
          (case mysql_message ip port sid username recv_buf d of
             (recv_buf, es, running) \<Rightarrow>
               if running then es @ mysql_loop ip port sid username recv_buf ib' else es)
      | _ \<Rightarrow> [])"
  by pat_completeness auto
termination
  by (relation "measure (\<lambda>(_, _, _, _, _, ib). inbox_size ib)") (auto simp: recv_decreases)

declare mysql_loop.simps [simp del]

record mysql_env =
  my_random :: mysql_random
  my_counter :: "32 word"
  my_sent :: int
  my_errno :: int
  my_stack :: string

definition run_mysql_service :: "mysql_env \<Rightarrow> string \<Rightarrow> connection \<Rightarrow> segment list \<Rightarrow> eff list" where
  "run_mysql_service env sid conn ib =
     (let ip = remote_ip conn; port = uint (remote_port conn); fd = socket_file_descriptor conn;
          conn_id = my_counter env + 1;
          greeting = mysql_build_greeting_packet (my_random env)
                       MYSQL_HONEYPOT_GREETING_SIZE conn_id;
          es = [Log UTILITIES_INFO [Str ip, Num port, Num fd],
                Audit (audit_record_connection MYSQL_PROTOCOL ip port sid)]
      in if length greeting = 0 then es @ [Log UTILITIES_ERROR [Str ip, Num port], Close fd]
         else if my_sent env \<le> 0 then
           es @ [Send greeting, Log UTILITIES_ERROR [Str ip, Num port, Num (my_errno env)], Close fd]
         else
           es @ [Send greeting, Log UTILITIES_DEBUG [Num (my_sent env), Str ip, Num port]]
           @ (case recv MYSQL_HONEYPOT_RECV_BUF_SIZE ib of
                (Got d, ib') \<Rightarrow>
                  let recv_buf = overlay d (my_stack env);
                      username = (case mysql_extract_username recv_buf (length d) of
                                    None \<Rightarrow> Unknown
                                  | Some off \<Rightarrow> if recv_buf ! off = NUL then Unknown else In_buffer off);
                      name = mysql_name_text username recv_buf;
                      err_pkt = mysql_build_error_packet 512 2 name ip
                  in [Log UTILITIES_DEBUG [Num (int (length d)), Str ip, Num port],
                      Log UTILITIES_WARN [Str name, Str ip, Num port],
                      Audit (audit_record_auth MYSQL_PROTOCOL ip port sid name (Some []) False)]
                     @ (if 0 < length err_pkt
                        then [Send err_pkt, Log UTILITIES_DEBUG [Str ip, Num port]] else [])
                     @ mysql_loop ip port sid username recv_buf ib'
                     @ [Close fd, Audit (audit_record_disconnect MYSQL_PROTOCOL ip port sid),
                        Log UTILITIES_INFO [Str ip, Num port]]
              | _ \<Rightarrow> [Log UTILITIES_INFO [Str ip, Num port], Close fd]))"

interpretation mysql_loop: segment_loop MYSQL_HONEYPOT_RECV_BUF_SIZE
  "mysql_message ip port sid username" "mysql_loop ip port sid username" for ip port sid username
  by unfold_locales (rule mysql_loop.simps)

section \<open>Little-endian numbers\<close>

fun le_value :: "string \<Rightarrow> nat" where
  "le_value [] = 0"
| "le_value (c # s) = of_char c + 256 * le_value s"

lemma le_value_bytes:
  assumes "n < 2 ^ 32"
  shows "le_value [char_of (n mod 256), char_of (n div 2 ^ 8 mod 256), char_of (n div 2 ^ 16 mod 256)] = n mod 2 ^ 24"
    and "le_value [char_of (n mod 256), char_of (n div 2 ^ 8 mod 256), char_of (n div 2 ^ 16 mod 256),
      char_of (n div 2 ^ 24 mod 256)] = n"
proof -
  have 1: "n mod 256 + 256 * (n div 2 ^ 8 mod 256) = n mod 2 ^ 16"
    using mod_mult2_eq [of n 256 256] by simp
  have 2: "n mod 2 ^ 16 + 2 ^ 16 * (n div 2 ^ 16 mod 256) = n mod 2 ^ 24"
    using mod_mult2_eq [of n "2 ^ 16" 256] by simp
  have 3: "n mod 2 ^ 24 + 2 ^ 24 * (n div 2 ^ 24 mod 256) = n mod 2 ^ 32"
    using mod_mult2_eq [of n "2 ^ 24" 256] by simp
  from 1 2 show "le_value [char_of (n mod 256), char_of (n div 2 ^ 8 mod 256), char_of (n div 2 ^ 16 mod 256)] =
    n mod 2 ^ 24" by simp
  have "le_value [char_of (n mod 256), char_of (n div 2 ^ 8 mod 256), char_of (n div 2 ^ 16 mod 256),
      char_of (n div 2 ^ 24 mod 256)] = n mod 256 + 256 * (n div 2 ^ 8 mod 256)
      + 2 ^ 16 * (n div 2 ^ 16 mod 256) + 2 ^ 24 * (n div 2 ^ 24 mod 256)" by simp
  also have "\<dots> = n" unfolding 1 2 3 using assms by simp
  finally show "le_value [char_of (n mod 256), char_of (n div 2 ^ 8 mod 256),
    char_of (n div 2 ^ 16 mod 256), char_of (n div 2 ^ 24 mod 256)] = n" .
qed

lemma le_value_le32: "le_value (mysql_write_le32 v) = unat v"
proof -
  have "unat v < 2 ^ 32" using unsigned_less [of v, where ?'a = nat] by simp
  from le_value_bytes(2) [OF this] show ?thesis
    using unat_byte_at [of 0 v] unat_byte_at [of 8 v] unat_byte_at [of 16 v] unat_byte_at [of 24 v]
    by (simp add: mysql_write_le32_def del: le_value.simps)
qed

lemma le_value_le24:
  assumes "n < 2 ^ 24"
  shows "le_value (mysql_write_le24 (of_nat n)) = n"
proof -
  have "unat (of_nat n :: 32 word) = n" using assms by (simp add: unat_of_nat)
  with le_value_bytes(1) [of n] assms show ?thesis
    using unat_byte_at [of 0 "of_nat n"] unat_byte_at [of 8 "of_nat n"] unat_byte_at [of 16 "of_nat n"]
    by (simp add: mysql_write_le24_def del: le_value.simps)
qed

section \<open>Packets are framed\<close>

text \<open>A packet: the length of its payload in three bytes, its sequence number, its payload.\<close>

definition mysql_framed :: "string \<Rightarrow> bool" where
  "mysql_framed p \<longleftrightarrow> 4 \<le> length p \<and> le_value (take 3 p) = length p - 4"

lemma mysql_framedI:
  "length s < 2 ^ 24 \<Longrightarrow> mysql_framed (mysql_write_le24 (of_nat (length s)) @ c # s)"
  using le_value_le24 [of "length s"] by (simp add: mysql_framed_def mysql_write_le24_def)

lemma length_salt [simp]: "length (mysql_generate_salt g r n) = n"
  by (simp add: mysql_generate_salt_def split: option.split)

lemma salt_charset: "set (mysql_generate_salt g r n) \<subseteq> set mysql_charset"
proof -
  have "mysql_charset ! (k mod length mysql_charset) \<in> set mysql_charset" for k
    by (intro nth_mem mod_less_divisor) (simp add: mysql_charset_def)
  then show ?thesis by (auto simp: mysql_generate_salt_def split: option.split)
qed

lemma length_greeting: "length (mysql_greeting_payload a b c) = 71 + length a + length b"
  by (simp add: mysql_greeting_payload_def Let_def mysql_consts mysql_write_le16_def mysql_write_le32_def)

lemma length_denied: "length (mysql_denied u ip) \<le> 255"
  using length_snprintf_le [of 256] by (simp add: mysql_denied_def)

lemma mysql_error_packet:
  "\<exists>s. mysql_build_error_packet 512 seq u ip =
      mysql_write_le24 (of_nat (length s)) @ [char_of (unat seq)] @ s \<and> length s \<le> 264 \<and> hd s = CHR 0xFF
    \<and> drop 9 s = mysql_denied u ip"
  using length_denied [of u ip]
  by (intro exI [of _ "[CHR 0xFF] @ mysql_write_le16 MYSQL_HONEYPOT_ERR_CODE @ ''#'' @ ''28000'' @ mysql_denied u ip"])
    (simp add: mysql_build_error_packet_def Let_def mysql_write_le16_def)

section \<open>Dialogues\<close>

definition mysql_query_packet :: "char \<times> string \<Rightarrow> string" where
  "mysql_query_packet q = mysql_write_le24 (of_nat (1 + length (snd q))) @ [fst q, CHR 0x03] @ snd q"

definition mysql_query_ok :: "char \<times> string \<Rightarrow> bool" where
  "mysql_query_ok q \<longleftrightarrow> snd q \<noteq> [] \<and> nul_free (snd q) \<and> length (snd q) \<le> 1024"

lemma mysql_query_captured:
  "mysql_query_ok q \<Longrightarrow> mysql_extract_and_log_query ip port sid (mysql_query_packet q) =
     [Log UTILITIES_WARN [Str (snd q), Str ip, Num port],
      Audit (audit_record_command MYSQL_PROTOCOL ip port sid (snd q))]"
  by (auto simp: mysql_extract_and_log_query_def mysql_query_packet_def mysql_query_ok_def
      mysql_write_le24_def Let_def)

lemma audits_mysql_dialogue:
  "audits (dialogue (mysql_message ip port sid u) mem ds) =
     concat (map (\<lambda>d. audits (mysql_extract_and_log_query ip port sid d)) ds)"
  by (induction ds arbitrary: mem) (simp_all add: mysql_message_def Let_def)

lemma mysql_queries:
  assumes "list_all mysql_query_ok qs"
  shows "audits (mysql_loop ip port sid u mem (map (\<lambda>q. Data (mysql_query_packet q)) qs)) =
    map (\<lambda>q. audit_record_command MYSQL_PROTOCOL ip port sid (snd q)) qs"
proof -
  have "list_all (\<lambda>d. d \<noteq> [] \<and> length d \<le> MYSQL_HONEYPOT_RECV_BUF_SIZE) (map mysql_query_packet qs)"
    using assms
    by (auto simp: list_all_iff mysql_query_packet_def mysql_query_ok_def mysql_consts mysql_write_le24_def)
  from mysql_loop.loop_dialogue [OF this, of ip port sid u mem] have
    "audits (mysql_loop ip port sid u mem (map (\<lambda>q. Data (mysql_query_packet q)) qs)) =
      concat (map (\<lambda>q. audits (mysql_extract_and_log_query ip port sid (mysql_query_packet q))) qs)"
    by (simp add: audits_mysql_dialogue comp_def)
  also have "\<dots> = map (\<lambda>q. audit_record_command MYSQL_PROTOCOL ip port sid (snd q)) qs"
    using assms by (induction qs) (simp_all add: mysql_query_captured)
  finally show ?thesis .
qed

text \<open>A handshake response: 36 bytes, the user name, anything.\<close>

lemma mysql_handshake:
  assumes "length pre = 36" "u \<noteq> []" "nul_free u" "d = pre @ u @ NUL # post"
  shows "mysql_extract_username (overlay d mem) (length d) = Some 36"
    "overlay d mem ! 36 \<noteq> NUL" "mysql_name_text (In_buffer 36) (overlay d mem) = u"
proof -
  have "strchr (u @ NUL # post) NUL \<noteq> None" using strchr_fresh [of NUL u post] assms(3) by (simp add: nul_free_def)
  then show "mysql_extract_username (overlay d mem) (length d) = Some 36"
    using assms by (simp add: mysql_extract_username_def overlay_def)
  show "overlay d mem ! 36 \<noteq> NUL" using assms by (cases u) (auto simp: overlay_def nth_append)
  show "mysql_name_text (In_buffer 36) (overlay d mem) = u"
    using assms by (simp add: overlay_def)
qed

section \<open>Properties\<close>

text \<open>C32: The MySQL greeting always fits its buffer and is a complete protocol packet of 95 bytes with sequence
  number 0: protocol version 10, the version text of the imitated server, the connection number in
  little-endian order, the capabilities 0xF7DF and 0, the character set and, at the end, the name of the authentication
  method. Its 20 bytes of salt are letters and digits, with or without \<open>getrandom\<close>.\<close>

theorem mysql_greeting_complete:
  "let p = mysql_build_greeting_packet r MYSQL_HONEYPOT_GREETING_SIZE conn_id
   in length p = 95 \<and> mysql_framed p \<and> p ! 3 = NUL \<and> p ! 4 = CHR 0x0A
     \<and> take 24 (drop 5 p) = ''5.7.42-0ubuntu0.18.04.1'' @ [NUL]
     \<and> le_value (take 4 (drop 29 p)) = unat conn_id
     \<and> set (take 8 (drop 33 p) @ take 12 (drop 60 p)) \<subseteq> set mysql_charset
     \<and> take 3 (drop 42 p) = [CHR 0xDF, CHR 0xF7, CHR 0x21] \<and> take 2 (drop 47 p) = [NUL, NUL]
     \<and> drop 73 p = ''mysql_native_password'' @ [NUL]"
proof -
  let ?a = "mysql_generate_salt (my_getrandom1 r) (my_rand1 r) 8"
  let ?b = "mysql_generate_salt (my_getrandom2 r) (my_rand2 r) 12"
  let ?s = "mysql_greeting_payload ?a ?b conn_id"
  have len: "length ?s = 91" by (simp add: length_greeting)
  have p: "mysql_build_greeting_packet r MYSQL_HONEYPOT_GREETING_SIZE conn_id =
      mysql_write_le24 (of_nat (length ?s)) @ NUL # ?s"
    using len by (simp add: mysql_build_greeting_packet_def Let_def mysql_consts)
  have three: "length (mysql_write_le24 v) = 3" for v by (simp add: mysql_write_le24_def)
  then have drop: "drop (4 + k) (mysql_write_le24 (of_nat (length ?s)) @ NUL # ?s) = drop k ?s" for k by simp
  have parts: "drop 25 ?s = mysql_write_le32 conn_id @ ?a @ drop 37 ?s" "drop 29 ?s = ?a @ drop 37 ?s"
    "drop 56 ?s = ?b @ drop 68 ?s" "?s ! 0 = CHR 0x0A"
    "take 24 (drop 1 ?s) = ''5.7.42-0ubuntu0.18.04.1'' @ [NUL]"
    "take 3 (drop 38 ?s) = [CHR 0xDF, CHR 0xF7, CHR 0x21]" "take 2 (drop 43 ?s) = [NUL, NUL]"
    "drop 69 ?s = ''mysql_native_password'' @ [NUL]"
    by (simp_all add: mysql_greeting_payload_def Let_def mysql_consts mysql_write_le16_def
        mysql_write_le32_def mysql_capabilities_def char_eval)
  have four: "length (mysql_write_le32 conn_id) = 4" by (simp add: mysql_write_le32_def)
  have "mysql_framed (mysql_write_le24 (of_nat (length ?s)) @ NUL # ?s)"
    by (rule mysql_framedI) (simp add: len)
  moreover have "set ?a \<union> set ?b \<subseteq> set mysql_charset" using salt_charset by simp
  ultimately show ?thesis
    using drop [of 1] drop [of 25] drop [of 29] drop [of 38] drop [of 43] drop [of 56] drop [of 69] parts
      le_value_le32 [of conn_id]
    by (simp add: p Let_def three four len nth_append)
qed

text \<open>Every refusal, whatever the user name and the address, fits its packet buffer and is a complete
  error packet with the sequence number it was given.\<close>

theorem mysql_refusal_complete:
  "let p = mysql_build_error_packet 512 seq u ip
   in 0 < length p \<and> length p \<le> 268 \<and> mysql_framed p \<and> p ! 3 = char_of (unat seq) \<and> p ! 4 = CHR 0xFF"
proof -
  from mysql_error_packet [of seq u ip] obtain s where
    s: "mysql_build_error_packet 512 seq u ip = mysql_write_le24 (of_nat (length s)) @ [char_of (unat seq)] @ s"
      "length s \<le> 264" "hd s = CHR 0xFF" "drop 9 s = mysql_denied u ip" by blast
  have "s \<noteq> []" using s(4) by (auto simp: mysql_denied_def snprintf_def)
  then have "s ! 0 = CHR 0xFF" using s(3) by (simp add: hd_conv_nth)
  then show ?thesis
    using mysql_framedI [of s "char_of (unat seq)"] s(2)
    by (simp add: s(1) mysql_write_le24_def nth_append)
qed

text \<open>C33: The MySQL service records the user name of the handshake and then every query in order,
  between the connection and the disconnection.\<close>

theorem mysql_session_records:
  assumes "length pre = 36" "u \<noteq> []" "nul_free u" "length (pre @ u @ NUL # post) \<le> 4096"
    and "list_all mysql_query_ok qs" and "0 < my_sent env"
    and "ib = Data (pre @ u @ NUL # post) # map (\<lambda>q. Data (mysql_query_packet q)) qs"
  shows "audits (run_mysql_service env sid conn ib) =
      audit_record_connection MYSQL_PROTOCOL (remote_ip conn) (uint (remote_port conn)) sid
      # audit_record_auth MYSQL_PROTOCOL (remote_ip conn) (uint (remote_port conn)) sid u (Some []) False
      # map (\<lambda>q. audit_record_command MYSQL_PROTOCOL (remote_ip conn) (uint (remote_port conn)) sid (snd q)) qs
      @ [audit_record_disconnect MYSQL_PROTOCOL (remote_ip conn) (uint (remote_port conn)) sid]"
proof -
  let ?d = "pre @ u @ NUL # post"
  note hs = mysql_handshake [OF assms(1-3) refl, where mem = "my_stack env"]
  have "length (mysql_build_greeting_packet r MYSQL_HONEYPOT_GREETING_SIZE n) \<noteq> 0" for r n
    by (simp add: mysql_build_greeting_packet_def Let_def mysql_consts length_greeting)
  moreover have "recv MYSQL_HONEYPOT_RECV_BUF_SIZE ib = (Got ?d, map (\<lambda>q. Data (mysql_query_packet q)) qs)"
    using assms(4) unfolding assms(7) by (intro recv_one) (auto simp: mysql_consts)
  ultimately show ?thesis using assms(6)
    by (simp add: run_mysql_service_def Let_def hs(1) [simplified] hs(2,3) mysql_queries [OF assms(5)]
        del: mysql_name_text.simps)
qed

theorem mysql_session_records_witness:
  "audits (run_mysql_service
      \<lparr>my_random = \<lparr>my_getrandom1 = None, my_rand1 = \<lambda>i. i, my_getrandom2 = None, my_rand2 = \<lambda>i. i\<rparr>,
       my_counter = 7, my_sent = 95, my_errno = 0, my_stack = []\<rparr> ''id''
      (connection_create 5 ''10.0.0.1'' 4711 MYSQL_PROTOCOL 0 0)
      [Data (replicate 36 (CHR ''x'') @ ''root'' @ [NUL]), Data (mysql_query_packet (NUL, ''SELECT 1''))]) =
     [audit_record_connection MYSQL_PROTOCOL ''10.0.0.1'' 4711 ''id'',
      audit_record_auth MYSQL_PROTOCOL ''10.0.0.1'' 4711 ''id'' ''root'' (Some []) False,
      audit_record_command MYSQL_PROTOCOL ''10.0.0.1'' 4711 ''id'' ''SELECT 1'',
      audit_record_disconnect MYSQL_PROTOCOL ''10.0.0.1'' 4711 ''id'']"
proof -
  let ?env = "\<lparr>my_random = \<lparr>my_getrandom1 = None, my_rand1 = \<lambda>i. i, my_getrandom2 = None, my_rand2 = \<lambda>i. i\<rparr>,
       my_counter = 7, my_sent = 95, my_errno = 0, my_stack = []\<rparr>"
  have "list_all mysql_query_ok [(NUL, ''SELECT 1'')]" by (simp add: mysql_query_ok_def)
  from mysql_session_records [of "replicate 36 (CHR ''x'')" "''root''" "[]", OF _ _ _ _ this, of ?env]
  show ?thesis by (simp add: connection_create_def strncpy_def)
qed

section \<open>What goes wrong\<close>

text \<open>
  The user name of the later refusals is read from the receive buffer after the next message has
  overwritten it: the client is told the bytes of its own message from offset 36 on as the user.
\<close>

lemma mysql_name_overwritten:
  assumes "36 < length d" "nul_free (drop 36 d)"
  shows "prefix (drop 36 d) (mysql_name_text (In_buffer 36) (overlay d mem))"
  using assms cstr_append_free [of "drop 36 d" "drop (length d) mem"]
  by (auto simp: overlay_def)

text \<open>A client that sends nothing leaves a connection without a disconnection in the trail.\<close>

lemma mysql_silent_client_never_disconnects:
  assumes "0 < my_sent env"
  shows "audits (run_mysql_service env sid conn []) =
    [audit_record_connection MYSQL_PROTOCOL (remote_ip conn) (uint (remote_port conn)) sid]"
  using assms by (simp add: run_mysql_service_def Let_def)

text \<open>The capability flags announce no pluggable authentication (bit 19), although a plugin is named.\<close>

lemma mysql_no_plugin_auth: "\<not> bit mysql_capabilities 19"
  by (simp add: mysql_capabilities_def)

end
