(* ===== verification/Logger.thy ===== *)
theory Logger
  imports Platform "HOL-Library.Signed_Division"
begin

text \<open>
  src/utilities/logger.c with include/logger.h: levels, the three outputs of a message, JSON
  escaping, composed messages, masking of secrets, retries.

  A format string with its arguments is the text it expands to. What the system tells (the time,
  the host name, the process and the thread) is a parameter. A \<open>const char *\<close> that may be
  NULL is an option.
\<close>

section \<open>Levels\<close>

definition UTILITIES_APP_NAME :: string where "UTILITIES_APP_NAME = ''HoneyDew''"
definition UTILITIES_VERSION :: string where "UTILITIES_VERSION = ''1.0.0''"
definition UTILITIES_LOG_BUFFER_SIZE :: nat where "UTILITIES_LOG_BUFFER_SIZE = 4096"
definition UTILITIES_MASK_PREFIX_LEN :: nat where "UTILITIES_MASK_PREFIX_LEN = 4"

abbreviation ESC :: char where "ESC \<equiv> CHR 0x1B"
abbreviation BACKSLASH :: char where "BACKSLASH \<equiv> CHR 0x5C"

fun level_num :: "UtilitiesLogLevel \<Rightarrow> int" where
  "level_num UTILITIES_VERBOSE = 0"
| "level_num UTILITIES_DEBUG = 1"
| "level_num UTILITIES_INFO = 2"
| "level_num UTILITIES_WARN = 3"
| "level_num UTILITIES_ERROR = 4"

fun level_color :: "UtilitiesLogLevel \<Rightarrow> string" where
  "level_color UTILITIES_VERBOSE = ESC # ''[35m''"
| "level_color UTILITIES_DEBUG = ESC # ''[36m''"
| "level_color UTILITIES_INFO = ESC # ''[32m''"
| "level_color UTILITIES_WARN = ESC # ''[33m''"
| "level_color UTILITIES_ERROR = ESC # ''[31m''"

definition s_ansi_reset :: string where "s_ansi_reset = ESC # ''[0m''"
definition s_ansi_bold :: string where "s_ansi_bold = ESC # ''[1m''"
definition s_ansi_dim :: string where "s_ansi_dim = ESC # ''[90m''"

fun utilities_log_level_str :: "UtilitiesLogLevel \<Rightarrow> string" where
  "utilities_log_level_str UTILITIES_VERBOSE = [CHR 0xE8, CHR 0xAF, CHR 0xA6, CHR 0xE7, CHR 0xBB, CHR 0x86]"
| "utilities_log_level_str UTILITIES_DEBUG = [CHR 0xE8, CHR 0xB0, CHR 0x83, CHR 0xE8, CHR 0xAF, CHR 0x95]"
| "utilities_log_level_str UTILITIES_INFO = [CHR 0xE4, CHR 0xBF, CHR 0xA1, CHR 0xE6, CHR 0x81, CHR 0xAF]"
| "utilities_log_level_str UTILITIES_WARN = [CHR 0xE8, CHR 0xAD, CHR 0xA6, CHR 0xE5, CHR 0x91, CHR 0x8A]"
| "utilities_log_level_str UTILITIES_ERROR = [CHR 0xE9, CHR 0x94, CHR 0x99, CHR 0xE8, CHR 0xAF, CHR 0xAF]"

fun utilities_log_level_cloudwatch :: "UtilitiesLogLevel \<Rightarrow> string" where
  "utilities_log_level_cloudwatch UTILITIES_VERBOSE = ''VERBOSE''"
| "utilities_log_level_cloudwatch UTILITIES_DEBUG = ''DEBUG''"
| "utilities_log_level_cloudwatch UTILITIES_INFO = ''INFO''"
| "utilities_log_level_cloudwatch UTILITIES_WARN = ''WARN''"
| "utilities_log_level_cloudwatch UTILITIES_ERROR = ''ERROR''"

section \<open>Configuration\<close>

text \<open>The variables of the module: \<open>s_log_file\<close> is whether a file is open.\<close>

record logger =
  utilities_current_level :: UtilitiesLogLevel
  utilities_cloudwatch_mode :: bool
  utilities_file_logging :: bool
  utilities_log_file_path :: "string option"
  s_log_file :: bool
  s_error_callback :: bool

definition logger_init :: logger where
  "logger_init = \<lparr>utilities_current_level = UTILITIES_VERBOSE, utilities_cloudwatch_mode = False,
     utilities_file_logging = False, utilities_log_file_path = None, s_log_file = False,
     s_error_callback = False\<rparr>"

definition utilities_set_log_level :: "logger \<Rightarrow> string option \<Rightarrow> logger" where
  "utilities_set_log_level lg level =
     (case level of
        None \<Rightarrow> lg
      | Some l \<Rightarrow>
          if l = [CHR 0xE8, CHR 0xAF, CHR 0xA6, CHR 0xE7, CHR 0xBB, CHR 0x86] \<or> l = ''VERBOSE'' then lg\<lparr>utilities_current_level := UTILITIES_VERBOSE\<rparr>
          else if l = [CHR 0xE8, CHR 0xB0, CHR 0x83, CHR 0xE8, CHR 0xAF, CHR 0x95] \<or> l = ''DEBUG'' then lg\<lparr>utilities_current_level := UTILITIES_DEBUG\<rparr>
          else if l = [CHR 0xE4, CHR 0xBF, CHR 0xA1, CHR 0xE6, CHR 0x81, CHR 0xAF] \<or> l = ''INFO'' then lg\<lparr>utilities_current_level := UTILITIES_INFO\<rparr>
          else if l = [CHR 0xE8, CHR 0xAD, CHR 0xA6, CHR 0xE5, CHR 0x91, CHR 0x8A] \<or> l = ''WARN'' then lg\<lparr>utilities_current_level := UTILITIES_WARN\<rparr>
          else if l = [CHR 0xE9, CHR 0x94, CHR 0x99, CHR 0xE8, CHR 0xAF, CHR 0xAF] \<or> l = ''ERROR'' then lg\<lparr>utilities_current_level := UTILITIES_ERROR\<rparr>
          else lg)"

definition utilities_enable_cloudwatch_mode :: "logger \<Rightarrow> bool \<Rightarrow> logger" where
  "utilities_enable_cloudwatch_mode lg enable = lg\<lparr>utilities_cloudwatch_mode := enable\<rparr>"

text \<open>\<open>opens\<close> tells whether \<open>fopen(file_path, "a")\<close> succeeds.\<close>

definition utilities_enable_file_logging :: "bool \<Rightarrow> logger \<Rightarrow> string option \<Rightarrow> logger" where
  "utilities_enable_file_logging opens lg file_path =
     (case file_path of
        None \<Rightarrow> lg
      | Some path \<Rightarrow>
          let lg = lg\<lparr>s_log_file := opens\<rparr>
          in if opens then lg\<lparr>utilities_file_logging := True, utilities_log_file_path := Some path\<rparr>
             else lg)"

definition utilities_register_error_callback :: "logger \<Rightarrow> bool \<Rightarrow> logger" where
  "utilities_register_error_callback lg cb = lg\<lparr>s_error_callback := cb\<rparr>"

definition utilities_bold :: "logger \<Rightarrow> string option \<Rightarrow> string" where
  "utilities_bold lg txt =
     (case txt of
        None \<Rightarrow> ''''
      | Some t \<Rightarrow> if utilities_cloudwatch_mode lg then t
                   else snprintf 512 (s_ansi_bold @ t @ s_ansi_reset))"

section \<open>Messages\<close>

text \<open>What the system tells while a message is written; \<open>sys_date\<close> is the text of \<open>strftime\<close>.\<close>

record log_sys =
  sys_date_iso :: string
  sys_date_display :: string
  sys_nsec :: nat
  sys_hostname :: "string option"
  sys_pid :: int
  sys_tid :: int

definition pad3 :: "nat \<Rightarrow> string" where
  "pad3 n = replicate (3 - length (dec n)) (CHR ''0'') @ dec n"

definition current_timestamp_iso8601 :: "log_sys \<Rightarrow> nat \<Rightarrow> string" where
  "current_timestamp_iso8601 sys buf_size =
     sys_date_iso sys
     @ snprintf (buf_size - length (sys_date_iso sys)) (''.'' @ pad3 (sys_nsec sys div 1000000))"

definition current_timestamp_display :: "log_sys \<Rightarrow> nat \<Rightarrow> string" where
  "current_timestamp_display sys buf_size =
     sys_date_display sys
     @ snprintf (buf_size - length (sys_date_display sys)) (''.'' @ pad3 (sys_nsec sys div 1000000))"

text \<open>The loop over the characters of \<open>src\<close>; \<open>dst\<close> is what has been written.\<close>

fun escape_json :: "nat \<Rightarrow> string \<Rightarrow> string \<Rightarrow> string" where
  "escape_json dst_size dst [] = dst"
| "escape_json dst_size dst (c # src) =
     (if \<not> length dst < dst_size - 2 then dst
      else
        let two = (\<lambda>e. if length dst + 2 < dst_size then dst @ [BACKSLASH, e] else dst)
        in escape_json dst_size
             (if c = QUOTE then two QUOTE
              else if c = BACKSLASH then two BACKSLASH
              else if c = LF then two (CHR ''n'')
              else if c = CR then two (CHR ''r'')
              else if c = TAB then two (CHR ''t'')
              else dst @ [c]) src)"

definition escape_json_string :: "string \<Rightarrow> nat \<Rightarrow> string" where
  "escape_json_string src dst_size = escape_json dst_size [] src"

datatype log_out = Stdout string | Stderr string | To_file string | Callback string

definition json_line :: "log_sys \<Rightarrow> UtilitiesLogLevel \<Rightarrow> string \<Rightarrow> string" where
  "json_line sys level message =
     (let field = (\<lambda>k v. [QUOTE] @ k @ [QUOTE] @ '':'' @ v); str = (\<lambda>v. [QUOTE] @ v @ [QUOTE])
      in ''{'' @ field ''timestamp'' (str (current_timestamp_iso8601 sys 64)) @ '',''
         @ field ''level'' (str (utilities_log_level_cloudwatch level)) @ '',''
         @ field ''level_cn'' (str (utilities_log_level_str level)) @ '',''
         @ field ''application'' (str UTILITIES_APP_NAME) @ '',''
         @ field ''version'' (str UTILITIES_VERSION) @ '',''
         @ field ''hostname'' (str (case sys_hostname sys of Some h \<Rightarrow> h | None \<Rightarrow> ''unknown'')) @ '',''
         @ field ''pid'' (dec_int (sys_pid sys)) @ '','' @ field ''tid'' (dec_int (sys_tid sys)) @ '',''
         @ field ''message'' (str (escape_json_string message UTILITIES_LOG_BUFFER_SIZE)) @ ''}'' @ [LF])"

text \<open>\<open>txt\<close> is the text the format and its arguments expand to.\<close>

definition utilities_log :: "logger \<Rightarrow> log_sys \<Rightarrow> UtilitiesLogLevel \<Rightarrow> string \<Rightarrow> log_out list" where
  "utilities_log lg sys level txt =
     (if level_num level < level_num (utilities_current_level lg) \<and> level \<noteq> UTILITIES_ERROR then []
      else
        let message = snprintf UTILITIES_LOG_BUFFER_SIZE txt
        in (if utilities_cloudwatch_mode lg then [Stdout (json_line sys level message)]
            else [Stderr (s_ansi_dim @ ''['' @ current_timestamp_display sys 64 @ ''] ['' @ level_color level
                    @ utilities_log_level_str level @ s_ansi_reset @ ''] '' @ message @ s_ansi_reset @ [LF])])
           @ (if s_log_file lg
              then [To_file (''['' @ current_timestamp_iso8601 sys 64 @ ''] [''
                      @ utilities_log_level_cloudwatch level @ ''] '' @ message @ [LF])]
              else [])
           @ (if level = UTILITIES_ERROR \<and> s_error_callback lg then [Callback message] else []))"

section \<open>Composed messages\<close>

text \<open>
  A chain of \<open>offset += snprintf(buf + offset, sizeof(buf) - (size_t)offset, ...)\<close> with an \<open>int\<close>
  \<open>offset\<close>. The result of \<open>snprintf\<close> is the length of the whole text, not of what was written, and -1 when that
  is no \<open>int\<close>; the buffer then holds what fits, as after any other call. Adding the lengths wraps around,
  which C leaves undefined. When \<open>offset\<close> is negative or larger than the buffer, the size
  wraps around and the call writes outside of the buffer.
\<close>

datatype log_error = Buffer_Overflow

definition c_int :: "int \<Rightarrow> int" where
  "c_int k = signed_take_bit 31 k"

definition snprintf_result :: "string \<Rightarrow> int" where
  "snprintf_result txt = (if length txt < 2 ^ 31 then int (length txt) else - 1)"

definition append_text :: "string \<times> int \<Rightarrow> string \<Rightarrow> log_error + string \<times> int" where
  "append_text b txt =
     (case b of (buf, offset) \<Rightarrow>
        if offset < 0 \<or> int UTILITIES_LOG_BUFFER_SIZE < offset then Inl Buffer_Overflow
        else Inr (take (nat offset) buf @ snprintf (UTILITIES_LOG_BUFFER_SIZE - nat offset) txt,
                  c_int (offset + snprintf_result txt)))"

text \<open>The test after a detail compares \<open>(size_t)offset\<close>, so it also stops at a negative \<open>offset\<close>.\<close>

fun append_details :: "string \<times> int \<Rightarrow> string list \<Rightarrow> log_error + string \<times> int" where
  "append_details b [] = Inr b"
| "append_details b (d # ds) =
     (case append_text b ('' | '' @ d) of
        Inl e \<Rightarrow> Inl e
      | Inr b \<Rightarrow> if snd b < 0 \<or> int UTILITIES_LOG_BUFFER_SIZE - 1 \<le> snd b then Inr b
                else append_details b ds)"

abbreviation or_unknown :: "string option \<Rightarrow> string" where
  "or_unknown s \<equiv> (case s of Some t \<Rightarrow> t | None \<Rightarrow> ''?'')"

definition utilities_logf ::
  "logger \<Rightarrow> log_sys \<Rightarrow> string option \<Rightarrow> string option \<Rightarrow> UtilitiesLogLevel \<Rightarrow> string option \<Rightarrow> int
   \<Rightarrow> string option \<Rightarrow> string list option \<Rightarrow> log_error + log_out list" where
  "utilities_logf lg sys component operation level status elapsed_ms caller details =
     (case append_text ([], 0) (''['' @ or_unknown component @ ''::'' @ or_unknown operation @ ''] ''
             @ (case status of Some t \<Rightarrow> t | None \<Rightarrow> '''') @ '' ('' @ dec_int elapsed_ms @ [CHR 0xE6, CHR 0xAF, CHR 0xAB, CHR 0xE7, CHR 0xA7, CHR 0x92] @ '')'') of
        Inl e \<Rightarrow> Inl e
      | Inr b \<Rightarrow>
          (case (case caller of
                   Some c \<Rightarrow> if c \<noteq> [] then append_text b ('' @'' @ c) else Inr b
                 | None \<Rightarrow> Inr b) of
             Inl e \<Rightarrow> Inl e
           | Inr b \<Rightarrow>
               (case (case details of Some ds \<Rightarrow> append_details b ds | None \<Rightarrow> Inr b) of
                  Inl e \<Rightarrow> Inl e
                | Inr b \<Rightarrow> Inr (utilities_log lg sys level (fst b)))))"

definition utilities_log_progress ::
  "logger \<Rightarrow> log_sys \<Rightarrow> string option \<Rightarrow> string option \<Rightarrow> string option \<Rightarrow> string list option
   \<Rightarrow> log_error + log_out list" where
  "utilities_log_progress lg sys component operation msg details =
     (case append_text ([], 0) (''['' @ or_unknown component @ ''::'' @ or_unknown operation @ ''] ''
             @ (case msg of Some t \<Rightarrow> t | None \<Rightarrow> '''')) of
        Inl e \<Rightarrow> Inl e
      | Inr b \<Rightarrow>
          (case (case details of Some ds \<Rightarrow> append_details b ds | None \<Rightarrow> Inr b) of
             Inl e \<Rightarrow> Inl e
           | Inr b \<Rightarrow> Inr (utilities_log lg sys UTILITIES_INFO (fst b))))"

definition utilities_log_start :: "logger \<Rightarrow> log_sys \<Rightarrow> string option \<Rightarrow> string option \<Rightarrow> log_out list" where
  "utilities_log_start lg sys component operation =
     utilities_log lg sys UTILITIES_INFO
       (''['' @ or_unknown component @ ''::'' @ or_unknown operation @ ''] '' @ [CHR 0xE5, CHR 0xBC, CHR 0x80, CHR 0xE5, CHR 0xA7, CHR 0x8B])"

definition utilities_log_success ::
  "logger \<Rightarrow> log_sys \<Rightarrow> string option \<Rightarrow> string option \<Rightarrow> int \<Rightarrow> string list option \<Rightarrow> log_error + log_out list" where
  "utilities_log_success lg sys component operation elapsed_ms details =
     utilities_logf lg sys component operation UTILITIES_INFO (Some [CHR 0xE6, CHR 0x88, CHR 0x90, CHR 0xE5, CHR 0x8A, CHR 0x9F]) elapsed_ms (Some '''') details"

definition utilities_log_error ::
  "logger \<Rightarrow> log_sys \<Rightarrow> string option \<Rightarrow> string option \<Rightarrow> string option \<Rightarrow> int \<Rightarrow> string list option
   \<Rightarrow> log_error + log_out list" where
  "utilities_log_error lg sys component operation error_msg elapsed_ms details =
     utilities_logf lg sys component operation UTILITIES_ERROR
       (Some (snprintf 1024 ([CHR 0xE5, CHR 0xA4, CHR 0xB1, CHR 0xE8, CHR 0xB4, CHR 0xA5, CHR 0x3A, CHR 0x20] @ (case error_msg of Some t \<Rightarrow> t | None \<Rightarrow> [CHR 0xE6, CHR 0x9C, CHR 0xAA, CHR 0xE7, CHR 0x9F, CHR 0xA5]))))
       elapsed_ms (Some '''') details"

definition utilities_log_warn ::
  "logger \<Rightarrow> log_sys \<Rightarrow> string option \<Rightarrow> string option \<Rightarrow> string option \<Rightarrow> int \<Rightarrow> string list option
   \<Rightarrow> log_error + log_out list" where
  "utilities_log_warn lg sys component operation warn_msg elapsed_ms details =
     utilities_logf lg sys component operation UTILITIES_WARN
       (Some (snprintf 1024 ([CHR 0xE8, CHR 0xAD, CHR 0xA6, CHR 0xE5, CHR 0x91, CHR 0x8A, CHR 0x3A, CHR 0x20] @ (case warn_msg of Some t \<Rightarrow> t | None \<Rightarrow> [CHR 0xE6, CHR 0x9C, CHR 0xAA, CHR 0xE7, CHR 0x9F, CHR 0xA5]))))
       elapsed_ms (Some '''') details"

section \<open>Masking and retrying\<close>

definition masked_mark :: string where "masked_mark = [CHR 0x5B, CHR 0xE5, CHR 0xB7, CHR 0xB2, CHR 0xE8, CHR 0x84, CHR 0xB1, CHR 0xE6,
     CHR 0x95, CHR 0x8F, CHR 0x5D]"

definition utilities_mask :: "string option \<Rightarrow> string" where
  "utilities_mask sensitive =
     (case sensitive of
        None \<Rightarrow> masked_mark
      | Some s \<Rightarrow>
          if length s \<le> UTILITIES_MASK_PREFIX_LEN then masked_mark
          else snprintf 256 (take UTILITIES_MASK_PREFIX_LEN s @ masked_mark))"

text \<open>
  \<open>fn i\<close> is what the \<open>i\<close>-th call of the function returns. The result, the messages logged and
  the pauses, in order.
\<close>

datatype retry_eff = Retry_log UtilitiesLogLevel "log_arg list" | Sleep int int

function retry_loop :: "(int \<Rightarrow> bool) \<Rightarrow> string \<Rightarrow> int \<Rightarrow> int \<Rightarrow> int \<Rightarrow> bool \<times> retry_eff list" where
  "retry_loop fn name max_attempts backoff_ms i =
     (if \<not> i < max_attempts then (False, [Retry_log UTILITIES_ERROR [Str name, Num max_attempts]])
      else if fn i then (True, [])
      else
        let es = (if i + 1 < max_attempts
                  then [Retry_log UTILITIES_WARN [Str name, Num (i + 1), Num max_attempts, Num backoff_ms],
                        Sleep (backoff_ms sdiv 1000) (backoff_ms smod 1000 * 1000000)]
                  else [])
        in case retry_loop fn name max_attempts backoff_ms (i + 1) of (r, es') \<Rightarrow> (r, es @ es'))"
  by pat_completeness auto
termination
  by (relation "measure (\<lambda>(_, _, max_attempts, _, i). nat (max_attempts - i))") auto

declare retry_loop.simps [simp del]

definition utilities_retry_with_backoff ::
  "string option \<Rightarrow> int \<Rightarrow> int \<Rightarrow> (int \<Rightarrow> bool) option \<Rightarrow> bool \<times> retry_eff list" where
  "utilities_retry_with_backoff name max_attempts backoff_ms fn =
     (case fn of
        None \<Rightarrow> (False, [])
      | Some f \<Rightarrow> if max_attempts \<le> 0 then (False, [])
                  else retry_loop f (or_unknown name) max_attempts backoff_ms 0)"

section \<open>What is written\<close>

lemma utilities_log_outputs:
  "utilities_log lg sys level txt \<noteq> [] \<longleftrightarrow>
     level = UTILITIES_ERROR \<or> level_num (utilities_current_level lg) \<le> level_num level"
  by (auto simp: utilities_log_def Let_def)

section \<open>JSON\<close>

text \<open>One character, and a whole text, as the JSON escapes of the module write them.\<close>

definition json_char :: "char \<Rightarrow> string" where
  "json_char c =
     (if c = QUOTE then [BACKSLASH, QUOTE] else if c = BACKSLASH then [BACKSLASH, BACKSLASH]
      else if c = LF then [BACKSLASH, CHR ''n''] else if c = CR then [BACKSLASH, CHR ''r'']
      else if c = TAB then [BACKSLASH, CHR ''t''] else [c])"

text \<open>What a JSON reader makes of the escapes.\<close>

fun json_read :: "string \<Rightarrow> string" where
  "json_read [] = []"
| "json_read [c] = [c]"
| "json_read (c # e # s) =
     (if c = BACKSLASH
      then (if e = CHR ''n'' then LF else if e = CHR ''r'' then CR else if e = CHR ''t'' then TAB else e)
           # json_read s
      else c # json_read (e # s))"

lemma json_read_char: "json_read (json_char c @ s) = c # json_read s"
  by (cases s) (auto simp: json_char_def)

lemma json_read_text: "json_read (concat (map json_char s)) = s"
  by (induction s) (simp_all add: json_read_char)

lemma length_json_char: "length (json_char c) \<le> 2"
  by (simp add: json_char_def)

lemma escape_step:
  "escape_json n dst (c # src) =
     (if length dst < n - 2 then escape_json n (dst @ json_char c) src else dst)"
  by (simp add: json_char_def Let_def less_diff_conv)

declare escape_json.simps(2) [simp del]

lemma escape_prefix:
  "\<exists>k. escape_json n dst src = dst @ concat (map json_char (take k src)) \<and>
     (k < length src \<longrightarrow> n - 2 \<le> length (dst @ concat (map json_char (take k src))))"
proof (induction src arbitrary: dst)
  case (Cons c src)
  show ?case
  proof (cases "length dst < n - 2")
    case True
    from Cons.IH [of "dst @ json_char c"] obtain k where
      "escape_json n (dst @ json_char c) src = dst @ json_char c @ concat (map json_char (take k src))"
      "k < length src \<longrightarrow> n - 2 \<le> length (dst @ json_char c @ concat (map json_char (take k src)))" by auto
    with True show ?thesis by (intro exI [of _ "Suc k"]) (simp add: escape_step)
  next
    case False
    then show ?thesis by (intro exI [of _ 0]) (simp add: escape_step)
  qed
qed (intro exI [of _ 0], simp)

lemma escape_bounded: "length dst < n \<Longrightarrow> length (escape_json n dst src) < n"
proof (induction src arbitrary: dst)
  case (Cons c src)
  then show ?case using length_json_char [of c] by (auto simp: escape_step intro!: Cons.IH)
qed simp

lemma json_lines_safe: "set (concat (map json_char s)) \<inter> {LF, CR, TAB} = {}"
  by (induction s) (auto simp: json_char_def split: if_splits)

text \<open>Every quote that is written is escaped.\<close>

fun quotes_escaped :: "string \<Rightarrow> bool" where
  "quotes_escaped [] \<longleftrightarrow> True"
| "quotes_escaped [c] \<longleftrightarrow> c \<noteq> QUOTE \<and> c \<noteq> BACKSLASH"
| "quotes_escaped (c # e # s) \<longleftrightarrow>
     (if c = BACKSLASH then quotes_escaped s else c \<noteq> QUOTE \<and> quotes_escaped (e # s))"

lemma quotes_escaped_char: "quotes_escaped (json_char c @ s) = quotes_escaped s"
  by (cases s) (auto simp: json_char_def)

lemma quotes_escaped_text: "quotes_escaped (concat (map json_char s))"
  by (induction s) (simp_all add: quotes_escaped_char)

section \<open>Composed messages\<close>

text \<open>The offsets at which nothing may be written.\<close>

definition outside :: "int \<Rightarrow> bool" where
  "outside n \<longleftrightarrow> n < 0 \<or> 4096 < n"

lemma append_text_at:
  "append_text (buf, n) t = (if outside n then Inl Buffer_Overflow
     else Inr (take (nat n) buf @ snprintf (4096 - nat n) t, c_int (n + snprintf_result t)))"
  by (simp add: append_text_def outside_def UTILITIES_LOG_BUFFER_SIZE_def)

lemma append_details_overflow:
  "append_details (buf, n) ds = Inl Buffer_Overflow \<longleftrightarrow> ds \<noteq> [] \<and> outside n"
proof (induction ds arbitrary: buf n)
  case (Cons d ds)
  show ?case
    by (simp add: append_text_at Cons.IH UTILITIES_LOG_BUFFER_SIZE_def) (simp add: outside_def)
qed simp

text \<open>The offset after one text at the beginning and after another one.\<close>

lemma c_int_id: "- (2 ^ 31) \<le> k \<Longrightarrow> k < 2 ^ 31 \<Longrightarrow> c_int k = k"
  by (simp add: c_int_def signed_take_bit_int_eq_self)

lemma c_int_wraps: "2 ^ 31 \<le> k \<Longrightarrow> k < 2 ^ 32 \<Longrightarrow> c_int k = k - 2 ^ 32"
proof -
  assume k: "2 ^ 31 \<le> k" "k < 2 ^ 32"
  have "c_int k = c_int (k - 2 ^ 32)"
    using signed_take_bit_diff [of 31 k "2 ^ 32"]
    by (simp add: c_int_def signed_take_bit_eq_take_bit_shift take_bit_eq_mod mod_diff_left_eq)
  with k show ?thesis using c_int_id [of "k - 2 ^ 32"] by simp
qed

lemma first_offset: "outside (c_int (0 + snprintf_result t)) \<longleftrightarrow> 4096 < length t"
  by (auto simp: snprintf_result_def outside_def c_int_id)

lemma next_offset:
  assumes "14 \<le> length h" "length h \<le> 4096"
  shows "outside (c_int (c_int (0 + snprintf_result h) + snprintf_result t)) \<longleftrightarrow>
    length t < 2 ^ 31 \<and> 4096 < length h + length t"
proof -
  have h: "c_int (0 + snprintf_result h) = int (length h)" using assms by (simp add: snprintf_result_def c_int_id)
  show ?thesis
  proof (cases "length t < 2 ^ 31 \<and> 2 ^ 31 \<le> length h + length t")
    case True
    then have "c_int (int (length h) + int (length t)) = int (length h) + int (length t) - 2 ^ 32"
      using assms by (intro c_int_wraps) auto
    with True assms show ?thesis unfolding h by (simp add: snprintf_result_def outside_def)
  next
    case False
    with assms show ?thesis unfolding h by (auto simp: snprintf_result_def outside_def c_int_id)
  qed
qed

section \<open>Retries\<close>

lemma retry_loop_result: "fst (retry_loop fn name m b i) \<longleftrightarrow> (\<exists>k. i \<le> k \<and> k < m \<and> fn k)"
proof (induction fn name m b i rule: retry_loop.induct)
  case (1 fn name m b i)
  show ?case
  proof (cases "i < m \<and> \<not> fn i")
    case True
    have "(\<exists>k. i \<le> k \<and> k < m \<and> fn k) \<longleftrightarrow> (\<exists>k. i + 1 \<le> k \<and> k < m \<and> fn k)"
      using True by (metis add1_zle_eq order_le_less less_imp_le)
    with 1 True show ?thesis by (subst retry_loop.simps) (simp add: case_prod_beta)
  next
    case False
    then show ?thesis by (subst retry_loop.simps) auto
  qed
qed

definition sleeps :: "retry_eff list \<Rightarrow> nat" where
  "sleeps es = length (filter (\<lambda>e. case e of Sleep _ _ \<Rightarrow> True | _ \<Rightarrow> False) es)"

lemma retry_loop_sleeps: "int (sleeps (snd (retry_loop fn name m b i))) \<le> max 0 (m - i - 1)"
proof (induction fn name m b i rule: retry_loop.induct)
  case (1 fn name m b i)
  then show ?case
    by (subst retry_loop.simps) (auto simp: case_prod_beta sleeps_def Let_def)
qed

section \<open>Properties\<close>

text \<open>C39: In JSON mode a message cannot break out of its field: the escaped text fits its buffer, has no
  line end, tab or unescaped quote, and a reader gets back the message, or a part of it from the
  beginning when the buffer is full.\<close>

theorem json_message_contained:
  "let e = escape_json_string s UTILITIES_LOG_BUFFER_SIZE
   in length e < 4096 \<and> quotes_escaped e \<and> set e \<inter> {LF, CR, TAB} = {}
     \<and> prefix (json_read e) s \<and> (json_read e = s \<or> 4094 \<le> length e)"
proof -
  from escape_prefix [of 4096 "[]" s] obtain k where k:
    "escape_json 4096 [] s = concat (map json_char (take k s))"
    "k < length s \<longrightarrow> 4094 \<le> length (concat (map json_char (take k s)))" by auto
  have "json_read (concat (map json_char (take k s))) = take k s" by (rule json_read_text)
  then show ?thesis
    using k escape_bounded [of "[]" 4096 s] quotes_escaped_text [of "take k s"] json_lines_safe [of "take k s"]
    by (auto simp: escape_json_string_def UTILITIES_LOG_BUFFER_SIZE_def Let_def take_is_prefix)
qed

text \<open>A level can be set by its Chinese or its English name, and then exactly the messages of that
  level and above are written; errors always are.\<close>

theorem log_level_by_name:
  "(utilities_log (utilities_set_log_level lg (Some (utilities_log_level_str l))) sys k txt \<noteq> []
      \<longleftrightarrow> k = UTILITIES_ERROR \<or> level_num l \<le> level_num k)
   \<and> (utilities_log (utilities_set_log_level lg (Some (utilities_log_level_cloudwatch l))) sys k txt \<noteq> []
      \<longleftrightarrow> k = UTILITIES_ERROR \<or> level_num l \<le> level_num k)"
  by (cases l) (simp_all add: utilities_log_outputs utilities_set_log_level_def)

text \<open>C40: A composed message is written outside of its buffer exactly in two cases, since the length is only
  checked after a detail: the text before the caller is longer than the buffer and anything follows it, or
  that text and the caller together are, and a detail follows. A caller of \<open>2 ^ 31\<close> bytes or more,
  whose length is no \<open>int\<close>, does not count in the second case. Any of the arguments may be NULL.\<close>

theorem logf_overflow_iff:
  "utilities_logf lg sys component operation level status ms caller details = Inl Buffer_Overflow \<longleftrightarrow>
   (let h = length (''['' @ or_unknown component @ ''::'' @ or_unknown operation @ ''] ''
              @ (case status of Some t \<Rightarrow> t | None \<Rightarrow> '''') @ '' ('' @ dec_int ms) + 7;
        c = (case caller of Some t \<Rightarrow> if t = [] then 0 else 2 + length t | None \<Rightarrow> 0);
        detail = (details \<noteq> None \<and> details \<noteq> Some [])
    in 4096 < h \<and> (0 < c \<or> detail) \<or> c < 2 ^ 31 \<and> 4096 < h + c \<and> detail)"
proof -
  let ?h = "''['' @ or_unknown component @ ''::'' @ or_unknown operation @ ''] ''
      @ (case status of Some t \<Rightarrow> t | None \<Rightarrow> '''') @ '' ('' @ dec_int ms
      @ [CHR 0xE6, CHR 0xAF, CHR 0xAB, CHR 0xE7, CHR 0xA7, CHR 0x92] @ '')''"
  let ?o = "c_int (0 + snprintf_result ?h)"
  have h14: "14 \<le> length ?h" by simp
  have 0: "append_text ([], 0) ?h = Inr (snprintf 4096 ?h, ?o)"
    by (simp only: append_text_at) (simp add: outside_def)
  have 2: "(case r of Inl e \<Rightarrow> Inl e | Inr b \<Rightarrow> Inr (f b)) = Inl Buffer_Overflow \<longleftrightarrow> r = Inl Buffer_Overflow"
    for r :: "log_error + string \<times> int" and f :: "string \<times> int \<Rightarrow> log_out list"
    by (cases r) auto
  have 3: "append_details b ds = Inl Buffer_Overflow \<longleftrightarrow> ds \<noteq> [] \<and> outside (snd b)" for b ds
    using append_details_overflow [of "fst b" "snd b" ds] by simp
  show ?thesis
  proof (cases "caller = None \<or> caller = Some []")
    case True
    then have "utilities_logf lg sys component operation level status ms caller details = Inl Buffer_Overflow
        \<longleftrightarrow> details \<noteq> None \<and> details \<noteq> Some [] \<and> outside ?o"
      unfolding utilities_logf_def 0 by (cases details) (auto simp: 2 3)
    then show ?thesis using True first_offset [of ?h] by (auto simp: Let_def)
  next
    case False
    then obtain c where c: "caller = Some c" "c \<noteq> []" by auto
    have "utilities_logf lg sys component operation level status ms caller details = Inl Buffer_Overflow
        \<longleftrightarrow> outside ?o \<or> details \<noteq> None \<and> details \<noteq> Some [] \<and> outside (c_int (?o + snprintf_result ('' @'' @ c)))"
      unfolding utilities_logf_def 0 using c by (cases details) (auto simp: append_text_at 2 3)
    then show ?thesis
      using c first_offset [of ?h] next_offset [OF h14, of "'' @'' @ c"]
      by (cases "length ?h \<le> 4096") (auto simp: Let_def)
  qed
qed

text \<open>A retried operation succeeds exactly when one of its first \<open>max_attempts\<close> calls does, and
  it pauses at most between two of them, never after the last.\<close>

theorem retry_bounded:
  "case utilities_retry_with_backoff name max_attempts backoff_ms fn of (r, es) \<Rightarrow>
     (r \<longleftrightarrow> (\<exists>f k. fn = Some f \<and> 0 \<le> k \<and> k < max_attempts \<and> f k))
     \<and> int (sleeps es) \<le> max 0 (max_attempts - 1)"
proof (cases "fn = None \<or> max_attempts \<le> 0")
  case True
  then show ?thesis by (auto simp: utilities_retry_with_backoff_def sleeps_def split: option.splits)
next
  case False
  then obtain f where f: "fn = Some f" "0 < max_attempts" by auto
  show ?thesis
    using f retry_loop_result [of f "or_unknown name" max_attempts backoff_ms 0]
      retry_loop_sleeps [of f "or_unknown name" max_attempts backoff_ms 0]
    by (cases "retry_loop f (or_unknown name) max_attempts backoff_ms 0")
      (auto simp: utilities_retry_with_backoff_def)
qed

section \<open>Divergence from JSON\<close>

text \<open>Control characters other than the three escaped ones are copied as they are, which JSON does not allow.\<close>

lemma json_control_char_raw:
  "escape_json_string [ESC] UTILITIES_LOG_BUFFER_SIZE = [ESC]"
  by (simp add: escape_json_string_def UTILITIES_LOG_BUFFER_SIZE_def escape_step json_char_def)

end
