(* ===== verification/Dispatcher.thy ===== *)
theory Dispatcher
  imports Finite_State
begin

text \<open>
  src/service/dispatcher.c with include/dispatcher.h: the table that binds ports to services,
  and the HTTP service, which reassembles lines from the connection's buffer and feeds them to
  \<open>handle_http\<close>.

  The memory the service asks for is a parameter: \<open>mem n\<close> and \<open>mal n\<close> tell whether
  \<open>realloc\<close> and \<open>malloc\<close> succeed while the peer's script still has size \<open>n\<close>.
\<close>

section \<open>The service table\<close>

datatype service_handler_t =
    Run_http_service | Run_ssh_service | Run_ftp_service | Run_telnet_service
  | Run_smtp_service | Run_mysql_service | Run_redis_service | Run_postgresql_service
  | Run_pop3_service | Run_imap_service | Run_dns_service | Run_questdb_service

record service_binding_t =
  sb_port :: int
  sb_proto :: protocol_type
  sb_handler :: "service_handler_t option"

definition service_map :: "service_binding_t list" where
  "service_map =
     [\<lparr>sb_port = 9090, sb_proto = HTTP_PROTOCOL, sb_handler = Some Run_http_service\<rparr>,
      \<lparr>sb_port = 2222, sb_proto = SSH_PROTOCOL, sb_handler = Some Run_ssh_service\<rparr>,
      \<lparr>sb_port = 2121, sb_proto = FTP_PROTOCOL, sb_handler = Some Run_ftp_service\<rparr>,
      \<lparr>sb_port = 2323, sb_proto = TELNET_PROTOCOL, sb_handler = Some Run_telnet_service\<rparr>,
      \<lparr>sb_port = 2525, sb_proto = SMTP_PROTOCOL, sb_handler = Some Run_smtp_service\<rparr>,
      \<lparr>sb_port = 3306, sb_proto = MYSQL_PROTOCOL, sb_handler = Some Run_mysql_service\<rparr>,
      \<lparr>sb_port = 6379, sb_proto = REDIS_PROTOCOL, sb_handler = Some Run_redis_service\<rparr>,
      \<lparr>sb_port = 5432, sb_proto = POSTGRESQL_PROTOCOL, sb_handler = Some Run_postgresql_service\<rparr>,
      \<lparr>sb_port = 1100, sb_proto = POP3_PROTOCOL, sb_handler = Some Run_pop3_service\<rparr>,
      \<lparr>sb_port = 1430, sb_proto = IMAP_PROTOCOL, sb_handler = Some Run_imap_service\<rparr>,
      \<lparr>sb_port = 5353, sb_proto = DNS_PROTOCOL, sb_handler = Some Run_dns_service\<rparr>,
      \<lparr>sb_port = 8812, sb_proto = QUESTDB_PROTOCOL, sb_handler = Some Run_questdb_service\<rparr>,
      \<lparr>sb_port = 0, sb_proto = UNKNOWN_PROTOCOL, sb_handler = None\<rparr>]"

section \<open>Lines\<close>

definition extract_line :: "bool \<Rightarrow> connection \<Rightarrow> string option \<times> connection" where
  "extract_line mal conn =
     (if buffer_length conn = 0 then (None, conn)
      else
        let start = tcp_reassembly_buffer conn in
        case find_index (\<lambda>c. c = LF) (take (unat (buffer_length conn)) start) of
          None \<Rightarrow> (None, conn)
        | Some i \<Rightarrow>
            if \<not> mal then (None, conn)
            else
              let line_len = (if 0 < i \<and> start ! (i - 1) = CR then i - 1 else i);
                  line = take line_len start;
                  consume = min (i + 1) (unat (buffer_length conn))
              in (Some line,
                  conn\<lparr>tcp_reassembly_buffer :=
                         memcpy_at start 0
                           (take (unat (buffer_length conn) - consume) (drop consume start)),
                       buffer_length := buffer_length conn - of_nat consume\<rparr>))"

text \<open>Taking a line takes at least one byte.\<close>

lemma extract_line_decreases:
  assumes "extract_line mal conn = (Some line, conn')"
  shows "unat (buffer_length conn') < unat (buffer_length conn)"
proof -
  from assms have nz: "buffer_length conn \<noteq> 0" by (auto simp: extract_line_def split: if_splits)
  then have pos: "0 < unat (buffer_length conn)" by (simp add: unat_gt_0)
  from assms nz obtain i where
    "buffer_length conn' = buffer_length conn - of_nat (min (i + 1) (unat (buffer_length conn)))"
    (is "_ = _ - of_nat ?k")
    by (auto simp: extract_line_def Let_def split: option.splits if_splits)
  moreover have k: "0 < ?k" "?k \<le> unat (buffer_length conn)" using pos by auto
  then have "unat (of_nat ?k :: size_t) = ?k"
    using unat_size_t_less [of "buffer_length conn"] by (simp add: unat_of_nat)
  ultimately show ?thesis using k by (simp add: unat_sub word_le_nat_alt)
qed

section \<open>The HTTP service\<close>

text \<open>The inner loop: whether the session is over, and the effects.\<close>

function http_lines :: "bool \<Rightarrow> connection \<Rightarrow> connection \<times> eff list \<times> bool" where
  "http_lines mal conn =
     (case extract_line mal conn of
        (None, conn) \<Rightarrow> (conn, [], False)
      | (Some line, conn1) \<Rightarrow>
          let logged = Log UTILITIES_DEBUG [Str (cstr line), Num (socket_file_descriptor conn)];
              (conn2, response) = handle_http conn1 (Some (cstr line));
              es = logged # (case response of None \<Rightarrow> [] | Some r \<Rightarrow> [Send r])
          in if state conn2 = HTTP_STATE_CLOSE then (conn2, es, True)
             else (case http_lines mal conn2 of (conn3, es', over) \<Rightarrow> (conn3, es @ es', over)))"
  by pat_completeness auto
termination
  by (relation "measure (\<lambda>(mal, conn). unat (buffer_length conn))")
    (auto simp: handle_http_def split: if_splits dest!: extract_line_decreases [OF sym])

declare http_lines.simps [simp del]

text \<open>The outer loop; \<open>None\<close> when \<open>connection_append_data\<close> does not return.\<close>

function http_loop ::
  "(nat \<Rightarrow> char) \<Rightarrow> (nat \<Rightarrow> bool) \<Rightarrow> (nat \<Rightarrow> bool) \<Rightarrow> connection \<Rightarrow> segment list \<Rightarrow> eff list option" where
  "http_loop junk mem mal conn ib =
     (case recv 1024 ib of
        (Eof, _) \<Rightarrow> Some [Log UTILITIES_INFO [Num (socket_file_descriptor conn)]]
      | (Err, _) \<Rightarrow> Some [Log UTILITIES_WARN [Num (socket_file_descriptor conn)]]
      | (Got d, ib') \<Rightarrow>
          (case connection_append_data junk (mem (inbox_size ib')) conn d of
             None \<Rightarrow> None
           | Some conn1 \<Rightarrow>
               (case http_lines (mal (inbox_size ib')) conn1 of
                  (conn2, es, over) \<Rightarrow>
                    if over then Some es
                    else map_option (\<lambda>es'. es @ es') (http_loop junk mem mal conn2 ib'))))"
  by pat_completeness auto
termination
  by (relation "measure (\<lambda>(_, _, _, _, ib). inbox_size ib)") (auto simp: recv_decreases)

declare http_loop.simps [simp del]

definition run_http_service ::
  "(nat \<Rightarrow> char) \<Rightarrow> (nat \<Rightarrow> bool) \<Rightarrow> (nat \<Rightarrow> bool) \<Rightarrow> connection \<Rightarrow> segment list \<Rightarrow> eff list option" where
  "run_http_service junk mem mal conn ib =
     (let fd = socket_file_descriptor conn;
          (conn1, resp) = handle_http conn None;
          greeting = (case resp of None \<Rightarrow> [] | Some r \<Rightarrow> [Send r])
      in map_option (\<lambda>es.
           [Log UTILITIES_INFO [Str (remote_ip conn), Num (uint (remote_port conn)), Num fd]]
           @ greeting @ es @ [Close fd, Log UTILITIES_INFO [Num fd]])
         (http_loop junk mem mal conn1 ib))"

section \<open>Properties\<close>

lemma extract_line_none:
  assumes "LF \<notin> set (pending conn)"
  shows "extract_line mal conn = (None, conn)"
proof -
  have "find_index (\<lambda>c. c = LF) (take (unat (buffer_length conn)) (tcp_reassembly_buffer conn)) = None"
    using assms by (auto simp: pending_def find_index_None)
  then show ?thesis by (simp add: extract_line_def)
qed

lemma line_extracted:
  assumes ok: "conn_ok conn" and pend: "pending conn = line @ LF # rest" and lf: "LF \<notin> set line"
  shows "\<exists>conn'. extract_line True conn =
      (Some (if line \<noteq> [] \<and> last line = CR then butlast line else line), conn')
    \<and> conn_ok conn' \<and> pending conn' = rest \<and> state conn' = state conn
    \<and> socket_file_descriptor conn' = socket_file_descriptor conn"
proof -
  let ?b = "tcp_reassembly_buffer conn" and ?n = "unat (buffer_length conn)" and ?i = "length line"
  have b: "take ?n ?b = line @ LF # rest" using pend by (simp add: pending_def)
  have nb: "?n \<le> length ?b" using ok by (auto simp: conn_ok_def word_le_nat_alt)
  then have n: "?n = Suc (?i + length rest)" using arg_cong [OF b, of length] by simp
  then have nz: "buffer_length conn \<noteq> 0" by auto
  have find: "find_index (\<lambda>c. c = LF) (take ?n ?b) = Some ?i"
    unfolding b using lf by (subst find_index_append) auto
  have start: "?b = line @ LF # rest @ drop ?n ?b"
    using append_take_drop_id [of ?n ?b] b by simp
  have line: "take (if 0 < ?i \<and> ?b ! (?i - 1) = CR then ?i - 1 else ?i) ?b
      = (if line \<noteq> [] \<and> last line = CR then butlast line else line)"
    by (subst (1 2) start, cases line rule: rev_cases) (simp_all add: nth_append)
  let ?c = "connection_consume_buffer conn (of_nat (Suc ?i))"
  have k: "unat (of_nat (Suc ?i) :: size_t) = Suc ?i"
    using n unat_size_t_less [of "buffer_length conn"] by (simp add: unat_of_nat del: of_nat_Suc)
  have eq: "extract_line True conn =
      (Some (if line \<noteq> [] \<and> last line = CR then butlast line else line),
       conn\<lparr>tcp_reassembly_buffer := memcpy_at ?b 0 (take (?n - Suc ?i) (drop (Suc ?i) ?b)),
            buffer_length := buffer_length conn - of_nat (Suc ?i)\<rparr>)" (is "_ = (_, ?c')")
    using nz find line n by (simp add: extract_line_def Let_def)
  have sub: "unat (buffer_length conn - of_nat (Suc ?i)) = ?n - Suc ?i"
    using n k by (subst unat_sub) (simp_all add: word_le_nat_alt del: of_nat_Suc)
  then have "conn_ok ?c'" using ok nb n
    by (auto simp: conn_ok_def word_le_nat_alt memcpy_at_def simp del: of_nat_Suc)
  moreover have "pending ?c' = take (?n - Suc ?i) (drop (Suc ?i) ?b)"
    using nb by (simp add: pending_def memcpy_at_def sub del: of_nat_Suc)
  then have "pending ?c' = drop (Suc ?i) (take ?n ?b)" by (simp add: drop_take)
  then have "pending ?c' = rest" by (simp add: b)
  ultimately show ?thesis using eq by auto
qed

text \<open>Line reassembly: when the pending bytes start with a line, \<open>extract_line\<close> returns it
  without its line end (LF or CR LF), and what is pending afterwards is exactly what follows the
  line; the invariant of the buffer is kept.\<close>

theorem extract_line_takes_line:
  assumes ok: "conn_ok conn" and pend: "pending conn = line @ LF # rest" and lf: "LF \<notin> set line"
  shows "\<exists>conn'. extract_line True conn =
      (Some (if line \<noteq> [] \<and> last line = CR then butlast line else line), conn')
    \<and> conn_ok conn' \<and> pending conn' = rest \<and> state conn' = state conn
    \<and> socket_file_descriptor conn' = socket_file_descriptor conn"
  using line_extracted [OF assms] .

theorem extract_line_takes_line_witness:
  "\<exists>conn conn'. pending conn = ''GET /'' @ [CR] @ LF # ''Ho'' \<and> extract_line True conn = (Some ''GET /'', conn')
     \<and> pending conn' = ''Ho''"
proof -
  let ?c = "connection_create 5 ''10.0.0.1'' 4711 HTTP_PROTOCOL 0 0"
  from reassembly.append_ok [of ?c "''GET /'' @ [CR] @ LF # ''Ho''" "\<lambda>_. NUL"] obtain c where "conn_ok c" "pending c = (''GET /'' @ [CR]) @ LF # ''Ho''"
    by (auto simp: connection_create_ok)
  from extract_line_takes_line [OF this] this(2) show ?thesis by auto
qed

lemma http_lines_wait:
  assumes "conn_ok conn" and "state conn = HTTP_STATE_WAIT_CMD"
  shows "if LF \<in> set (pending conn)
    then \<exists>conn' es. http_lines True conn = (conn', es, True) \<and> sends es = [resp_str] \<and> closes es = []
    else http_lines True conn = (conn, [], False)"
proof (cases "LF \<in> set (pending conn)")
  case True
  then obtain line rest where "pending conn = line @ LF # rest" "LF \<notin> set line"
    by (meson split_list_first)
  from line_extracted [OF assms(1) this] obtain l conn' where
    "extract_line True conn = (Some l, conn')" "state conn' = state conn" by blast
  with True assms(2) show ?thesis
    by (subst http_lines.simps) (simp add: handle_http_def http_states)
next
  case False
  then show ?thesis by (subst http_lines.simps) (simp add: extract_line_none)
qed

lemma http_loop_wait:
  assumes "conn_ok conn" and "state conn = HTTP_STATE_WAIT_CMD" and "LF \<notin> set (pending conn)"
    and "length (pending conn) + length (stream ib) \<le> 2 ^ 63"
  shows "\<exists>es. http_loop junk (\<lambda>_. True) (\<lambda>_. True) conn ib = Some es \<and> closes es = []
    \<and> sends es = (if LF \<in> set (stream ib) then [resp_str] else [])"
  using assms
proof (induction "inbox_size ib" arbitrary: conn ib rule: less_induct)
  case less
  obtain r ib' where recv: "recv 1024 ib = (r, ib')" by (cases "recv 1024 ib")
  show ?case
  proof (cases r)
    case (Got d)
    with recv have got: "recv 1024 ib = (Got d, ib')" by simp
    note g = recv_Got [OF got]
    from less.prems(4) g(4) have "length (pending conn) + length d \<le> 2 ^ 63" by simp
    then obtain conn1 where c1: "connection_append_data junk True conn d = Some conn1"
      "conn_ok conn1" "pending conn1 = pending conn @ d" "state conn1 = HTTP_STATE_WAIT_CMD"
      using append_data_ok [OF less.prems(1), of d junk] less.prems(2) by (auto simp: length_pending less.prems(1))
    show ?thesis
    proof (cases "LF \<in> set d")
      case True
      with http_lines_wait [OF c1(2,4)] c1(3) obtain c es where
        "http_lines True conn1 = (c, es, True)" "sends es = [resp_str]" "closes es = []" by auto
      with got c1(1) g(4) True show ?thesis by (subst http_loop.simps) simp
    next
      case False
      with less.prems(3) c1(3) have lf: "LF \<notin> set (pending conn1)" by simp
      with http_lines_wait [OF c1(2,4)] have "http_lines True conn1 = (conn1, [], False)" by simp
      moreover have "length (pending conn1) + length (stream ib') \<le> 2 ^ 63"
        using less.prems(4) c1(3) g(4) by simp
      ultimately show ?thesis
        using less.hyps [OF g(3) c1(2,4) lf] got c1(1) g(4) False
        by (subst http_loop.simps) auto
    qed
  next
    case Eof
    with recv recv_end [OF recv] show ?thesis by (subst http_loop.simps) simp
  next
    case Err
    with recv recv_end [OF recv] show ?thesis by (subst http_loop.simps) simp
  qed
qed

text \<open>C16: The HTTP service, whatever a client sends in whatever segments: the loops end, the fake
  page is sent exactly once if a line end ever arrives and never otherwise, and the socket is
  closed exactly once. This is for \<open>malloc\<close> and \<open>realloc\<close> calls that succeed (\<open>\<lambda>_. True\<close>).\<close>

theorem http_service_answers_once:
  assumes "length (stream ib) \<le> 2 ^ 63"
  shows "\<exists>es. run_http_service junk (\<lambda>_. True) (\<lambda>_. True)
        (connection_create fd ip port HTTP_PROTOCOL 0 now) ib = Some es
    \<and> sends es = (if LF \<in> set (stream ib) then [resp_str] else []) \<and> closes es = [fd]"
proof -
  let ?c = "(connection_create fd ip port HTTP_PROTOCOL 0 now)\<lparr>state := HTTP_STATE_WAIT_CMD\<rparr>"
  have "conn_ok ?c" "pending ?c = []"
    by (simp_all add: connection_create_def conn_ok_def pending_def)
  with http_loop_wait [of ?c ib junk] assms obtain es where
    "http_loop junk (\<lambda>_. True) (\<lambda>_. True) ?c ib = Some es" "closes es = []"
    "sends es = (if LF \<in> set (stream ib) then [resp_str] else [])" by auto
  moreover have "handle_http (connection_create fd ip port HTTP_PROTOCOL 0 now) None = (?c, None)"
    by (simp add: handle_http_def connection_create_def http_states)
  moreover have "socket_file_descriptor (connection_create fd ip port HTTP_PROTOCOL 0 now) = fd"
    by (simp add: connection_create_def)
  ultimately show ?thesis by (simp add: run_http_service_def)
qed

theorem http_service_answers_once_witness:
  "\<exists>es. run_http_service (\<lambda>_. NUL) (\<lambda>_. True) (\<lambda>_. True)
        (connection_create 5 ''10.0.0.1'' 4711 HTTP_PROTOCOL 0 0)
        [Data ''GET / HT'', Data (''TP/1.1'' @ CRLF @ ''Host: a'' @ CRLF)] = Some es
    \<and> sends es = [resp_str] \<and> closes es = [5]"
  using http_service_answers_once [of "[Data ''GET / HT'', Data (''TP/1.1'' @ CRLF @ ''Host: a'' @ CRLF)]"
      "\<lambda>_. NUL" 5 "''10.0.0.1''" 4711 0]
  by simp

end
