(* ===== verification/Server.thy ===== *)
theory Server
  imports Dispatcher
begin

text \<open>
  src/main.c with include/config.h: the host key, the connection semaphore, the listener and
  handler threads, and the address a handler records.

  The threads are a step relation. Each step is what a thread does between two operations of
  other threads that it can notice: the semaphore, the session table and the descriptor table of
  the process are shared. A session's service is one step, which ends with the \<open>close\<close> of the
  socket, by the service itself or, for SSH, by libssh; it may change the
  connection's state and buffer, never its descriptor. A service that runs on a connection which has
  been freed goes to the error phase \<open>Faulted\<close>, in which its thread makes no further step.
\<close>

section \<open>Configuration\<close>

record config_t =
  log_file :: string
  ssh_host_key_path :: string
  max_connections :: int
  listen_port :: int

definition SSH_KEY_DIR :: string where "SSH_KEY_DIR = ''keys''"
definition SSH_HOST_KEY_PATH :: string where "SSH_HOST_KEY_PATH = SSH_KEY_DIR @ ''/ssh_host_rsa_key''"

definition get_default_config :: config_t where
  "get_default_config =
     \<lparr>log_file = [CHR 0xE8, CHR 0x9C, CHR 0x9C, CHR 0xE7, CHR 0xBD, CHR 0x90, CHR 0x2E, CHR 0x6C,
     CHR 0x6F, CHR 0x67],
      ssh_host_key_path = SSH_HOST_KEY_PATH, max_connections = 100, listen_port = 9090\<rparr>"

section \<open>The host key\<close>

text \<open>
  A file: whether it is a directory, its permission bits and its contents. What the system
  answers is a parameter; \<open>sys_system\<close> is \<open>system(cmd)\<close>, its result and its effect on
  the files.
\<close>

record key_file =
  is_dir :: bool
  mode :: nat
  contents :: string

type_synonym fs = "string \<rightharpoonup> key_file"

record sys =
  sys_mkdir :: bool
  sys_chmod :: "string \<Rightarrow> bool"
  sys_fopen :: "string \<Rightarrow> bool"
  sys_system :: "string \<Rightarrow> fs \<Rightarrow> int \<times> fs"

definition ensure_key_directory :: "sys \<Rightarrow> fs \<Rightarrow> int \<times> fs \<times> eff list" where
  "ensure_key_directory sys fs =
     (case fs SSH_KEY_DIR of
        Some f \<Rightarrow>
          if \<not> is_dir f then (- 1, fs, [Log UTILITIES_ERROR [Str SSH_KEY_DIR]]) else (0, fs, [])
      | None \<Rightarrow>
          if \<not> sys_mkdir sys then (- 1, fs, [Log UTILITIES_ERROR [Str SSH_KEY_DIR]])
          else (0, fs(SSH_KEY_DIR \<mapsto> \<lparr>is_dir = True, mode = 0x1C0, contents = []\<rparr>),
                [Log UTILITIES_INFO [Str SSH_KEY_DIR]]))"

text \<open>\<open>chmod\<close>: it fails for a missing file.\<close>

definition chmod :: "sys \<Rightarrow> fs \<Rightarrow> string \<Rightarrow> nat \<Rightarrow> fs option" where
  "chmod sys fs path m =
     (case fs path of
        None \<Rightarrow> None
      | Some f \<Rightarrow> if sys_chmod sys path then Some (fs(path \<mapsto> f\<lparr>mode := m\<rparr>)) else None)"

text \<open>\<open>fgets(header, 64, fp)\<close>: the first line with its line feed, at most 63 bytes; nothing at
  the end of the file or for a directory.\<close>

definition fgets :: "key_file \<Rightarrow> nat \<Rightarrow> string option" where
  "fgets f n =
     (if is_dir f \<or> contents f = [] then None
      else
        let line = (case find_index (\<lambda>c. c = LF) (contents f) of
                      None \<Rightarrow> contents f
                    | Some i \<Rightarrow> take (i + 1) (contents f))
        in Some (take (n - 1) line))"

text \<open>\<open>-----BEGIN\<close> anywhere in what \<open>fgets\<close> reads: the first line, up to 63 bytes of it.\<close>

definition pem_header :: "key_file \<Rightarrow> bool" where
  "pem_header f \<longleftrightarrow> (case fgets f 64 of None \<Rightarrow> False | Some h \<Rightarrow> contains (cstr h) ''-----BEGIN'')"

text \<open>The modes 0600 and 0644.\<close>

definition MODE_0600 :: nat where "MODE_0600 = 0x180"
definition MODE_0644 :: nat where "MODE_0644 = 0x1A4"

definition validate_key_file :: "sys \<Rightarrow> fs \<Rightarrow> string \<Rightarrow> nat \<Rightarrow> int \<times> fs \<times> eff list" where
  "validate_key_file sys fs path expected_mode =
     (let err = Log UTILITIES_ERROR [Str path] in
      case fs path of
        None \<Rightarrow> (- 1, fs, [err])
      | Some f \<Rightarrow>
          if length (contents f) = 0 then (- 1, fs, [err])
          else
            let (fixed, fs', es) =
              (if mode f \<noteq> expected_mode then
                 (case chmod sys fs path expected_mode of
                    None \<Rightarrow> (False, fs, [Log UTILITIES_WARN [Str path, Num (int (mode f)),
                              Num (int expected_mode)], Log UTILITIES_ERROR []])
                  | Some fs' \<Rightarrow> (True, fs', [Log UTILITIES_WARN [Str path, Num (int (mode f)),
                              Num (int expected_mode)],
                              Log UTILITIES_INFO [Str path, Num (int expected_mode)]]))
               else (True, fs, []))
            in if \<not> fixed then (- 1, fs', es)
               else if \<not> sys_fopen sys path then (- 1, fs', es @ [err])
               else if fgets f 64 = None then (- 1, fs', es @ [err])
               else if expected_mode = MODE_0600 \<and> \<not> pem_header f then (- 1, fs', es @ [err])
               else (0, fs', es))"

definition unlink :: "fs \<Rightarrow> string \<Rightarrow> fs" where
  "unlink fs path = fs(path := None)"

definition pub_path_of :: "string \<Rightarrow> string" where
  "pub_path_of key_path = snprintf 512 (key_path @ ''.pub'')"

definition keygen_cmd :: "string \<Rightarrow> string" where
  "keygen_cmd key_path =
     snprintf 512 (''ssh-keygen -t rsa -b 2048 -f '' @ [QUOTE] @ key_path @ [QUOTE] @ '' -N ''
       @ [QUOTE, QUOTE] @ '' -q -C '' @ [QUOTE] @ ''honeydew@'' @ [CHR 0xE8, CHR 0x9C, CHR 0x9C, CHR 0xE7, CHR 0xBD, CHR 0x90]
       @ [QUOTE])"

text \<open>The part of \<open>ensure_ssh_host_key\<close> that makes a new key.\<close>

definition generate_host_key :: "sys \<Rightarrow> fs \<Rightarrow> string \<Rightarrow> int \<times> fs \<times> eff list" where
  "generate_host_key sys fs key_path =
     (let pub_path = pub_path_of key_path;
          es = [Log UTILITIES_INFO [Str key_path]];
          fs = unlink (unlink fs key_path) pub_path;
          (ret, fs) = sys_system sys (keygen_cmd key_path) fs
      in if ret \<noteq> 0 then (- 1, fs, es @ [Log UTILITIES_ERROR [Num ret]])
         else case chmod sys fs key_path MODE_0600 of
           None \<Rightarrow> (- 1, fs, es @ [Log UTILITIES_ERROR []])
         | Some fs \<Rightarrow>
             (case chmod sys fs pub_path MODE_0644 of
                None \<Rightarrow> (- 1, fs, es @ [Log UTILITIES_ERROR []])
              | Some fs \<Rightarrow>
                  let es = es @ [Log UTILITIES_INFO [Str key_path]];
                      (r1, fs, es1) = validate_key_file sys fs key_path MODE_0600
                  in if r1 \<noteq> 0 then (- 1, fs, es @ es1 @ [Log UTILITIES_ERROR []])
                     else
                       let (r2, fs, es2) = validate_key_file sys fs pub_path MODE_0644
                       in if r2 \<noteq> 0 then (- 1, fs, es @ es1 @ es2 @ [Log UTILITIES_ERROR []])
                          else (0, fs, es @ es1 @ es2 @ [Log UTILITIES_INFO []])))"

definition ensure_ssh_host_key :: "sys \<Rightarrow> fs \<Rightarrow> string \<Rightarrow> int \<times> fs \<times> eff list" where
  "ensure_ssh_host_key sys fs key_path =
     (let (r, fs, es) = ensure_key_directory sys fs in
      if r \<noteq> 0 then (- 1, fs, es)
      else if (case fs key_path of Some f \<Rightarrow> 0 < length (contents f) | None \<Rightarrow> False) then
        (let es = es @ [Log UTILITIES_INFO [Str key_path]];
             (r1, fs, es1) = validate_key_file sys fs key_path MODE_0600
         in if r1 \<noteq> 0 then (- 1, fs, es @ es1)
            else
              let (r2, fs, es2) = validate_key_file sys fs (pub_path_of key_path) MODE_0644
              in if r2 \<noteq> 0 then
                   (let (r3, fs, es3) = generate_host_key sys fs key_path
                    in (r3, fs, es @ es1 @ es2 @ [Log UTILITIES_WARN []] @ es3))
                 else (0, fs, es @ es1 @ es2 @ [Log UTILITIES_INFO []]))
      else
        (let (r3, fs, es3) = generate_host_key sys fs key_path in (r3, fs, es @ es3)))"

section \<open>The semaphore\<close>

record conn_semaphore_t =
  sem_count :: int
  sem_max :: int

definition conn_semaphore_init :: "int \<Rightarrow> conn_semaphore_t" where
  "conn_semaphore_init m = \<lparr>sem_count = 0, sem_max = m\<rparr>"

text \<open>\<open>None\<close>: the thread waits.\<close>

definition conn_semaphore_acquire :: "conn_semaphore_t \<Rightarrow> conn_semaphore_t option" where
  "conn_semaphore_acquire s =
     (if sem_max s \<le> sem_count s then None else Some (s\<lparr>sem_count := sem_count s + 1\<rparr>))"

definition conn_semaphore_release :: "conn_semaphore_t \<Rightarrow> conn_semaphore_t" where
  "conn_semaphore_release s = s\<lparr>sem_count := sem_count s - 1\<rparr>"

section \<open>The threads\<close>

text \<open>
  A client from \<open>accept\<close> on: accepted and waiting for the semaphore; a handler about to
  start; being served, with the address of its connection; its socket closed; its session
  removed. \<open>Faulted\<close> is the error of a service that uses a connection which has been freed.
\<close>

datatype client_phase =
  Waiting int | Starting int | Serving int addr | Closed int addr | Removed | Faulted int addr

record server =
  srv_sessions :: session_table
  srv_heap :: heap
  srv_fds :: "int set"
  srv_sem :: conn_semaphore_t
  clients :: "nat \<rightharpoonup> client_phase"

definition server_init :: "config_t \<Rightarrow> server" where
  "server_init cfg = \<lparr>srv_sessions = session_table_create, srv_heap = Map.empty, srv_fds = {},
     srv_sem = conn_semaphore_init (max_connections cfg), clients = Map.empty\<rparr>"

text \<open>
  The steps of \<open>listener_thread\<close> (accept, acquire, the two failures after it) and of
  \<open>connection_handler\<close> (create and add, serve and close, remove, release). \<open>free_fd s fd\<close>
  tells which descriptor numbers \<open>accept\<close> may return.
\<close>

inductive server_step :: "(server \<Rightarrow> int \<Rightarrow> bool) \<Rightarrow> server \<Rightarrow> server \<Rightarrow> bool" for free_fd where
  accept: "free_fd s fd \<Longrightarrow> clients s i = None \<Longrightarrow>
     server_step free_fd s
       (s\<lparr>srv_fds := insert fd (srv_fds s), clients := (clients s)(i \<mapsto> Waiting fd)\<rparr>)"
| acquire: "clients s i = Some (Waiting fd) \<Longrightarrow> conn_semaphore_acquire (srv_sem s) = Some sem \<Longrightarrow>
     server_step free_fd s (s\<lparr>srv_sem := sem, clients := (clients s)(i \<mapsto> Starting fd)\<rparr>)"
| no_thread: "clients s i = Some (Starting fd) \<Longrightarrow>
     server_step free_fd s
       (s\<lparr>srv_fds := srv_fds s - {fd}, srv_sem := conn_semaphore_release (srv_sem s),
          clients := (clients s)(i := None)\<rparr>)"
| start: "clients s i = Some (Starting fd) \<Longrightarrow> srv_heap s a = None \<Longrightarrow>
     h = (srv_heap s)(a \<mapsto> connection_create fd ip port proto 0 now) \<Longrightarrow>
     session_table_add (srv_sessions s) h a = Inr tab \<Longrightarrow>
     server_step free_fd s
       (s\<lparr>srv_heap := h, srv_sessions := tab, clients := (clients s)(i \<mapsto> Serving fd a)\<rparr>)"
| serve: "clients s i = Some (Serving fd a) \<Longrightarrow> srv_heap s a = Some c \<Longrightarrow>
     socket_file_descriptor c' = socket_file_descriptor c \<Longrightarrow>
     server_step free_fd s
       (s\<lparr>srv_heap := (srv_heap s)(a \<mapsto> c'), srv_fds := srv_fds s - {fd}, clients := (clients s)(i \<mapsto> Closed fd a)\<rparr>)"
| serve_freed: "clients s i = Some (Serving fd a) \<Longrightarrow> srv_heap s a = None \<Longrightarrow>
     server_step free_fd s (s\<lparr>clients := (clients s)(i \<mapsto> Faulted fd a)\<rparr>)"
| remove: "clients s i = Some (Closed fd a) \<Longrightarrow>
     session_table_remove (srv_sessions s) (srv_heap s) fd = Inr (tab, h) \<Longrightarrow>
     server_step free_fd s
       (s\<lparr>srv_heap := h, srv_sessions := tab, clients := (clients s)(i \<mapsto> Removed)\<rparr>)"
| release: "clients s i = Some Removed \<Longrightarrow>
     server_step free_fd s
       (s\<lparr>srv_sem := conn_semaphore_release (srv_sem s), clients := (clients s)(i := None)\<rparr>)"

text \<open>What the kernel does: a number is free as soon as it is closed.\<close>

definition closed_fd :: "server \<Rightarrow> int \<Rightarrow> bool" where
  "closed_fd s fd \<longleftrightarrow> fd \<notin> srv_fds s"

section \<open>The recorded address\<close>

text \<open>
  \<open>listener_thread\<close> passes \<open>accept\<close> a \<open>struct sockaddr_in\<close> of 16 bytes with the length 28 of
  a \<open>struct sockaddr_in6\<close>, and the 16 bytes are copied into the thread's arguments. The
  listening socket is an IPv6 socket, so the family is \<open>AF_INET6\<close> and \<open>connection_handler\<close>
  takes the 16 bytes of the address from offset 8 of that field: 8 bytes that were copied,
  4 bytes of padding and the low half of the pointer \<open>sessions\<close> (System V ABI for x86-64).
  \<open>accept_overflow\<close> are the bytes that \<open>accept\<close> writes past the end of the variable.
\<close>

definition sockaddr_in6 :: "byte list \<Rightarrow> byte list \<Rightarrow> byte list \<Rightarrow> byte list" where
  "sockaddr_in6 port flowinfo addr = [10, 0] @ port @ flowinfo @ addr @ [0, 0, 0, 0]"

definition accept_overflow :: "byte list \<Rightarrow> byte list" where
  "accept_overflow sa = drop 16 (take 28 sa)"

definition handler_addr6 :: "byte list \<Rightarrow> byte list \<Rightarrow> byte list \<Rightarrow> byte list" where
  "handler_addr6 sa padding sessions_ptr = take 16 (drop 8 (take 16 sa @ padding @ sessions_ptr))"

section \<open>The semaphore counts the handlers\<close>

definition active :: "server \<Rightarrow> nat set" where
  "active s = {i. \<exists>p. clients s i = Some p \<and> (\<forall>fd. p \<noteq> Waiting fd)}"

definition sem_ok :: "server \<Rightarrow> bool" where
  "sem_ok s \<longleftrightarrow> finite (dom (clients s)) \<and> sem_count (srv_sem s) = int (card (active s))
     \<and> sem_count (srv_sem s) \<le> sem_max (srv_sem s)"

lemma active_finite: "finite (dom (clients s)) \<Longrightarrow> finite (active s)"
  by (erule finite_subset [rotated]) (auto simp: active_def)

text \<open>How a change of one client changes the set.\<close>

lemma active_update:
  assumes "clients s' = (clients s)(i := q)"
  shows "active s' = (case q of Some p \<Rightarrow> (if \<exists>fd. p = Waiting fd then active s - {i} else insert i (active s))
                              | None \<Rightarrow> active s - {i})"
  using assms by (auto simp: active_def split: option.splits)

lemma sem_ok_same:
  assumes "sem_ok s" "clients s i = Some p" "\<forall>fd. p \<noteq> Waiting fd" "\<forall>fd. q \<noteq> Waiting fd"
    and "clients s' = (clients s)(i \<mapsto> q)" "srv_sem s' = srv_sem s"
  shows "sem_ok s'"
proof -
  have "i \<in> active s" using assms(2,3) by (auto simp: active_def)
  then have "active s' = active s" using assms(4) active_update [OF assms(5)] by auto
  with assms show ?thesis by (auto simp: sem_ok_def)
qed

lemma sem_ok_leave:
  assumes "sem_ok s" "clients s i = Some p" "\<forall>fd. p \<noteq> Waiting fd"
    and "clients s' = (clients s)(i := None)" "srv_sem s' = conn_semaphore_release (srv_sem s)"
  shows "sem_ok s'"
proof -
  have i: "i \<in> active s" using assms(2,3) by (auto simp: active_def)
  have fin: "finite (active s)" using assms(1) active_finite by (auto simp: sem_ok_def)
  have "active s' = active s - {i}" using active_update [OF assms(4)] by simp
  moreover have "0 < card (active s)" using i fin by (auto simp: card_gt_0_iff)
  ultimately show ?thesis using assms i fin
    by (auto simp: sem_ok_def conn_semaphore_release_def card_Diff_singleton of_nat_diff)
qed

lemma sem_ok_accept:
  assumes "sem_ok s" "clients s i = None" "clients s' = (clients s)(i \<mapsto> Waiting fd)"
    "srv_sem s' = srv_sem s"
  shows "sem_ok s'"
proof -
  have "i \<notin> active s" using assms(2) by (simp add: active_def)
  then have "active s' = active s" using active_update [OF assms(3)] by auto
  with assms show ?thesis by (auto simp: sem_ok_def)
qed

lemma sem_ok_acquire:
  assumes "sem_ok s" "clients s i = Some (Waiting fd)" "conn_semaphore_acquire (srv_sem s) = Some sem"
    and "clients s' = (clients s)(i \<mapsto> Starting fd)" "srv_sem s' = sem"
  shows "sem_ok s'"
proof -
  have i: "i \<notin> active s" using assms(2) by (simp add: active_def)
  have act: "active s' = insert i (active s)" using active_update [OF assms(4)] by simp
  have sem: "srv_sem s' = (srv_sem s)\<lparr>sem_count := sem_count (srv_sem s) + 1\<rparr>"
    "sem_count (srv_sem s) < sem_max (srv_sem s)"
    using assms(3,5) by (auto simp: conn_semaphore_acquire_def split: if_splits)
  have fin: "finite (active s)" using assms(1) active_finite by (auto simp: sem_ok_def)
  show ?thesis using assms(1,4) i fin
    by (simp add: sem_ok_def act sem(1)) (use sem(2) in linarith)
qed

lemma sem_ok_step: "server_step free_fd s s' \<Longrightarrow> sem_ok s \<Longrightarrow> sem_ok s'"
proof (induction rule: server_step.induct)
  case (accept s fd i)
  show ?case by (rule sem_ok_accept [OF accept.prems accept.hyps(2)]) simp_all
next
  case (acquire s i fd sem)
  show ?case by (rule sem_ok_acquire [OF acquire.prems acquire.hyps]) simp_all
next
  case (no_thread s i fd)
  show ?case by (rule sem_ok_leave [OF no_thread.prems no_thread.hyps]) simp_all
next
  case (start s i fd a h ip port proto now tab)
  show ?case by (rule sem_ok_same [OF start.prems start.hyps(1)]) simp_all
next
  case (serve s i fd a c c')
  show ?case by (rule sem_ok_same [OF serve.prems serve.hyps(1)]) simp_all
next
  case (serve_freed s i fd a)
  show ?case by (rule sem_ok_same [OF serve_freed.prems serve_freed.hyps(1)]) simp_all
next
  case (remove s i fd a tab h)
  show ?case by (rule sem_ok_same [OF remove.prems remove.hyps(1)]) simp_all
next
  case (release s i)
  show ?case by (rule sem_ok_leave [OF release.prems release.hyps]) simp_all
qed

lemma sem_ok_reachable: "(server_step free_fd)\<^sup>*\<^sup>* s s' \<Longrightarrow> sem_ok s \<Longrightarrow> sem_ok s'"
  by (induction rule: rtranclp_induct) (auto intro: sem_ok_step)

lemma sem_ok_init: "0 \<le> max_connections cfg \<Longrightarrow> sem_ok (server_init cfg)"
  by (simp add: sem_ok_def server_init_def conn_semaphore_init_def active_def)

lemma sem_max_step: "server_step free_fd s s' \<Longrightarrow> sem_max (srv_sem s') = sem_max (srv_sem s)"
  by (induction rule: server_step.induct)
    (auto simp: conn_semaphore_acquire_def conn_semaphore_release_def split: if_splits)

lemma sem_max_reachable: "(server_step free_fd)\<^sup>*\<^sup>* s s' \<Longrightarrow> sem_max (srv_sem s') = sem_max (srv_sem s)"
  by (induction rule: rtranclp_induct) (auto simp: sem_max_step)

section \<open>The table never dangles\<close>

abbreviation store_of :: "server \<Rightarrow> store" where
  "store_of s \<equiv> (srv_sessions s, srv_heap s)"

lemma heap_extend:
  assumes "table_ok (tab, h)" and "h a = None"
  shows "table_ok (tab, h(a \<mapsto> c))" "sessions_at (tab, h(a \<mapsto> c)) = sessions_at (tab, h)"
    "a \<notin> set (sessions_at (tab, h) fd)"
proof -
  have fresh: "a \<notin> set (session_bucket tab ! i)" if "i < SESSION_TABLE_SIZE" for i
    using table_alive [OF assms(1) that] assms(2) by auto
  then show "table_ok (tab, h(a \<mapsto> c))"
    using assms(1) by (force simp: table_ok_def fd_of_def)
  show "sessions_at (tab, h(a \<mapsto> c)) = sessions_at (tab, h)"
    using fresh [OF hash_int_less]
    by (auto simp: sessions_at_def fd_of_def fun_eq_iff intro!: filter_cong)
  show "a \<notin> set (sessions_at (tab, h) fd)"
    using fresh [OF hash_int_less] by (auto simp: sessions_at_def)
qed

text \<open>A service may write into a live connection, but keeps its descriptor.\<close>

lemma heap_rewrite:
  assumes "h a = Some c" and "socket_file_descriptor c' = socket_file_descriptor c"
  shows "table_ok (tab, h(a \<mapsto> c')) = table_ok (tab, h)"
    "sessions_at (tab, h(a \<mapsto> c')) = sessions_at (tab, h)"
proof -
  have fd: "fd_of (tab, h(a \<mapsto> c')) = fd_of (tab, h)"
    using assms by (auto simp: fd_of_def)
  then show "sessions_at (tab, h(a \<mapsto> c')) = sessions_at (tab, h)"
    by (simp add: sessions_at_def fun_eq_iff)
  show "table_ok (tab, h(a \<mapsto> c')) = table_ok (tab, h)"
    using fd by (simp add: table_ok_def)
qed

lemma start_ok:
  assumes "table_ok (tab, h)" and "h a = None"
  shows "\<exists>tab'. session_table_add tab (h(a \<mapsto> connection_create fd ip port proto 0 now)) a = Inr tab'
    \<and> table_ok (tab', h(a \<mapsto> connection_create fd ip port proto 0 now))
    \<and> sessions_at (tab', h(a \<mapsto> connection_create fd ip port proto 0 now))
        = (sessions_at (tab, h))(fd := a # sessions_at (tab, h) fd)"
proof -
  let ?h = "h(a \<mapsto> connection_create fd ip port proto 0 now)"
  note e = heap_extend(1,2) [OF assms, of "connection_create fd ip port proto 0 now"]
  have "fd_of (tab, ?h) a = Some fd" by (simp add: fd_of_def connection_create_def)
  from store_add_ok [OF e(1) this] e(2) heap_extend(3) [OF assms, of fd] obtain s' where
    s': "store_add (tab, ?h) a = Inr s'" "table_ok s'"
      "sessions_at s' = (sessions_at (tab, h))(fd := a # sessions_at (tab, h) fd)" by auto
  then show ?thesis
    by (cases "session_table_add tab ?h a") (auto simp: store_add_def)
qed

lemma remove_ok':
  assumes "table_ok (tab, h)"
  shows "\<exists>tab' h'. session_table_remove tab h fd = Inr (tab', h') \<and> table_ok (tab', h')
    \<and> sessions_at (tab', h') = (sessions_at (tab, h))(fd := tl (sessions_at (tab, h) fd))"
proof (cases "sessions_at (tab, h) fd")
  case Nil
  with store_remove_none [OF assms Nil] assms show ?thesis by (auto simp: store_remove_def)
next
  case (Cons a as)
  with store_remove_ok [OF assms Cons] show ?thesis by (auto simp: store_remove_def)
qed

lemma table_ok_step: "server_step free_fd s s' \<Longrightarrow> table_ok (store_of s) \<Longrightarrow> table_ok (store_of s')"
proof (induction rule: server_step.induct)
  case (start s i fd a h ip port proto now tab)
  with start_ok [of "srv_sessions s" "srv_heap s" a fd ip port proto now] show ?case
    by (auto simp: fun_upd_def)
next
  case (remove s i fd a tab h)
  with remove_ok' [of "srv_sessions s" "srv_heap s" fd] show ?case by auto
next
  case (serve s i fd a c c')
  with heap_rewrite(1) [of "srv_heap s" a c c' "srv_sessions s"] show ?case by (simp add: fun_upd_def)
qed simp_all

lemma table_ok_reachable:
  "(server_step free_fd)\<^sup>*\<^sup>* s s' \<Longrightarrow> table_ok (store_of s) \<Longrightarrow> table_ok (store_of s')"
  by (induction rule: rtranclp_induct) (auto intro: table_ok_step)

lemma table_ok_server_init: "table_ok (store_of (server_init cfg))"
  using table_ok_create by (simp add: server_init_def)

section \<open>Without reuse of descriptors every session is alive\<close>

fun client_fd :: "client_phase \<Rightarrow> int option" where
  "client_fd (Waiting fd) = Some fd"
| "client_fd (Starting fd) = Some fd"
| "client_fd (Serving fd a) = Some fd"
| "client_fd (Closed fd a) = Some fd"
| "client_fd Removed = None"
| "client_fd (Faulted fd a) = None"

fun client_sessions :: "client_phase \<Rightarrow> addr list" where
  "client_sessions (Serving fd a) = [a]"
| "client_sessions (Closed fd a) = [a]"
| "client_sessions _ = []"

definition uses_fd :: "server \<Rightarrow> nat \<Rightarrow> int \<Rightarrow> bool" where
  "uses_fd s i fd \<longleftrightarrow> Option.bind (clients s i) client_fd = Some fd"

text \<open>A number that is closed, and that no handler will still pass to \<open>session_table_remove\<close>.\<close>

definition unused_fd :: "server \<Rightarrow> int \<Rightarrow> bool" where
  "unused_fd s fd \<longleftrightarrow> fd \<notin> srv_fds s \<and> (\<forall>i. \<not> uses_fd s i fd)"

definition owner_ok :: "server \<Rightarrow> bool" where
  "owner_ok s \<longleftrightarrow> table_ok (store_of s)
     \<and> (\<forall>i j fd. uses_fd s i fd \<longrightarrow> uses_fd s j fd \<longrightarrow> i = j)
     \<and> (\<forall>i p fd. clients s i = Some p \<longrightarrow> client_fd p = Some fd \<longrightarrow>
          sessions_at (store_of s) fd = client_sessions p)
     \<and> (\<forall>fd. (\<forall>i. \<not> uses_fd s i fd) \<longrightarrow> sessions_at (store_of s) fd = [])"

text \<open>Replacing the phase of a client that keeps its descriptor.\<close>

lemma uses_fd_update:
  "clients s' = (clients s)(i := q) \<Longrightarrow>
   uses_fd s' j fd = (if j = i then Option.bind q client_fd = Some fd else uses_fd s j fd)"
  by (simp add: uses_fd_def)

lemma owner_ok_update:
  assumes ok: "owner_ok s" and i: "clients s i = Some p" "client_fd p = Some fd"
    and upd: "clients s' = (clients s)(i := q)"
    and q: "q = Some p' \<and> client_fd p' = Some fd \<and> as = client_sessions p'
      \<or> Option.bind q client_fd = None \<and> as = []"
    and tab: "table_ok (store_of s')" "sessions_at (store_of s') = (sessions_at (store_of s))(fd := as)"
  shows "owner_ok s'"
proof -
  have own: "uses_fd s i fd" using i by (simp add: uses_fd_def)
  have uniq: "\<not> uses_fd s j fd" if "j \<noteq> i" for j using ok own that by (auto simp: owner_ok_def)
  note u = uses_fd_update [OF upd]
  have sub: "uses_fd s' j fd' \<Longrightarrow> uses_fd s j fd'" for j fd'
    using q own by (auto simp: u split: if_splits)
  have "sessions_at (store_of s') fd' = client_sessions p''"
    if "clients s' j = Some p''" "client_fd p'' = Some fd'" for j p'' fd'
  proof (cases "j = i")
    case True
    with that q upd tab(2) show ?thesis by auto
  next
    case False
    with that upd have "clients s j = Some p''" by simp
    moreover from this uniq [OF False] that(2) have "fd' \<noteq> fd" by (auto simp: uses_fd_def)
    ultimately show ?thesis using ok tab(2) that(2) by (auto simp: owner_ok_def)
  qed
  moreover have "sessions_at (store_of s') fd' = []" if none: "\<forall>j. \<not> uses_fd s' j fd'" for fd'
  proof (cases "fd' = fd")
    case True
    with none [rule_format, of i] q tab(2) show ?thesis by (auto simp: u)
  next
    case False
    have "\<not> uses_fd s j fd'" for j
    proof (cases "j = i")
      case True
      with False i show ?thesis by (simp add: uses_fd_def)
    next
      case False
      with none [rule_format, of j] show ?thesis by (simp add: u)
    qed
    with False ok tab(2) show ?thesis by (auto simp: owner_ok_def)
  qed
  moreover have "\<forall>j k fd'. uses_fd s' j fd' \<longrightarrow> uses_fd s' k fd' \<longrightarrow> j = k"
    using ok sub unfolding owner_ok_def by meson
  ultimately show ?thesis using tab(1) by (simp add: owner_ok_def)
qed

lemma owner_alive:
  assumes "owner_ok s" and "clients s i = Some (Serving fd a)"
  shows "\<exists>c. srv_heap s a = Some c \<and> socket_file_descriptor c = fd"
proof -
  have "sessions_at (store_of s) fd = [a]" using assms by (auto simp: owner_ok_def)
  then have "a \<in> set (sessions_at (store_of s) fd)" by simp
  then show ?thesis by (auto simp: sessions_at_def fd_of_def)
qed

lemma owner_ok_step: "server_step unused_fd s s' \<Longrightarrow> owner_ok s \<Longrightarrow> owner_ok s'"
proof (induction rule: server_step.induct)
  case (accept s fd i)
  let ?s' = "s\<lparr>srv_fds := insert fd (srv_fds s), clients := (clients s)(i \<mapsto> Waiting fd)\<rparr>"
  have u: "uses_fd ?s' j fd' = (if j = i then fd' = fd else uses_fd s j fd')" for j fd'
    by (auto simp: uses_fd_def)
  have none: "\<not> uses_fd s j fd" "\<not> uses_fd s i fd'" for j fd'
    using accept by (auto simp: unused_fd_def uses_fd_def)
  have empty: "sessions_at (store_of s) fd' = []" if "\<forall>j. \<not> uses_fd ?s' j fd' \<or> fd' = fd" for fd'
  proof -
    have "\<forall>j. \<not> uses_fd s j fd'" using that none u by metis
    with accept.prems show ?thesis by (auto simp: owner_ok_def)
  qed
  have "\<forall>j k fd'. uses_fd ?s' j fd' \<longrightarrow> uses_fd ?s' k fd' \<longrightarrow> j = k"
    using accept.prems none unfolding u by (auto simp: owner_ok_def split: if_splits)
  moreover have "sessions_at (store_of s) fd' = client_sessions p"
    if "clients ?s' j = Some p" "client_fd p = Some fd'" for j p fd'
  proof (cases "j = i")
    case True
    with that empty [of fd] show ?thesis by auto
  next
    case False
    with that accept.prems show ?thesis by (auto simp: owner_ok_def)
  qed
  ultimately show ?case using accept.prems empty by (auto simp: owner_ok_def)
next
  case (acquire s i fd sem)
  then have "sessions_at (store_of s) = (sessions_at (store_of s))(fd := [])"
    by (auto simp: owner_ok_def fun_eq_iff)
  with acquire show ?case
    by (intro owner_ok_update [OF acquire.prems acquire.hyps(1), where p' = "Starting fd" and as = "[]"])
      (auto simp: owner_ok_def)
next
  case (no_thread s i fd)
  then have "sessions_at (store_of s) = (sessions_at (store_of s))(fd := [])"
    by (auto simp: owner_ok_def fun_eq_iff)
  with no_thread show ?case
    by (intro owner_ok_update [OF no_thread.prems no_thread.hyps(1), where as = "[]" and q = None])
      (auto simp: owner_ok_def)
next
  case (start s i fd a h ip port proto now tab)
  have at: "sessions_at (store_of s) fd = []" "table_ok (store_of s)"
    using start.prems start.hyps(1) by (auto simp: owner_ok_def)
  from start_ok [OF at(2) start.hyps(2), of fd ip port proto now] start.hyps(3,4) at(1)
  have "table_ok (tab, h)" "sessions_at (tab, h) = (sessions_at (store_of s))(fd := [a])" by auto
  then show ?case
    by (intro owner_ok_update [OF start.prems start.hyps(1), where p' = "Serving fd a" and as = "[a]"])
      auto
next
  case (serve s i fd a c c')
  then have "sessions_at (srv_sessions s, (srv_heap s)(a \<mapsto> c')) = (sessions_at (store_of s))(fd := [a])"
    by (auto simp: owner_ok_def fun_eq_iff heap_rewrite)
  with serve show ?case
    by (intro owner_ok_update [OF serve.prems serve.hyps(1), where p' = "Closed fd a" and as = "[a]"])
      (auto simp: owner_ok_def heap_rewrite)
next
  case (serve_freed s i fd a)
  then show ?case using owner_alive by fastforce
next
  case (remove s i fd a tab h)
  have at: "sessions_at (store_of s) fd = [a]" "table_ok (store_of s)"
    using remove.prems remove.hyps(1) by (auto simp: owner_ok_def)
  from remove_ok' [OF at(2), of fd] remove.hyps(2) at(1)
  have "table_ok (tab, h)" "sessions_at (tab, h) = (sessions_at (store_of s))(fd := [])" by auto
  then show ?case
    by (intro owner_ok_update [OF remove.prems remove.hyps(1), where q = "Some Removed" and as = "[]"])
      auto
next
  case (release s i)
  let ?s' = "s\<lparr>srv_sem := conn_semaphore_release (srv_sem s), clients := (clients s)(i := None)\<rparr>"
  have "uses_fd ?s' j fd' = uses_fd s j fd'" for j fd'
    using release.hyps by (auto simp: uses_fd_def)
  with release show ?case by (auto simp: owner_ok_def)
qed

lemma owner_ok_init: "owner_ok (server_init cfg)"
  using table_ok_create [of Map.empty]
  by (simp add: owner_ok_def server_init_def uses_fd_def sessions_at_def session_table_create_def
      hash_int_less)

lemma owner_ok_reachable: "(server_step unused_fd)\<^sup>*\<^sup>* s s' \<Longrightarrow> owner_ok s \<Longrightarrow> owner_ok s'"
  by (induction rule: rtranclp_induct) (auto intro: owner_ok_step)

lemma no_fault_reachable:
  "(server_step unused_fd)\<^sup>*\<^sup>* (server_init cfg) s \<Longrightarrow> clients s i \<noteq> Some (Faulted fd a)"
proof (induction arbitrary: i fd a rule: rtranclp_induct)
  case base
  show ?case by (simp add: server_init_def)
next
  case (step s s')
  have ok: "owner_ok s" by (rule owner_ok_reachable [OF step.hyps(1) owner_ok_init])
  from step.hyps(2) step.IH show ?case
    by (cases rule: server_step.cases) (auto dest: owner_alive [OF ok] split: if_splits)
qed

section \<open>Keys\<close>

lemma chmod_Some:
  "chmod sys fs path m = Some fs' \<Longrightarrow>
   \<exists>f. fs path = Some f \<and> fs' = fs(path \<mapsto> f\<lparr>mode := m\<rparr>)"
  by (auto simp: chmod_def split: option.splits if_splits)

text \<open>A file that passes the validation has the expected mode afterwards; no other file changes.\<close>

lemma validate_ok:
  assumes "validate_key_file sys fs path m = (0, fs', es)"
  shows "\<exists>f. fs' path = Some f \<and> mode f = m \<and> contents f \<noteq> [] \<and> (m = MODE_0600 \<longrightarrow> pem_header f)"
    and "\<And>p. p \<noteq> path \<Longrightarrow> fs' p = fs p"
proof -
  from assms obtain f where f: "fs path = Some f" "contents f \<noteq> []"
    "m = MODE_0600 \<longrightarrow> pem_header f"
    "fs' = (if mode f = m then fs else fs(path \<mapsto> f\<lparr>mode := m\<rparr>))"
    by (auto simp: validate_key_file_def Let_def split: option.splits if_splits dest!: chmod_Some)
  have "pem_header (f\<lparr>mode := m\<rparr>) = pem_header f" by (simp add: pem_header_def fgets_def split: option.split)
  with f show "\<exists>f. fs' path = Some f \<and> mode f = m \<and> contents f \<noteq> [] \<and> (m = MODE_0600 \<longrightarrow> pem_header f)"
    by auto
  show "\<And>p. p \<noteq> path \<Longrightarrow> fs' p = fs p" using f(4) by simp
qed

definition key_pair_ok :: "fs \<Rightarrow> string \<Rightarrow> bool" where
  "key_pair_ok fs key_path \<longleftrightarrow>
     (\<exists>f. fs key_path = Some f \<and> mode f = MODE_0600 \<and> contents f \<noteq> [] \<and> pem_header f)
     \<and> (\<exists>f. fs (pub_path_of key_path) = Some f \<and> mode f = MODE_0644 \<and> contents f \<noteq> [])"

lemma validate_pair:
  assumes "validate_key_file sys fs key_path MODE_0600 = (0, fs1, es1)"
    and "validate_key_file sys fs1 (pub_path_of key_path) MODE_0644 = (0, fs2, es2)"
    and "pub_path_of key_path \<noteq> key_path"
  shows "key_pair_ok fs2 key_path"
  using validate_ok(1) [OF assms(1)] validate_ok(1) [OF assms(2)]
    validate_ok(2) [OF assms(2), of key_path] assms(3)
  by (auto simp: key_pair_ok_def)

lemma validate_result: "validate_key_file sys fs path m = (r, fs', es) \<Longrightarrow> r = 0 \<or> r = - 1"
  by (auto simp: validate_key_file_def Let_def split: option.splits if_splits)

lemma generate_ok:
  assumes "generate_host_key sys fs key_path = (0, fs', es)" and "pub_path_of key_path \<noteq> key_path"
  shows "key_pair_ok fs' key_path"
  using assms(1)
  by (auto simp: generate_host_key_def Let_def split: option.splits if_splits prod.splits
      dest!: validate_pair [OF _ _ assms(2)])

section \<open>Admitting a client\<close>

text \<open>From \<open>accept\<close> to the start of the service.\<close>

lemma admit:
  assumes "free_fd s fd" "clients s i = None" "srv_heap s a = None" "table_ok (store_of s)"
    and "sem_count (srv_sem s) < sem_max (srv_sem s)"
  shows "\<exists>s'. (server_step free_fd)\<^sup>*\<^sup>* s s' \<and> clients s' = (clients s)(i \<mapsto> Serving fd a)
    \<and> srv_fds s' = insert fd (srv_fds s) \<and> table_ok (store_of s')
    \<and> srv_sem s' = (srv_sem s)\<lparr>sem_count := sem_count (srv_sem s) + 1\<rparr>
    \<and> srv_heap s' = (srv_heap s)(a \<mapsto> connection_create fd [] 0 HTTP_PROTOCOL 0 0)
    \<and> sessions_at (store_of s') = (sessions_at (store_of s))(fd := a # sessions_at (store_of s) fd)"
proof -
  let ?h = "(srv_heap s)(a \<mapsto> connection_create fd [] 0 HTTP_PROTOCOL 0 0)"
  let ?sem = "(srv_sem s)\<lparr>sem_count := sem_count (srv_sem s) + 1\<rparr>"
  let ?s1 = "s\<lparr>srv_fds := insert fd (srv_fds s), clients := (clients s)(i \<mapsto> Waiting fd)\<rparr>"
  let ?s2 = "?s1\<lparr>srv_sem := ?sem, clients := (clients ?s1)(i \<mapsto> Starting fd)\<rparr>"
  have "server_step free_fd s ?s1" using assms(1,2) by (rule accept)
  moreover have "server_step free_fd ?s1 ?s2"
    using assms(5) by (intro acquire) (simp_all add: conn_semaphore_acquire_def)
  moreover from start_ok [OF assms(4,3), of fd "[]" 0 HTTP_PROTOCOL 0] obtain tab where tab:
    "session_table_add (srv_sessions s) ?h a = Inr tab" "table_ok (tab, ?h)"
    "sessions_at (tab, ?h) = (sessions_at (store_of s))(fd := a # sessions_at (store_of s) fd)" by blast
  moreover have "server_step free_fd ?s2
      (?s2\<lparr>srv_heap := ?h, srv_sessions := tab, clients := (clients ?s2)(i \<mapsto> Serving fd a)\<rparr>)"
    using tab(1) assms(3) by (intro start [where ip = "[]" and port = 0 and proto = HTTP_PROTOCOL and now = 0]) simp_all
  ultimately show ?thesis
    by (intro exI [of _ "?s2\<lparr>srv_heap := ?h, srv_sessions := tab,
        clients := (clients ?s2)(i \<mapsto> Serving fd a)\<rparr>"] conjI)
      (auto intro: converse_rtranclp_into_rtranclp)
qed

lemma first_client:
  assumes "free_fd (server_init get_default_config) 5"
  shows "\<exists>s. (server_step free_fd)\<^sup>*\<^sup>* (server_init get_default_config) s
    \<and> clients s = [0 \<mapsto> Serving 5 0] \<and> srv_fds s = {5} \<and> table_ok (store_of s)
    \<and> sem_count (srv_sem s) = 1 \<and> sem_max (srv_sem s) = 100
    \<and> srv_heap s = [0 \<mapsto> connection_create 5 [] 0 HTTP_PROTOCOL 0 0]
    \<and> sessions_at (store_of s) 5 = [0]"
proof -
  let ?s = "server_init get_default_config"
  have init: "clients ?s = Map.empty" "srv_heap ?s = Map.empty" "srv_fds ?s = {}"
    "srv_sem ?s = \<lparr>sem_count = 0, sem_max = 100\<rparr>"
    by (simp_all add: server_init_def conn_semaphore_init_def get_default_config_def)
  have "sessions_at (store_of ?s) 5 = []"
    by (simp add: server_init_def sessions_at_def session_table_create_def hash_int_less)
  with admit [of free_fd ?s 5 0 0, OF assms _ _ table_ok_server_init] show ?thesis
    by (auto simp: init)
qed

section \<open>Properties\<close>

text \<open>C19: In every state the threads can reach, the semaphore counts the clients that are past it, at
  most \<open>max_connections\<close> of them (100 by default), and the session table is well formed: no
  bucket holds a freed connection, so no table operation ever follows a dangling pointer, whatever
  the interleaving and whatever descriptors the kernel hands out.\<close>

theorem server_invariant:
  assumes "(server_step free_fd)\<^sup>*\<^sup>* (server_init get_default_config) s"
  shows "int (card (active s)) = sem_count (srv_sem s) \<and> card (active s) \<le> 100
    \<and> table_ok (store_of s)
    \<and> (\<forall>fd. \<exists>r. session_table_get (srv_sessions s) (srv_heap s) fd = Inr r)
    \<and> (\<forall>fd. \<exists>r. session_table_remove (srv_sessions s) (srv_heap s) fd = Inr r)"
proof -
  have "sem_ok (server_init get_default_config)" by (rule sem_ok_init) (simp add: get_default_config_def)
  from sem_ok_reachable [OF assms this] have sem: "sem_ok s" .
  have max: "sem_max (srv_sem s) = 100"
    using sem_max_reachable [OF assms]
    by (simp add: server_init_def conn_semaphore_init_def get_default_config_def)
  have tab: "table_ok (store_of s)" by (rule table_ok_reachable [OF assms table_ok_server_init])
  moreover have "\<forall>fd. \<exists>r. session_table_get (srv_sessions s) (srv_heap s) fd = Inr r"
    using store_get_ok [OF tab] by (auto simp: store_get_def)
  moreover have "\<forall>fd. \<exists>r. session_table_remove (srv_sessions s) (srv_heap s) fd = Inr r"
    using remove_ok' [OF tab] by blast
  ultimately show ?thesis using sem max by (simp add: sem_ok_def)
qed

theorem server_invariant_witness:
  "\<exists>s. (server_step closed_fd)\<^sup>*\<^sup>* (server_init get_default_config) s
     \<and> clients s 0 = Some (Serving 5 0) \<and> card (active s) \<le> 100 \<and> table_ok (store_of s)"
proof -
  have "closed_fd (server_init get_default_config) 5" by (simp add: closed_fd_def server_init_def)
  from first_client [of closed_fd, OF this] obtain s where
    s: "(server_step closed_fd)\<^sup>*\<^sup>* (server_init get_default_config) s" "clients s = [0 \<mapsto> Serving 5 0]"
    by blast
  with server_invariant [OF s(1)] show ?thesis by auto
qed

text \<open>C20: As long as \<open>accept\<close> does not return a descriptor number that a handler still has to pass to
  \<open>session_table_remove\<close>, every client that is being served has a live connection object of its
  own, with its own descriptor, and no service ever uses a connection that has been freed.\<close>

theorem served_connection_alive:
  assumes "(server_step unused_fd)\<^sup>*\<^sup>* (server_init cfg) s" and "clients s i = Some (Serving fd a)"
  shows "(\<exists>c. srv_heap s a = Some c \<and> socket_file_descriptor c = fd)
    \<and> (\<forall>j fd' a'. clients s j \<noteq> Some (Faulted fd' a'))"
  using owner_alive [OF owner_ok_reachable [OF assms(1) owner_ok_init] assms(2)]
    no_fault_reachable [OF assms(1)] by blast

theorem served_connection_alive_witness:
  "\<exists>s c. (server_step unused_fd)\<^sup>*\<^sup>* (server_init get_default_config) s
     \<and> clients s 0 = Some (Serving 5 0) \<and> srv_heap s 0 = Some c \<and> socket_file_descriptor c = 5"
proof -
  have "unused_fd (server_init get_default_config) 5"
    by (simp add: unused_fd_def server_init_def uses_fd_def)
  from first_client [of unused_fd, OF this] obtain s where
    s: "(server_step unused_fd)\<^sup>*\<^sup>* (server_init get_default_config) s" "clients s 0 = Some (Serving 5 0)"
    by auto
  with served_connection_alive [OF s] show ?thesis by blast
qed

text \<open>C21: A host key that \<open>ensure_ssh_host_key\<close> accepts is usable and private: on success the private
  key exists, has \<open>-----BEGIN\<close> in the first 63 bytes of its first line and has mode 0600, and the public key exists and has mode
  0644, whether they were found, repaired or generated by \<open>ssh-keygen\<close>.\<close>

theorem host_key_private:
  assumes "ensure_ssh_host_key sys fs key_path = (0, fs', es)" and "pub_path_of key_path \<noteq> key_path"
  shows "key_pair_ok fs' key_path"
  using assms(1)
  by (auto simp: ensure_ssh_host_key_def Let_def split: if_splits prod.splits option.splits
      dest: validate_pair [OF _ _ assms(2)] generate_ok [OF _ assms(2)])

definition example_files :: fs where
  "example_files = [SSH_KEY_DIR \<mapsto> \<lparr>is_dir = True, mode = 0x1C0, contents = []\<rparr>,
     SSH_HOST_KEY_PATH \<mapsto> \<lparr>is_dir = False, mode = MODE_0644, contents = ''-----BEGIN KEY''\<rparr>,
     pub_path_of SSH_HOST_KEY_PATH \<mapsto> \<lparr>is_dir = False, mode = MODE_0644, contents = ''ssh-rsa''\<rparr>]"

definition example_sys :: sys where
  "example_sys = \<lparr>sys_mkdir = True, sys_chmod = (\<lambda>_. True), sys_fopen = (\<lambda>_. True),
     sys_system = (\<lambda>_ fs. (0, fs))\<rparr>"

theorem host_key_private_witness:
  "\<exists>fs' es. ensure_ssh_host_key example_sys example_files SSH_HOST_KEY_PATH = (0, fs', es)
     \<and> key_pair_ok fs' SSH_HOST_KEY_PATH"
proof -
  have paths: "pub_path_of ''keys/ssh_host_rsa_key'' = ''keys/ssh_host_rsa_key.pub''"
    "SSH_HOST_KEY_PATH = ''keys/ssh_host_rsa_key''" "SSH_KEY_DIR = ''keys''"
    by (simp_all add: pub_path_of_def SSH_HOST_KEY_PATH_def SSH_KEY_DIR_def snprintf_def)
  have "\<exists>fs' es. ensure_ssh_host_key example_sys example_files SSH_HOST_KEY_PATH = (0, fs', es)"
    unfolding example_files_def
    by (simp add: paths ensure_ssh_host_key_def ensure_key_directory_def validate_key_file_def
        example_sys_def chmod_def MODE_0600_def MODE_0644_def fgets_def pem_header_def contains_def)
  moreover have "pub_path_of SSH_HOST_KEY_PATH \<noteq> SSH_HOST_KEY_PATH" by (simp add: paths)
  ultimately show ?thesis using host_key_private by blast
qed

section \<open>A descriptor number that is used again\<close>

text \<open>
  A service closes its socket before \<open>connection_handler\<close> removes the session by the number of
  that socket. In between, \<open>accept\<close> may return the same number to another thread; the removal
  then finds the newer session first and frees the connection that thread is serving, whose service
  then uses freed memory.
\<close>

theorem fd_reuse_frees_live_connection:
  "\<exists>s. (server_step closed_fd)\<^sup>*\<^sup>* (server_init get_default_config) s
     \<and> clients s 1 = Some (Faulted 5 1)"
proof -
  have "closed_fd (server_init get_default_config) 5" by (simp add: closed_fd_def server_init_def)
  from first_client [of closed_fd, OF this] obtain s where s:
    "(server_step closed_fd)\<^sup>*\<^sup>* (server_init get_default_config) s"
    "clients s = [0 \<mapsto> Serving 5 0]" "srv_fds s = {5}" "table_ok (store_of s)"
    "sem_count (srv_sem s) = 1" "sem_max (srv_sem s) = 100"
    "srv_heap s = [0 \<mapsto> connection_create 5 [] 0 HTTP_PROTOCOL 0 0]"
    "sessions_at (store_of s) 5 = [0]" by blast
  let ?c = "connection_create 5 [] 0 HTTP_PROTOCOL 0 0"
  let ?t = "s\<lparr>srv_heap := (srv_heap s)(0 \<mapsto> ?c), srv_fds := srv_fds s - {5}, clients := (clients s)(0 \<mapsto> Closed 5 0)\<rparr>"
  have serve: "server_step closed_fd s ?t" by (rule server_step.serve [where c = ?c]) (simp_all add: s)
  have "closed_fd ?t 5" "clients ?t 1 = None" "srv_heap ?t 1 = None" "table_ok (store_of ?t)"
    "sem_count (srv_sem ?t) < sem_max (srv_sem ?t)"
    using s by (simp_all add: closed_fd_def)
  moreover have "sessions_at (store_of ?t) 5 = [0]" using s(7,8) by simp
  ultimately obtain u where u:
    "(server_step closed_fd)\<^sup>*\<^sup>* ?t u" "clients u = (clients ?t)(1 \<mapsto> Serving 5 1)"
    "table_ok (store_of u)"
    "sessions_at (store_of u) = (sessions_at (store_of ?t))(5 := [1, 0])"
    using admit [of closed_fd ?t 5 1 1] by metis
  then have at: "sessions_at (store_of u) 5 = [1, 0]" by simp
  from store_remove_ok [OF u(3) at] obtain tab h where rem:
    "session_table_remove (srv_sessions u) (srv_heap u) 5 = Inr (tab, h)"
    "fd_of (tab, h) = (fd_of (store_of u))(1 := None)"
    by (auto simp: store_remove_def)
  then have "h 1 = None" by (metis fd_of_def fun_upd_same map_option_is_None snd_conv)
  let ?v = "u\<lparr>srv_heap := h, srv_sessions := tab, clients := (clients u)(0 \<mapsto> Removed)\<rparr>"
  have "server_step closed_fd u ?v"
    using rem(1) by (intro server_step.remove) (auto simp: u(2))
  then have "(server_step closed_fd)\<^sup>*\<^sup>* (server_init get_default_config) ?v"
    using s(1) serve u(1) by (meson rtranclp.rtrancl_into_rtrancl rtranclp_trans)
  moreover have "server_step closed_fd ?v (?v\<lparr>clients := (clients ?v)(1 \<mapsto> Faulted 5 1)\<rparr>)"
    using \<open>h 1 = None\<close> by (intro serve_freed) (auto simp: u(2))
  ultimately have "(server_step closed_fd)\<^sup>*\<^sup>* (server_init get_default_config)
      (?v\<lparr>clients := (clients ?v)(1 \<mapsto> Faulted 5 1)\<rparr>)" by (rule rtranclp.rtrancl_into_rtrancl)
  moreover have "clients (?v\<lparr>clients := (clients ?v)(1 \<mapsto> Faulted 5 1)\<rparr>) 1 = Some (Faulted 5 1)"
    by simp
  ultimately show ?thesis by blast
qed

section \<open>The recorded address does not depend on the client\<close>

text \<open>The address of an IPv4 client on the IPv6 socket.\<close>

definition v4_mapped :: "byte list \<Rightarrow> byte list" where
  "v4_mapped v4 = replicate 10 0 @ [0xFF, 0xFF] @ v4"

text \<open>
  The last eight bytes of the client's address are not copied: all IPv4 clients are recorded with
  the same address; and twelve bytes are written past the end of the variable.
\<close>

theorem recorded_address_independent:
  assumes "length v4 = 4" "length w4 = 4" "length port = 2" "length flow = 4"
  shows "handler_addr6 (sockaddr_in6 port flow (v4_mapped v4)) padding ptr =
      handler_addr6 (sockaddr_in6 port flow (v4_mapped w4)) padding ptr"
    and "length (accept_overflow (sockaddr_in6 port flow (v4_mapped v4))) = 12"
  using assms by (simp_all add: handler_addr6_def sockaddr_in6_def v4_mapped_def accept_overflow_def)

end
