(* ===== verification/Ssh_Honeypot.thy ===== *)
theory Ssh_Honeypot
  imports Service Server
begin

text \<open>
  src/service/ssh_honeypot.c: password capture and a fake shell over SSH. The protocol itself is
  libssh, which is not part of the sources: what its calls return is a parameter
  (\<open>ssh_lib\<close>), and what the service asks of it is part of the trace.
\<close>

section \<open>Constants\<close>

definition SSH_HONEYPOT_MAX_AUTH_ATTEMPTS :: nat where "SSH_HONEYPOT_MAX_AUTH_ATTEMPTS = 3"

definition SSH_HONEYPOT_SHELL_PROMPT :: string where
  "SSH_HONEYPOT_SHELL_PROMPT = ''root@honeydew:~# ''"

definition SSH_HONEYPOT_MOTD :: string where
  "SSH_HONEYPOT_MOTD =
     ''Welcome to Ubuntu 22.04.3 LTS (GNU/Linux 5.15.0-91-generic x86_64)'' @ CRLF
     @ CRLF
     @ '' * Documentation:  https://help.ubuntu.com'' @ CRLF
     @ '' * Management:     https://landscape.canonical.com'' @ CRLF
     @ '' * Support:        https://ubuntu.com/pro'' @ CRLF
     @ CRLF
     @ ''System information as of Sun Jul  6 14:23:01 UTC 2026'' @ CRLF
     @ CRLF
     @ ''  System load:  0.08       Processes:           142'' @ CRLF
     @ ''  Usage of /:   34.2%      Users logged in:     1'' @ CRLF
     @ ''  Memory usage: 62%        IPv4 address for eth0: 10.0.2.15'' @ CRLF
     @ ''  Swap usage:   0%'' @ CRLF
     @ CRLF
     @ ''Last login: Sun Jul  6 12:45:33 2026 from 203.0.113.42'' @ CRLF"

definition fake_command_response :: "string \<Rightarrow> string option" where
  "fake_command_response cmd =
     (if contains cmd ''whoami'' then Some (''root'' @ CRLF)
      else if contains cmd ''id'' then Some (''uid=0(root) gid=0(root) groups=0(root)'' @ CRLF)
      else if contains cmd ''uname''
      then Some (''Linux honeydew 5.15.0-91-generic #101-Ubuntu SMP x86_64'' @ CRLF)
      else if contains cmd ''pwd'' then Some (''/root'' @ CRLF)
      else if contains cmd ''ls''
      then Some (''Desktop  Documents  Downloads  .bash_history  .ssh'' @ CRLF)
      else if contains cmd ''cat /etc/passwd''
      then Some (''root:x:0:0:root:/root:/bin/bash'' @ CRLF
                 @ ''daemon:x:1:1:daemon:/usr/sbin:/usr/sbin/nologin'' @ CRLF
                 @ ''www-data:x:33:33:www-data:/var/www:/usr/sbin/nologin'' @ CRLF)
      else if contains cmd ''cat /etc/shadow'' then Some (''cat: /etc/shadow: Permission denied'' @ CRLF)
      else if contains cmd ''ifconfig'' \<or> contains cmd ''ip addr''
      then Some (''eth0: inet 10.0.2.15/24 brd 10.0.2.255'' @ CRLF @ ''lo: inet 127.0.0.1/8'' @ CRLF)
      else if contains cmd ''ps''
      then Some (''  PID TTY          TIME CMD'' @ CRLF
                 @ ''    1 ?        00:00:01 systemd'' @ CRLF
                 @ ''  512 ?        00:00:00 sshd'' @ CRLF
                 @ '' 1024 pts/0    00:00:00 bash'' @ CRLF)
      else if contains cmd ''exit'' \<or> contains cmd ''logout'' then None
      else Some (''bash: command not found'' @ CRLF))"

section \<open>The library\<close>

text \<open>
  A message of the client, by its type and subtype. A request to open a session channel carries
  whether accepting it yields a channel.
\<close>

datatype chan_request = PTY | SHELL | ENV | Other_request

datatype ssh_msg =
    Auth_password "string option" "string option"
  | Auth_none
  | Auth_other
  | Open_session bool
  | Channel_request chan_request
  | Other_message

text \<open>
  What the library answers: whether \<open>ssh_new\<close> and \<open>ssh_bind_new\<close> give an object, the error
  texts of \<open>ssh_bind_accept_fd\<close> and the key exchange when they fail, the messages
  \<open>ssh_message_get\<close> returns before NULL, whether the channel counts as open and not at its end
  when the given data is still to be read, and that data.
\<close>

record ssh_lib =
  new_ok :: bool
  bind_new_ok :: bool
  accept_error :: "string option"
  kex_error :: "string option"
  messages :: "ssh_msg list"
  channel_up :: "segment list \<Rightarrow> bool"
  channel_data :: "segment list"

datatype ssh_call =
    Eff eff
  | Set_blocking
  | Set_fd int
  | Set_rsakey string
  | Get_bind_error
  | Get_session_error
  | Auth_reply_success
  | Auth_set_password_method
  | Reply_default
  | Open_reply_accept
  | Request_reply_success
  | Message_free
  | Channel_write string
  | Channel_send_eof
  | Channel_close
  | Channel_free
  | Disconnect
  | Bind_free
  | Session_free

fun ssh_audits :: "ssh_call list \<Rightarrow> audit_req list" where
  "ssh_audits [] = []"
| "ssh_audits (e # es) = (case e of Eff (Audit r) \<Rightarrow> r # ssh_audits es | _ \<Rightarrow> ssh_audits es)"

section \<open>Authentication\<close>

text \<open>
  The first message loop, from the given number of attempts on: the calls, whether the client is
  authenticated, and the messages not yet fetched.
\<close>

fun ssh_auth :: "string \<Rightarrow> int \<Rightarrow> string \<Rightarrow> nat \<Rightarrow> ssh_msg list \<Rightarrow> ssh_call list \<times> bool \<times> ssh_msg list" where
  "ssh_auth ip port sid auth_attempts [] = ([], False, [])"
| "ssh_auth ip port sid auth_attempts (msg # msgs) =
     (if \<not> auth_attempts < SSH_HONEYPOT_MAX_AUTH_ATTEMPTS then ([], False, msg # msgs)
      else case msg of
        Auth_password user pass \<Rightarrow>
          let auth_attempts = auth_attempts + 1;
              success = SSH_HONEYPOT_MAX_AUTH_ATTEMPTS \<le> auth_attempts;
              es = [Eff (Log UTILITIES_WARN
                      [Str (case user of Some u \<Rightarrow> u | None \<Rightarrow> txt_empty),
                       Str (case pass of Some p \<Rightarrow> p | None \<Rightarrow> txt_empty), Str ip, Num port]),
                    Eff (Audit (audit_record_auth SSH_PROTOCOL ip port sid
                      (case user of Some u \<Rightarrow> u | None \<Rightarrow> [])
                      (Some (case pass of Some p \<Rightarrow> p | None \<Rightarrow> [])) success)),
                    if success then Auth_reply_success else Reply_default, Message_free]
          in if success then (es, True, msgs)
             else (case ssh_auth ip port sid auth_attempts msgs of (es', r) \<Rightarrow> (es @ es', r))
      | _ \<Rightarrow>
          let es = (case msg of
                      Auth_none \<Rightarrow> [Auth_set_password_method, Reply_default]
                    | Auth_other \<Rightarrow> [Auth_set_password_method, Reply_default]
                    | _ \<Rightarrow> [Reply_default])
          in (case ssh_auth ip port sid auth_attempts msgs of (es', r) \<Rightarrow> (es @ Message_free # es', r)))"

section \<open>The channel\<close>

text \<open>The second message loop: the calls, whether there is a channel, whether a shell was asked for.\<close>

fun ssh_channel_loop :: "bool \<Rightarrow> bool \<Rightarrow> ssh_msg list \<Rightarrow> ssh_call list \<times> bool \<times> bool" where
  "ssh_channel_loop channel shell_requested msgs =
     (if channel \<and> shell_requested then ([], channel, shell_requested)
      else case msgs of
        [] \<Rightarrow> ([], channel, shell_requested)
      | msg # msgs \<Rightarrow>
          let (es, channel, shell_requested) =
            (case msg of
               Open_session accepted \<Rightarrow> ([Open_reply_accept], accepted, shell_requested)
             | Channel_request subtype \<Rightarrow>
                 if channel then
                   (case subtype of
                      PTY \<Rightarrow> ([Request_reply_success], channel, shell_requested)
                    | SHELL \<Rightarrow> ([Request_reply_success], channel, True)
                    | ENV \<Rightarrow> ([Request_reply_success], channel, shell_requested)
                    | Other_request \<Rightarrow> ([Reply_default], channel, shell_requested))
                 else ([Reply_default], channel, shell_requested)
             | _ \<Rightarrow> ([Reply_default], channel, shell_requested))
          in case ssh_channel_loop channel shell_requested msgs of (es', r) \<Rightarrow> (es @ Message_free # es', r))"

declare ssh_channel_loop.simps [simp del]

section \<open>The shell\<close>

text \<open>
  One character. \<open>cmd\<close> is what \<open>cmd_buf\<close> holds before \<open>cmd_len\<close>; the last result is
  False for \<open>goto session_end\<close>.
\<close>

definition ssh_key :: "string \<Rightarrow> int \<Rightarrow> string \<Rightarrow> string \<Rightarrow> char \<Rightarrow> string \<times> ssh_call list \<times> bool" where
  "ssh_key ip port sid cmd c =
     (if c = CR \<or> c = LF then
        let prompt = [Channel_write SSH_HONEYPOT_SHELL_PROMPT]
        in if cmd = [] then ([], Channel_write CRLF # prompt, True)
           else
             let es = [Channel_write CRLF, Eff (Log UTILITIES_WARN [Str (cstr cmd), Str ip, Num port]),
                       Eff (Audit (audit_record_command SSH_PROTOCOL ip port sid (cstr cmd)))]
             in (case fake_command_response (cstr cmd) of
                   None \<Rightarrow> (cmd, es @ [Eff (Log UTILITIES_INFO [Str ip, Num port])], False)
                 | Some r \<Rightarrow> ([], es @ Channel_write r # prompt, True))
      else if c = CHR 0x7F \<or> c = CHR 0x08 then
        if cmd = [] then (cmd, [], True)
        else (butlast cmd, [Channel_write [CHR 0x08, CHR '' '', CHR 0x08]], True)
      else if c = CHR 0x03 then
        ([], [Channel_write (''^C'' @ CRLF), Channel_write SSH_HONEYPOT_SHELL_PROMPT], True)
      else if length cmd < 1023 then (cmd @ [c], [Channel_write [c]], True)
      else (cmd, [], True))"

fun ssh_keys :: "string \<Rightarrow> int \<Rightarrow> string \<Rightarrow> string \<Rightarrow> string \<Rightarrow> string \<times> ssh_call list \<times> bool" where
  "ssh_keys ip port sid cmd [] = (cmd, [], True)"
| "ssh_keys ip port sid cmd (c # cs) =
     (case ssh_key ip port sid cmd c of
        (cmd, es, running) \<Rightarrow>
          if running then (case ssh_keys ip port sid cmd cs of (cmd, es', r) \<Rightarrow> (cmd, es @ es', r))
          else (cmd, es, False))"

text \<open>The read loop; a read takes at most 255 bytes.\<close>

function ssh_shell ::
  "(segment list \<Rightarrow> bool) \<Rightarrow> string \<Rightarrow> int \<Rightarrow> string \<Rightarrow> string \<Rightarrow> segment list \<Rightarrow> ssh_call list" where
  "ssh_shell up ip port sid cmd ib =
     (if \<not> up ib then []
      else case recv 255 ib of
        (Got buf, ib') \<Rightarrow>
          (case ssh_keys ip port sid cmd buf of
             (cmd, es, running) \<Rightarrow> if running then es @ ssh_shell up ip port sid cmd ib' else es)
      | _ \<Rightarrow> [])"
  by pat_completeness auto
termination
  by (relation "measure (\<lambda>(_, _, _, _, _, ib). inbox_size ib)") (auto dest: recv_Got(3) [OF sym])

declare ssh_shell.simps [simp del]

section \<open>The service\<close>

text \<open>From the end of the key exchange on.\<close>

definition ssh_session :: "ssh_lib \<Rightarrow> string \<Rightarrow> int \<Rightarrow> string \<Rightarrow> ssh_call list" where
  "ssh_session lib ip port sid =
     (let note = (\<lambda>level. Eff (Log level [Str ip, Num port]));
          (es, authenticated, msgs) = ssh_auth ip port sid 0 (messages lib)
      in note UTILITIES_INFO # es
         @ (if \<not> authenticated then [note UTILITIES_INFO, Disconnect, Bind_free, Session_free]
            else
              let (es', channel, shell_requested) = ssh_channel_loop False False msgs
              in note UTILITIES_WARN # es'
                 @ (if \<not> channel \<or> \<not> shell_requested
                    then note UTILITIES_INFO # (if channel then [Channel_free] else [])
                         @ [Disconnect, Bind_free, Session_free]
                    else
                      [Channel_write SSH_HONEYPOT_MOTD, Channel_write SSH_HONEYPOT_SHELL_PROMPT]
                      @ ssh_shell (channel_up lib) ip port sid [] (channel_data lib)
                      @ [Channel_send_eof, Channel_close, Channel_free, Disconnect, Bind_free, Session_free,
                         Eff (Audit (audit_record_disconnect SSH_PROTOCOL ip port sid)),
                         note UTILITIES_INFO])))"

definition run_ssh_service :: "ssh_lib \<Rightarrow> string \<Rightarrow> connection \<Rightarrow> ssh_call list" where
  "run_ssh_service lib sid conn =
     (let ip = remote_ip conn; port = uint (remote_port conn); fd = socket_file_descriptor conn
      in [Eff (Log UTILITIES_INFO [Str ip, Num port, Num fd]),
          Eff (Audit (audit_record_connection SSH_PROTOCOL ip port sid))]
         @ (if \<not> new_ok lib then [Eff (Log UTILITIES_ERROR []), Eff (Close fd)]
            else
              [Set_blocking, Set_fd fd]
              @ (if \<not> bind_new_ok lib then [Eff (Log UTILITIES_ERROR []), Session_free, Eff (Close fd)]
                 else
                   Set_rsakey (ssh_host_key_path get_default_config)
                   # (case accept_error lib of
                        Some e \<Rightarrow> [Get_bind_error, Eff (Log UTILITIES_ERROR [Str e]), Bind_free, Session_free,
                                   Eff (Close fd)]
                      | None \<Rightarrow>
                          (case kex_error lib of
                             Some e \<Rightarrow> [Get_session_error, Eff (Log UTILITIES_ERROR [Str e]), Disconnect, Bind_free,
                                        Session_free]
                           | None \<Rightarrow> ssh_session lib ip port sid)))))"

section \<open>Records\<close>

lemma ssh_audits_append [simp]: "ssh_audits (xs @ ys) = ssh_audits xs @ ssh_audits ys"
  by (induction xs) (auto split: ssh_call.splits eff.splits)

text \<open>The passwords among the messages, a missing user or password as an empty text.\<close>

fun ssh_passwords :: "ssh_msg list \<Rightarrow> (string \<times> string) list" where
  "ssh_passwords [] = []"
| "ssh_passwords (msg # msgs) =
     (case msg of
        Auth_password u p \<Rightarrow> [(case u of Some u \<Rightarrow> u | None \<Rightarrow> [], case p of Some p \<Rightarrow> p | None \<Rightarrow> [])]
      | _ \<Rightarrow> []) @ ssh_passwords msgs"

definition auth_records :: "string \<Rightarrow> int \<Rightarrow> string \<Rightarrow> nat \<Rightarrow> (string \<times> string) list \<Rightarrow> audit_req list" where
  "auth_records ip port sid n ps =
     map (\<lambda>(k, u, p). audit_record_auth SSH_PROTOCOL ip port sid u (Some p) (k = 3)) (zip [n..<4] ps)"

lemma auth_records_simps [simp]:
  "auth_records ip port sid n [] = []"
  "auth_records ip port sid 4 ps = []"
  "n < 4 \<Longrightarrow> auth_records ip port sid n ((u, p) # ps) =
     audit_record_auth SSH_PROTOCOL ip port sid u (Some p) (n = 3) # auth_records ip port sid (Suc n) ps"
  by (simp_all add: auth_records_def upt_conv_Cons)

lemma ssh_auth_result:
  "n < 3 \<Longrightarrow>
   (case ssh_auth ip port sid n msgs of (es, ok, rest) \<Rightarrow>
      (ok \<longleftrightarrow> 3 \<le> n + length (ssh_passwords msgs))
      \<and> ssh_audits es = auth_records ip port sid (Suc n) (ssh_passwords msgs))"
proof (induction msgs arbitrary: n)
  case (Cons msg msgs)
  show ?case
  proof (cases "\<exists>u p. msg = Auth_password u p")
    case True
    then obtain u p where msg: "msg = Auth_password u p" by blast
    show ?thesis
    proof (cases "n = 2")
      case True
      then show ?thesis by (simp add: msg SSH_HONEYPOT_MAX_AUTH_ATTEMPTS_def)
    next
      case False
      with Cons.prems have "Suc n < 3" by simp
      from Cons.IH [OF this] False Cons.prems show ?thesis
        by (simp add: msg SSH_HONEYPOT_MAX_AUTH_ATTEMPTS_def case_prod_beta)
    qed
  next
    case False
    with Cons.IH [OF Cons.prems] Cons.prems show ?thesis
      by (cases msg) (simp_all add: SSH_HONEYPOT_MAX_AUTH_ATTEMPTS_def case_prod_beta)
  qed
qed simp

lemma channel_loop_audits: "ssh_audits (fst (ssh_channel_loop channel shell msgs)) = []"
proof (induction msgs arbitrary: channel shell)
  case Nil
  show ?case by (subst ssh_channel_loop.simps) simp
next
  case (Cons msg msgs)
  show ?case
    by (subst ssh_channel_loop.simps)
      (cases msg; simp add: Cons.IH case_prod_beta Let_def split: chan_request.split)
qed

section \<open>What is typed\<close>

lemma ssh_keys_append:
  "ssh_keys ip port sid cmd (xs @ ys) =
     (case ssh_keys ip port sid cmd xs of
        (cmd', es, running) \<Rightarrow>
          if running then (case ssh_keys ip port sid cmd' ys of (cmd', es', r) \<Rightarrow> (cmd', es @ es', r))
          else (cmd', es, False))"
  by (induction xs arbitrary: cmd) (auto simp: case_prod_beta)

text \<open>How the data is cut into reads does not matter.\<close>

lemma ssh_shell_stream:
  assumes "\<And>ib. stream ib \<noteq> [] \<Longrightarrow> up ib"
  shows "ssh_shell up ip port sid cmd ib = fst (snd (ssh_keys ip port sid cmd (stream ib)))"
proof (induction "inbox_size ib" arbitrary: cmd ib rule: less_induct)
  case less
  show ?case
  proof (cases "recv 255 ib")
    case (Pair r ib')
    show ?thesis
    proof (cases r)
      case (Got buf)
      with Pair have recv: "recv 255 ib = (Got buf, ib')" by simp
      note got = recv_Got [OF recv]
      have "up ib" using assms got by simp
      with less.hyps [OF got(3)] show ?thesis
        by (subst ssh_shell.simps) (simp add: recv got(4) ssh_keys_append case_prod_beta)
    next
      case Eof
      then show ?thesis using recv_end [OF Pair] by (subst ssh_shell.simps) (simp add: Pair)
    next
      case Err
      then show ?thesis using recv_end [OF Pair] by (subst ssh_shell.simps) (simp add: Pair)
    qed
  qed
qed

text \<open>A line that a user can type: none of its characters edits, and it fits the buffer.\<close>

definition typable :: "string \<Rightarrow> bool" where
  "typable l \<longleftrightarrow> set l \<inter> {NUL, CR, LF, CHR 0x7F, CHR 0x08, CHR 0x03} = {} \<and> length l \<le> 1023"

lemma ssh_key_text:
  "typable (cmd @ [c]) \<Longrightarrow> ssh_key ip port sid cmd c = (cmd @ [c], [Channel_write [c]], True)"
  by (auto simp: ssh_key_def typable_def)

lemma ssh_keys_text:
  "typable (cmd @ l) \<Longrightarrow> ssh_keys ip port sid cmd l = (cmd @ l, map (\<lambda>c. Channel_write [c]) l, True)"
proof (induction l arbitrary: cmd)
  case (Cons c l)
  have "typable ((cmd @ [c]) @ l)" "typable (cmd @ [c])"
    using Cons.prems by (auto simp: typable_def)
  from Cons.IH [OF this(1)] ssh_key_text [OF this(2)] show ?case by simp
qed simp

lemma ssh_audits_echo [simp]: "ssh_audits (map (\<lambda>c. Channel_write [c]) l) = []"
  by (induction l) simp_all

text \<open>The commands among the lines: not the empty ones, and none after a command that ends the shell.\<close>

fun ssh_executed :: "string list \<Rightarrow> string list" where
  "ssh_executed [] = []"
| "ssh_executed (l # ls) =
     (if l = [] then ssh_executed ls
      else l # (if fake_command_response l = None then [] else ssh_executed ls))"

lemma ssh_line:
  assumes "typable l"
  shows "ssh_keys ip port sid [] (l @ CR # s) =
    (case ssh_key ip port sid l CR of
       (cmd, es, running) \<Rightarrow>
         if running then
           (case ssh_keys ip port sid cmd s of
              (cmd, es', r) \<Rightarrow> (cmd, map (\<lambda>c. Channel_write [c]) l @ es @ es', r))
         else (cmd, map (\<lambda>c. Channel_write [c]) l @ es, False))"
  using ssh_keys_text [of "[]" l] assms by (simp add: ssh_keys_append case_prod_beta)

lemma ssh_lines_recorded:
  "list_all typable ls \<Longrightarrow>
   ssh_audits (fst (snd (ssh_keys ip port sid [] (concat (map (\<lambda>l. l @ [CR]) ls)))))
     = map (audit_record_command SSH_PROTOCOL ip port sid) (ssh_executed ls)"
proof (induction ls)
  case (Cons l ls)
  then have l: "typable l" and "cstr l = l"
    by (simp_all add: typable_def cstr_id nul_free_def)
  with Cons show ?case
    by (auto simp: ssh_line [OF l] ssh_key_def case_prod_beta Let_def split: option.split)
qed simp

section \<open>Editing\<close>

text \<open>The command buffer is never written beyond its end.\<close>

lemma ssh_keys_bounded:
  "length cmd \<le> 1023 \<Longrightarrow> length (fst (ssh_keys ip port sid cmd cs)) \<le> 1023"
proof (induction cs arbitrary: cmd)
  case (Cons c cs)
  have "length (fst (ssh_key ip port sid cmd c)) \<le> 1023"
    using Cons.prems by (auto simp: ssh_key_def Let_def split: option.split)
  with Cons.IH show ?case by (simp add: case_prod_beta)
qed simp

lemma ssh_backspace:
  assumes "typable (cmd @ [c])" "b = CHR 0x7F \<or> b = CHR 0x08"
  shows "fst (ssh_keys ip port sid cmd [c, b]) = cmd"
  using assms by (auto simp: ssh_key_def typable_def)

section \<open>Properties\<close>

definition ssh_set_up :: "ssh_lib \<Rightarrow> bool" where
  "ssh_set_up lib \<longleftrightarrow> new_ok lib \<and> bind_new_ok lib \<and> accept_error lib = None \<and> kex_error lib = None"

text \<open>Whether the session gets to its shell.\<close>

definition ssh_shell_reached :: "ssh_lib \<Rightarrow> bool" where
  "ssh_shell_reached lib \<longleftrightarrow>
     ssh_set_up lib \<and> 3 \<le> length (ssh_passwords (messages lib))
     \<and> (case ssh_auth [] 0 [] 0 (messages lib) of
          (_, _, msgs) \<Rightarrow> snd (ssh_channel_loop False False msgs) = (True, True))"

lemma ssh_auth_rest: "snd (ssh_auth ip port sid n msgs) = snd (ssh_auth ip' port' sid' n msgs)"
proof (induction msgs arbitrary: n)
  case (Cons msg msgs)
  show ?case
    using Cons.IH [of n] Cons.IH [of "Suc n"] by (cases msg) (simp_all add: Let_def case_prod_beta)
qed simp

text \<open>All that a session leaves in the audit trail.\<close>

lemma ssh_run_audits:
  "ssh_audits (run_ssh_service lib sid c) =
     audit_record_connection SSH_PROTOCOL (remote_ip c) (uint (remote_port c)) sid #
     (if ssh_set_up lib
      then auth_records (remote_ip c) (uint (remote_port c)) sid 1 (ssh_passwords (messages lib))
        @ (if ssh_shell_reached lib
           then ssh_audits (ssh_shell (channel_up lib) (remote_ip c) (uint (remote_port c)) sid []
                  (channel_data lib))
             @ [audit_record_disconnect SSH_PROTOCOL (remote_ip c) (uint (remote_port c)) sid]
           else [])
      else [])"
proof (cases "ssh_set_up lib")
  case True
  let ?a = "ssh_auth (remote_ip c) (uint (remote_port c)) sid 0 (messages lib)"
  have a: "snd (ssh_auth [] 0 [] 0 (messages lib)) = snd ?a" by (rule ssh_auth_rest)
  show ?thesis
    using True ssh_auth_result [of 0 "messages lib" "remote_ip c" "uint (remote_port c)" sid]
      channel_loop_audits [of False False "snd (snd ?a)"]
    by (cases ?a; cases "ssh_channel_loop False False (snd (snd ?a))")
      (auto simp: run_ssh_service_def ssh_session_def ssh_set_up_def ssh_shell_reached_def a case_prod_beta
        Let_def)
next
  case False
  then show ?thesis by (auto simp: run_ssh_service_def ssh_set_up_def Let_def split: option.splits)
qed

lemma ssh_auth_keeps: "set (fst (ssh_auth ip port sid n msgs)) \<inter> {Bind_free, Session_free} = {}"
proof (induction msgs arbitrary: n)
  case (Cons msg msgs)
  show ?case
    using Cons.IH [of n] Cons.IH [of "Suc n"] by (cases msg) (auto simp: Let_def case_prod_beta)
qed simp

lemma ssh_channel_keeps: "set (fst (ssh_channel_loop channel shell msgs)) \<inter> {Bind_free, Session_free} = {}"
proof (induction msgs arbitrary: channel shell)
  case Nil
  show ?case by (subst ssh_channel_loop.simps) simp
next
  case (Cons msg msgs)
  then show ?case
    by (subst ssh_channel_loop.simps)
      (cases msg; simp add: case_prod_beta Let_def split: chan_request.split)
qed

lemma ssh_keys_keep: "set (fst (snd (ssh_keys ip port sid cmd cs))) \<inter> {Bind_free, Session_free} = {}"
proof (induction cs arbitrary: cmd)
  case (Cons c cs)
  have "set (fst (snd (ssh_key ip port sid cmd c))) \<inter> {Bind_free, Session_free} = {}"
    by (simp add: ssh_key_def Let_def split: option.split)
  with Cons.IH show ?case by (auto simp: case_prod_beta)
qed simp

lemma ssh_shell_keeps: "set (ssh_shell up ip port sid cmd ib) \<inter> {Bind_free, Session_free} = {}"
proof (induction "inbox_size ib" arbitrary: cmd ib rule: less_induct)
  case less
  show ?case
  proof (cases "up ib \<and> (\<exists>d ib'. recv 255 ib = (Got d, ib'))")
    case True
    then obtain d ib' where d: "up ib" "recv 255 ib = (Got d, ib')" by blast
    show ?thesis
      using ssh_keys_keep [of ip port sid cmd d] less.hyps [OF recv_Got(3) [OF d(2)]]
      by (subst ssh_shell.simps) (cases "ssh_keys ip port sid cmd d", simp add: d Int_Un_distrib2)
  next
    case False
    then have "ssh_shell up ip port sid cmd ib = []"
      by (cases "recv 255 ib"; cases "fst (recv 255 ib)") (auto simp: ssh_shell.simps)
    then show ?thesis by simp
  qed
qed

text \<open>The objects of the library that a trace frees, in order, and whether the library is left alone after that.\<close>

definition freed :: "ssh_call list \<Rightarrow> ssh_call list" where
  "freed = filter (\<lambda>e. e = Bind_free \<or> e = Session_free)"

lemma freed_append [simp]: "freed (xs @ ys) = freed xs @ freed ys"
  by (simp add: freed_def)

lemma freed_cons [simp]:
  "freed (x # xs) = (if x = Bind_free \<or> x = Session_free then x # freed xs else freed xs)"
  by (simp add: freed_def)

lemma freed_none: "set xs \<inter> {Bind_free, Session_free} = {} \<Longrightarrow> freed xs = []"
  by (auto simp: freed_def filter_empty_conv)

fun own_call :: "ssh_call \<Rightarrow> bool" where
  "own_call (Eff e) \<longleftrightarrow> True"
| "own_call _ \<longleftrightarrow> False"

definition after_free :: "ssh_call list \<Rightarrow> ssh_call list" where
  "after_free es = drop 1 (dropWhile (\<lambda>e. e \<noteq> Session_free) es)"

lemma after_free_append [simp]: "Session_free \<notin> set xs \<Longrightarrow> after_free (xs @ ys) = after_free ys"
  by (induction xs) (auto simp: after_free_def)

lemma after_free_cons [simp]: "after_free (x # xs) = (if x = Session_free then xs else after_free xs)"
  by (simp add: after_free_def)

lemma freed_nil [simp]: "freed [] = []" "after_free [] = []"
  by (simp_all add: freed_def after_free_def)

lemma ssh_session_frees:
  "freed (ssh_session lib ip port sid) = [Bind_free, Session_free]"
  "list_all own_call (after_free (ssh_session lib ip port sid))"
proof -
  let ?a = "ssh_auth ip port sid 0 (messages lib)"
  let ?c = "ssh_channel_loop False False (snd (snd ?a))"
  let ?s = "ssh_shell (channel_up lib) ip port sid [] (channel_data lib)"
  note keeps = ssh_auth_keeps [of ip port sid 0 "messages lib"]
    ssh_channel_keeps [of False False "snd (snd ?a)"] ssh_shell_keeps [of "channel_up lib" ip port sid "[]" "channel_data lib"]
  note none = keeps [THEN freed_none]
  have free: "Session_free \<notin> set (fst ?a)" "Session_free \<notin> set (fst ?c)" "Session_free \<notin> set ?s"
    using keeps by auto
  show "freed (ssh_session lib ip port sid) = [Bind_free, Session_free]"
    using none by (simp add: ssh_session_def Let_def case_prod_beta)
  show "list_all own_call (after_free (ssh_session lib ip port sid))"
    using free by (simp add: ssh_session_def Let_def case_prod_beta)
qed

text \<open>C34: Once the key exchange is done, every password up to the third is recorded with its user, the third
  one as a success and the others as failures; more is recorded exactly when the session gets to
  its shell, which needs three passwords.\<close>

theorem ssh_passwords_recorded:
  assumes "ssh_set_up lib"
  shows "\<exists>rest. ssh_audits (run_ssh_service lib sid c) =
      audit_record_connection SSH_PROTOCOL (remote_ip c) (uint (remote_port c)) sid
      # map (\<lambda>(k, u, p). audit_record_auth SSH_PROTOCOL (remote_ip c) (uint (remote_port c)) sid u (Some p) (k = 3))
          (zip [1..<4] (ssh_passwords (messages lib))) @ rest
    \<and> (rest \<noteq> [] \<longleftrightarrow> ssh_shell_reached lib)
    \<and> (ssh_shell_reached lib \<longrightarrow> 3 \<le> length (ssh_passwords (messages lib)))"
  using assms by (simp add: ssh_run_audits auth_records_def) (simp add: ssh_shell_reached_def)

definition example_lib :: ssh_lib where
  "example_lib = \<lparr>new_ok = True, bind_new_ok = True, accept_error = None, kex_error = None,
     messages = [Auth_none, Auth_password (Some ''root'') (Some ''a''), Auth_password (Some ''root'') None,
       Auth_other, Auth_password (Some ''admin'') (Some ''c''), Channel_request PTY, Open_session True,
       Channel_request PTY, Channel_request SHELL, Other_message],
     channel_up = (\<lambda>ib. True),
     channel_data = [Data ''unam'', Data (''e'' @ [CR]), Data (CR # ''exit'' @ [CR]), Data (''ls'' @ [CR])]\<rparr>"

theorem ssh_passwords_recorded_witness:
  "\<exists>rest. ssh_audits (run_ssh_service example_lib ''s'' (connection_create 4 ''198.51.100.7'' 2222 SSH_PROTOCOL 0 0)) =
      audit_record_connection SSH_PROTOCOL ''198.51.100.7'' 2222 ''s''
      # [audit_record_auth SSH_PROTOCOL ''198.51.100.7'' 2222 ''s'' ''root'' (Some ''a'') False,
         audit_record_auth SSH_PROTOCOL ''198.51.100.7'' 2222 ''s'' ''root'' (Some []) False,
         audit_record_auth SSH_PROTOCOL ''198.51.100.7'' 2222 ''s'' ''admin'' (Some ''c'') True] @ rest"
proof -
  have "ssh_set_up example_lib" by (simp add: ssh_set_up_def example_lib_def)
  from ssh_passwords_recorded [OF this, of "''s''" "connection_create 4 ''198.51.100.7'' 2222 SSH_PROTOCOL 0 0"]
  show ?thesis
    by (simp add: example_lib_def connection_create_def strncpy_def upt_rec) blast
qed

text \<open>C35: In a session that gets to its shell, the lines a client types are recorded as commands, in order
  and however they are cut into reads: all but the empty ones, up to and with the first
  that ends the shell. The record of the disconnection follows. (The channel counts as open and not at its end
  while there is data to read.)\<close>

theorem ssh_commands_recorded:
  assumes "ssh_shell_reached lib"
    and "\<And>ib. stream ib \<noteq> [] \<Longrightarrow> channel_up lib ib"
    and "stream (channel_data lib) = concat (map (\<lambda>l. l @ [CR]) ls)" and "list_all typable ls"
  shows "ssh_audits (run_ssh_service lib sid c) =
      audit_record_connection SSH_PROTOCOL (remote_ip c) (uint (remote_port c)) sid
      # auth_records (remote_ip c) (uint (remote_port c)) sid 1 (ssh_passwords (messages lib))
      @ map (audit_record_command SSH_PROTOCOL (remote_ip c) (uint (remote_port c)) sid) (ssh_executed ls)
      @ [audit_record_disconnect SSH_PROTOCOL (remote_ip c) (uint (remote_port c)) sid]"
proof -
  have "ssh_set_up lib" using assms(1) by (simp add: ssh_shell_reached_def)
  with assms(1) show ?thesis
    by (simp add: ssh_run_audits ssh_shell_stream [OF assms(2)] assms(3) ssh_lines_recorded [OF assms(4)])
qed

theorem ssh_commands_recorded_witness:
  "ssh_audits (run_ssh_service example_lib ''s'' (connection_create 4 ''198.51.100.7'' 2222 SSH_PROTOCOL 0 0)) =
     audit_record_connection SSH_PROTOCOL ''198.51.100.7'' 2222 ''s''
     # auth_records ''198.51.100.7'' 2222 ''s'' 1 [(''root'', ''a''), (''root'', ''''), (''admin'', ''c'')]
     @ [audit_record_command SSH_PROTOCOL ''198.51.100.7'' 2222 ''s'' ''uname'',
        audit_record_command SSH_PROTOCOL ''198.51.100.7'' 2222 ''s'' ''exit'',
        audit_record_disconnect SSH_PROTOCOL ''198.51.100.7'' 2222 ''s'']"
proof -
  have 1: "ssh_shell_reached example_lib"
    by (simp add: ssh_shell_reached_def ssh_set_up_def example_lib_def SSH_HONEYPOT_MAX_AUTH_ATTEMPTS_def
        ssh_channel_loop.simps)
  have 2: "stream (channel_data example_lib) =
      concat (map (\<lambda>l. l @ [CR]) [''uname'', '''', ''exit'', ''ls''])"
    by (simp add: example_lib_def)
  have 3: "list_all typable [''uname'', '''', ''exit'', ''ls'']" by (simp add: typable_def)
  have 4: "ssh_executed [''uname'', '''', ''exit'', ''ls''] = [''uname'', ''exit'']"
    by (simp add: fake_command_response_def contains_def)
  have 5: "channel_up example_lib ib" for ib by (simp add: example_lib_def)
  show ?thesis
    using ssh_commands_recorded [OF 1 5 2 3, of "''s''" "connection_create 4 ''198.51.100.7'' 2222 SSH_PROTOCOL 0 0"]
    by (simp only: 4) (simp add: example_lib_def connection_create_def strncpy_def)
qed

text \<open>C36: Whatever the library answers, an SSH session it gave is freed exactly once, after the bind
  object if there is one, and nothing is asked of the library after that.\<close>

theorem ssh_releases_once:
  "freed (run_ssh_service lib sid c) =
     (if \<not> new_ok lib then [] else if bind_new_ok lib then [Bind_free, Session_free] else [Session_free])
   \<and> list_all own_call (after_free (run_ssh_service lib sid c))"
  using ssh_session_frees [of lib "remote_ip c" "uint (remote_port c)" sid]
  by (auto simp: run_ssh_service_def Let_def split: option.split)

section \<open>Divergence from the other services\<close>

text \<open>A client that gives up before the third password leaves a connection without its end.\<close>

lemma ssh_no_disconnection:
  "\<not> ssh_shell_reached lib \<Longrightarrow>
   AUDIT_EVENT_DISCONNECTION \<notin> req_type ` set (ssh_audits (run_ssh_service lib sid c))"
  by (auto simp: ssh_run_audits auth_records_def record_defs dest!: set_zip_rightD split: if_splits)

end
