(* ===== verification/Honeypot_Main.thy ===== *)
theory Honeypot_Main
  imports Audit_Trail Redis_Honeypot Telnet_Honeypot Dns_Honeypot Ftp_Honeypot Pop3_Honeypot
    Imap_Honeypot Smtp_Honeypot Questdb_Honeypot Mysql_Honeypot Logger Ssh_Honeypot
begin

text \<open>
  The rest of src/main.c: the call of a service through the table, the body of a listener thread,
  the signal handler and \<open>main\<close>. How the threads interleave is in \<open>Server\<close>; here is what each
  of them does, as a trace of calls.
\<close>

section \<open>Calling a service\<close>

text \<open>What the services get from the system, beside what the client sends.\<close>

record handler_env =
  http_junk :: "nat \<Rightarrow> char"
  http_mem :: "nat \<Rightarrow> bool"
  http_mal :: "nat \<Rightarrow> bool"
  env_ssh :: ssh_lib
  smtp_outs :: "bool list"
  env_mysql :: mysql_env
  dns_junk :: "byte list"
  env_rand :: "nat \<Rightarrow> nat"
  env_stack :: string

fun own_effects :: "ssh_call list \<Rightarrow> eff list" where
  "own_effects [] = []"
| "own_effects (Eff e # es) = e # own_effects es"
| "own_effects (_ # es) = own_effects es"

text \<open>\<open>a->binding->handler(conn)\<close>; \<open>None\<close> when it does not return. Of the SSH service, its own effects.\<close>

fun run_handler ::
  "handler_env \<Rightarrow> service_handler_t \<Rightarrow> string \<Rightarrow> connection \<Rightarrow> segment list \<Rightarrow> eff list option" where
  "run_handler env Run_http_service sid conn ib =
     run_http_service (http_junk env) (http_mem env) (http_mal env) conn ib"
| "run_handler env Run_ssh_service sid conn ib = Some (own_effects (run_ssh_service (env_ssh env) sid conn))"
| "run_handler env Run_ftp_service sid conn ib = Some (run_ftp_service sid conn ib)"
| "run_handler env Run_telnet_service sid conn ib = Some (run_telnet_service sid conn ib)"
| "run_handler env Run_smtp_service sid conn ib = Some (run_smtp_service conn (smtp_outs env) ib)"
| "run_handler env Run_mysql_service sid conn ib = Some (run_mysql_service (env_mysql env) sid conn ib)"
| "run_handler env Run_redis_service sid conn ib = Some (run_redis_service sid conn ib)"
| "run_handler env Run_postgresql_service sid conn ib =
     Some (run_postgresql_service (env_rand env) (env_stack env) sid conn ib)"
| "run_handler env Run_pop3_service sid conn ib = Some (run_pop3_service sid conn ib)"
| "run_handler env Run_imap_service sid conn ib = Some (run_imap_service sid conn ib)"
| "run_handler env Run_dns_service sid conn ib = Some (run_dns_service (dns_junk env) sid conn ib)"
| "run_handler env Run_questdb_service sid conn ib =
     Some (run_questdb_service (env_rand env) (env_stack env) sid conn ib)"

section \<open>A listener\<close>

text \<open>The results of \<open>socket\<close>, \<open>bind\<close> and \<open>listen\<close>, with the text of the error.\<close>

record listen_env =
  listen_fd :: int
  bind_ok :: bool
  listen_ok :: bool
  os_error :: string

text \<open>
  One turn of the accept loop: no connection, or its descriptor with whether the arguments
  could be allocated and the thread be created. The loop ends when \<open>g_running\<close> is 0 at its head,
  which is the end of the list.
\<close>

datatype accept_turn = Accept_failed | Accepted int bool bool

datatype listen_call =
    L_eff eff
  | Acquire
  | Release
  | Alloc_args
  | Free_args
  | Start_handler int
  | Free_listener_args

definition accept_turn_calls :: "int \<Rightarrow> accept_turn \<Rightarrow> listen_call list" where
  "accept_turn_calls port t =
     (case t of
        Accept_failed \<Rightarrow> [L_eff (Log UTILITIES_WARN [Num port])]
      | Accepted fd args thread \<Rightarrow>
          Acquire #
          (if \<not> args then [L_eff (Log UTILITIES_ERROR []), L_eff (Close fd), Release]
           else if \<not> thread
           then [Alloc_args, L_eff (Log UTILITIES_ERROR []), L_eff (Close fd), Release, Free_args]
           else [Alloc_args, Start_handler fd]))"

definition listener_thread :: "listen_env \<Rightarrow> service_binding_t \<Rightarrow> accept_turn list \<Rightarrow> listen_call list" where
  "listener_thread env binding turns =
     (let port = sb_port binding; err = L_eff (Log UTILITIES_ERROR [Num port, Str (os_error env)])
      in if listen_fd env < 0 then [err, Free_listener_args]
         else if \<not> bind_ok env then [err, L_eff (Close (listen_fd env)), Free_listener_args]
         else if \<not> listen_ok env then [err, L_eff (Close (listen_fd env)), Free_listener_args]
         else L_eff (Log UTILITIES_INFO [Num port])
              # concat (map (accept_turn_calls port) turns)
              @ [L_eff (Close (listen_fd env)), Free_listener_args])"

section \<open>The process\<close>

text \<open>The handler of SIGINT and SIGTERM: the value of \<open>g_running\<close> after it, and the message.\<close>

definition signal_handler :: "bool \<times> eff list" where
  "signal_handler = (False, [Log UTILITIES_INFO []])"

datatype signal_action = Ignore_SIGPIPE | Handle_SIGINT | Handle_SIGTERM

datatype main_call =
    M_eff eff
  | Set_log_level string
  | Signal signal_action
  | Create_sessions
  | Init_semaphore int
  | Start_listener service_binding_t
  | Join_listener nat
  | Free_listeners
  | Destroy_sessions
  | Shutdown_audit

fun service_count :: "service_binding_t list \<Rightarrow> nat" where
  "service_count [] = 0"
| "service_count (b # bs) = (if sb_handler b = None then 0 else Suc (service_count bs))"

text \<open>One turn of the loop that starts the listeners; \<open>thread\<close> tells whether the thread was created.\<close>

definition start_listener :: "(nat \<Rightarrow> bool) \<Rightarrow> nat \<Rightarrow> main_call" where
  "start_listener thread i =
     (if thread i then Start_listener (service_map ! i)
      else M_eff (Log UTILITIES_ERROR [Num (sb_port (service_map ! i))]))"

text \<open>
  The exit status and the calls. The calls of \<open>ensure_ssh_host_key\<close> and \<open>audit_init\<close> are
  their models; the joins return when the listeners have ended.
\<close>

definition main ::
  "sys \<Rightarrow> fs \<Rightarrow> (int \<Rightarrow> tm) \<Rightarrow> audit_env \<Rightarrow> audit_world \<Rightarrow> (nat \<Rightarrow> bool) \<Rightarrow> int \<times> main_call list" where
  "main sys fs localtime e w thread =
     (let cfg = get_default_config;
          n = service_count service_map;
          trace = [Set_log_level [CHR 0xE8, CHR 0xB0, CHR 0x83, CHR 0xE8, CHR 0xAF, CHR 0x95],
                   M_eff (Log UTILITIES_INFO [Str UTILITIES_APP_NAME, Str UTILITIES_VERSION])];
          (key, fs', es) = ensure_ssh_host_key sys fs (ssh_host_key_path cfg);
          trace = trace @ map M_eff es
      in if key \<noteq> 0 then (1, trace @ [M_eff (Log UTILITIES_ERROR [])])
         else case audit_init localtime e w of
           (None, _) \<Rightarrow> (1, trace @ [M_eff (Log UTILITIES_ERROR [])])
         | (Some _, _) \<Rightarrow>
             (0, trace
                 @ [Signal Ignore_SIGPIPE, Signal Handle_SIGINT, Signal Handle_SIGTERM, Create_sessions,
                    Init_semaphore (max_connections cfg),
                    M_eff (Log UTILITIES_INFO [Num (int n), Num (max_connections cfg)])]
                 @ map (start_listener thread) [0..<n]
                 @ map Join_listener [0..<n]
                 @ [Free_listeners, Destroy_sessions, Shutdown_audit,
                    M_eff (Log UTILITIES_INFO [Str UTILITIES_APP_NAME, Str UTILITIES_VERSION])]))"

section \<open>What a listener does with its connections\<close>

fun client_fds :: "accept_turn list \<Rightarrow> int list" where
  "client_fds [] = []"
| "client_fds (Accept_failed # ts) = client_fds ts"
| "client_fds (Accepted fd args thread # ts) = fd # client_fds ts"

text \<open>The descriptors a trace passes on to a handler or closes, in order.\<close>

fun settled :: "listen_call list \<Rightarrow> int list" where
  "settled [] = []"
| "settled (e # es) = (case e of Start_handler fd \<Rightarrow> fd # settled es | L_eff (Close fd) \<Rightarrow> fd # settled es
                      | _ \<Rightarrow> settled es)"

lemma settled_append [simp]: "settled (xs @ ys) = settled xs @ settled ys"
  by (induction xs) (auto split: listen_call.splits eff.splits)

fun is_start :: "listen_call \<Rightarrow> bool" where
  "is_start (Start_handler fd) \<longleftrightarrow> True"
| "is_start _ \<longleftrightarrow> False"

definition started_handlers :: "listen_call list \<Rightarrow> nat" where
  "started_handlers es = length (filter is_start es)"

lemma started_simps [simp]:
  "started_handlers [] = 0" "started_handlers (xs @ ys) = started_handlers xs + started_handlers ys"
  "started_handlers (e # es) = (if is_start e then 1 else 0) + started_handlers es"
  by (simp_all add: started_handlers_def)

lemma accept_loop_settled: "settled (concat (map (accept_turn_calls port) ts)) = client_fds ts"
  by (induction ts rule: client_fds.induct) (simp_all add: accept_turn_calls_def)

lemma count_append: "count_list (xs @ ys) x = count_list xs x + count_list ys x"
  by (induction xs) simp_all

lemma accept_loop_balanced:
  "let es = concat (map (accept_turn_calls port) ts)
   in count_list es Acquire = count_list es Release + started_handlers es
     \<and> count_list es Alloc_args = count_list es Free_args + started_handlers es
     \<and> count_list es Free_listener_args = 0"
  by (induction ts rule: client_fds.induct) (simp_all add: accept_turn_calls_def Let_def count_append)

section \<open>Properties\<close>

text \<open>C37: A listener loses neither descriptors nor places: every descriptor it accepts is, in order, either
  passed to exactly one handler thread or closed, the listening socket is closed at the end; the
  semaphore is taken once per connection and given back unless a handler was started, which then
  gives it back itself; the same holds of the arguments; and the listener's own arguments are
  freed exactly once on every path.\<close>

theorem listener_balanced:
  "let es = listener_thread env binding turns
   in settled es =
        (if listen_fd env < 0 then []
         else (if bind_ok env \<and> listen_ok env then client_fds turns else []) @ [listen_fd env])
     \<and> count_list es Acquire = count_list es Release + started_handlers es
     \<and> count_list es Alloc_args = count_list es Free_args + started_handlers es
     \<and> count_list es Free_listener_args = 1"
  using accept_loop_balanced [of "sb_port binding" turns]
  by (simp add: listener_thread_def Let_def accept_loop_settled count_append)

text \<open>The listeners a trace starts.\<close>

fun listeners :: "main_call list \<Rightarrow> service_binding_t list" where
  "listeners [] = []"
| "listeners (c # cs) = (case c of Start_listener b \<Rightarrow> b # listeners cs | _ \<Rightarrow> listeners cs)"

lemma listeners_append [simp]: "listeners (xs @ ys) = listeners xs @ listeners ys"
  by (induction xs) (auto split: main_call.splits)

lemma listeners_effects [simp]: "listeners (map M_eff es) = []"
  by (induction es) simp_all

lemma listeners_joins [simp]: "listeners (map Join_listener is) = []"
  by (induction "is") simp_all

lemma listeners_started:
  "listeners (map (start_listener thread) is) = map ((!) service_map) (filter thread is)"
  by (induction "is") (simp_all add: start_listener_def)

lemma service_count_map: "service_count service_map = 12"
  by (simp add: service_map_def)

text \<open>C38: The process starts its listeners only with a host key and an audit trail, and returns 1 otherwise. Then
  every one of the twelve services of the table gets one listener of its own, on a port of its own, unless
  its thread cannot be created; and the sessions are destroyed and the audit trail shut down only
  after all listeners have been joined.\<close>

theorem main_lifecycle:
  "case main sys fs localtime e w thread of
     (status, trace) \<Rightarrow>
       (status = 0 \<longleftrightarrow> fst (ensure_ssh_host_key sys fs SSH_HOST_KEY_PATH) = 0
          \<and> fst (audit_init localtime e w) \<noteq> None)
       \<and> listeners trace = (if status = 0 then map ((!) service_map) (filter thread [0..<12]) else [])
       \<and> distinct (map sb_port (take 12 service_map)) \<and> list_all (\<lambda>b. sb_handler b \<noteq> None) (take 12 service_map)
       \<and> (if status = 0
          then \<exists>before msg. trace = before @ map Join_listener [0..<12]
              @ [Free_listeners, Destroy_sessions, Shutdown_audit, msg] \<and> Destroy_sessions \<notin> set before
          else status = 1 \<and> set trace \<inter> {Destroy_sessions, Shutdown_audit, Create_sessions} = {})"
proof -
  obtain key fs' es where k: "ensure_ssh_host_key sys fs SSH_HOST_KEY_PATH = (key, fs', es)"
    using prod_cases3 by blast
  obtain t w' where a: "audit_init localtime e w = (t, w')" by fastforce
  have cfg: "ssh_host_key_path get_default_config = SSH_HOST_KEY_PATH" by (simp add: get_default_config_def)
  have start: "Destroy_sessions \<noteq> start_listener thread i" for i
    by (simp add: start_listener_def)
  have ports: "distinct (map sb_port (take 12 service_map)) \<and> list_all (\<lambda>b. sb_handler b \<noteq> None) (take 12 service_map)"
    by (simp add: service_map_def)
  show ?thesis
  proof (cases "key = 0 \<and> t \<noteq> None")
    case True
    then show ?thesis
      using start ports
      by (auto simp: main_def k a cfg service_count_map listeners_started Let_def simp del: upt_rec_numeral)
  next
    case False
    then show ?thesis
      using ports by (auto simp: main_def k a cfg Let_def split: option.split)
  qed
qed

section \<open>Divergence\<close>

text \<open>A listener whose thread could not be created is joined like the others.\<close>

lemma main_joins_unstarted:
  assumes "main sys fs localtime e w thread = (0, trace)" "\<not> thread 3"
  shows "service_map ! 3 \<notin> set (listeners trace) \<and> Join_listener 3 \<in> set trace"
proof -
  have "Join_listener 3 \<in> set trace"
    "listeners trace = map ((!) service_map) (filter thread [0..<12])"
    using assms(1) by (auto simp: main_def service_count_map Let_def case_prod_beta listeners_started
        split: if_splits prod.splits option.splits simp del: upt_rec_numeral)
  moreover have "service_map ! 3 = service_map ! i \<longleftrightarrow> i = 3" if "i < 12" for i
    using that by (auto simp: service_map_def less_Suc_eq numeral_eq_Suc)
  ultimately show ?thesis using assms(2) by auto
qed

end
