(* ===== verification/Spec2Isabelle.thy ===== *)
theory Spec2Isabelle
  imports Honeypot_Main
begin

text \<open>
  HoneyDew, a multi-protocol honeypot in C: verification development.

  \<^bold>\<open>The program.\<close> main.c makes sure of an SSH host key, starts the audit trail and one listener thread
  per entry of \<open>service_map\<close> (src/service/dispatcher.c). A listener accepts connections, takes a place of a
  counting semaphore and starts a handler thread, which enters a connection object into the session table
  (src/service/session.c), calls the service of the entry and removes the session again. A service
  imitates one protocol on the client's socket, records what the client does with
  \<open>audit_record_*\<close> (src/utilities/audit.c) and writes messages with \<open>utilities_log\<close>
  (src/utilities/logger.c). The records go into a ring buffer that a flush thread writes to the log file.

  \<^bold>\<open>The theories, and the sources they model.\<close>
  \<^item> \<open>Prelude\<close>: C strings, the functions of the C library that the sources use, byte order.
  \<^item> \<open>Platform\<close>: the enumerations of the headers, the peer's socket as a script of segments that
    \<open>recv\<close> takes apart, the effects of a service as a list (send, audit request, message, close).
  \<^item> \<open>Interfaces\<close>: the locales \<open>byte_buffer\<close>, \<open>session_store\<close> and \<open>bounded_fifo\<close>.
  \<^item> \<open>Session\<close> (session.c, session.h, connection.h): connections on a heap, the reassembly buffer with
    64-bit sizes, the hash table. Interprets \<open>byte_buffer\<close> and \<open>session_store\<close>.
  \<^item> \<open>Service\<close>: the locales of the services: \<open>segment_loop\<close>, a receive loop that takes every segment
    as a message, and \<open>audited_service\<close>, the contract of a service that records its sessions.
  \<^item> \<open>Audit_Trail\<close> (audit.c, audit.h): the ring, the log file, session identifiers, the flush thread
    and the recording threads as a step relation. Interprets \<open>bounded_fifo\<close>.
  \<^item> \<open>Finite_State\<close> (finite_state.c) and \<open>Dispatcher\<close> (dispatcher.c): the HTTP and SSH state machines, the
    service table, the HTTP service.
  \<^item> \<open>Redis_Honeypot\<close>, \<open>Telnet_Honeypot\<close>, \<open>Dns_Honeypot\<close>, \<open>Ftp_Honeypot\<close>, \<open>Pop3_Honeypot\<close>,
    \<open>Imap_Honeypot\<close>, \<open>Smtp_Honeypot\<close>, \<open>Postgresql_Honeypot\<close>, \<open>Questdb_Honeypot\<close>, \<open>Mysql_Honeypot\<close>,
    \<open>Ssh_Honeypot\<close> (src/service/*_honeypot.c): one theory per service, from its parsers and packets to
    its \<open>run_*_service\<close>. All but SMTP, MySQL and SSH interpret \<open>audited_service\<close>; POP3, IMAP, QuestDB
    and MySQL interpret \<open>segment_loop\<close>.
  \<^item> \<open>Logger\<close> (logger.c, logger.h): levels, outputs, JSON escapes, composed messages, retries.
  \<^item> \<open>Server\<close> (main.c, config.h): the host key files, the semaphore, listener and handler threads as a step
    relation over the descriptors, the heap, the session table and the semaphore.
  \<^item> \<open>Honeypot_Main\<close> (main.c): the call through the table, every path of a listener, \<open>main\<close>.
  \<^item> this theory: the composition of the services with the audit trail.

  \<^bold>\<open>State and operations.\<close> A function of the source is a definition of the same name; a part of a long
  function that has a definition of its own (a loop body, a branch, a packet) is named after its
  service. Module and object state is a record that is passed and returned. A return value that tells of an
  error is an option or a sum; a use of freed memory (an error of the session store, the phase
  \<open>Faulted\<close> of a handler thread) and a write beyond a buffer are errors of the model, not assumed away. Sizes
  that may wrap around are words, and so is the counter of FTP passwords; the offset in a composed
  message is an \<open>int\<close> with the conversions of C.

  What a receive buffer holds behind the received bytes, random numbers, the clock, the time zone, the
  file system, \<open>malloc\<close> and the results of system calls and of libssh are parameters. A theorem holds for
  all their values except where it says otherwise. The reassembly buffer and the HTTP service are for \<open>malloc\<close>
  and \<open>realloc\<close> calls that succeed, the SMTP logins and mails for \<open>send\<close> calls that succeed, the MySQL
  session for a greeting that is sent, the SSH passwords and commands for a key exchange that succeeds
  and, for the commands, a channel that stays up while data is pending. That every service runs on a
  live connection is for descriptors that are not reused before their session is removed.

  \<^bold>\<open>What is shown.\<close>
  \<^item> Storage: the reassembly buffer is a byte queue, the session table a store by descriptor that frees
    every connection once, the ring a bounded queue.
  \<^item> Audit: in every interleaving the log is the flushed prefix of the accepted records, the sequence numbers
    have no gap, the shutdown ends and writes all that was accepted; identifiers are version 4 UUIDs.
  \<^item> Services: parsers invert the encodings of their protocols (RESP arrays, DNS names, Telnet commands,
    Base64); packets are framed and fit their buffers; sessions record what a client sends, in order and
    however TCP cuts it; the FTP session keeps its invariant; libssh objects are freed once.
  \<^item> Process: the semaphore counts the clients past it, descriptors are passed on or closed, the host key is
    private, listeners start and end in order.
  \<^item> Composition: a session of one of the eight audited services, interleaved with anything else,
    is in the log file after the shutdown.
  \<^item> Every component also has lemmas on where the code does less than it says, such as the reuse of a
    descriptor that frees a live connection.

  \<^bold>\<open>Bounds and fuel.\<close> Receive loops end because the script of segments gets shorter
  (\<open>inbox_size\<close>); an endless client is the limit of longer and longer scripts. The growth loop of the
  reassembly buffer is a \<open>partial_function\<close>, and shown to return up to \<open>2 ^ 63\<close> pending bytes, beyond which
  the doubling wraps around. The flush thread needs three of its steps to end after the flag is cleared, so
  \<open>3 \<le> n\<close> is all that \<open>audit_shutdown\<close> asks.

  \<^bold>\<open>Not modelled.\<close> Socket options and time-outs, the wording of messages for the operator (their level and
  arguments are kept), the SSH protocol itself (libssh), include/state.h (an enumeration that
  no source uses), the build files and the documentation. Writing to the open log file (\<open>fprintf\<close>,
  \<open>fflush\<close>, whose results audit.c ignores) succeeds. The results of \<open>send\<close> are ignored by the
  services but SMTP and MySQL, where they are parameters. Handlers that are still running when
  \<open>main\<close> destroys the table and shuts the trail down are outside of the step relations.
\<close>

section \<open>From a session to the log file\<close>

text \<open>
  The thread of one session asks for the records \<open>rs\<close>, one after the other, while the flush
  thread and any number of other sessions go on.
\<close>

inductive session_run :: "(int \<Rightarrow> tm) \<Rightarrow> audit_req list \<Rightarrow> audit_sys \<Rightarrow> audit_sys \<Rightarrow> bool" for localtime where
  finished: "session_run localtime [] s s"
| other: "audit_step localtime s s' \<Longrightarrow> session_run localtime rs s' t \<Longrightarrow> session_run localtime rs s t"
| own: "session_run localtime rs (record_call now r s) t \<Longrightarrow> session_run localtime (r # rs) s t"

text \<open>The record in the log that a request becomes.\<close>

definition made_of :: "audit_req \<Rightarrow> audit_record \<Rightarrow> bool" where
  "made_of r x \<longleftrightarrow> (\<exists>now seq. x = make_record now seq r)"

lemma session_run_steps: "session_run localtime rs s t \<Longrightarrow> (audit_step localtime)\<^sup>*\<^sup>* s t"
  by (induction rule: session_run.induct)
    (auto intro: converse_rtranclp_into_rtranclp audit_step.step_record)

lemma step_accepted:
  assumes "audit_step localtime s s'"
  obtains e where "accepted s' = accepted s @ e" "calls s + length e \<le> calls s'"
  using assms
proof (cases rule: audit_step.cases)
  case (step_flush env)
  then have "accepted s' = accepted s" "calls s' = calls s"
    by (auto simp: flush_thread_func_def case_prod_beta Let_def split: flush_pc.splits if_splits)
  then show ?thesis by (intro that [of "[]"]) simp_all
qed (auto simp: record_call_def audit_stop_def intro: that split: if_splits)

lemma session_run_accepted:
  "session_run localtime rs s t \<Longrightarrow>
   \<exists>new. accepted t = accepted s @ new \<and> calls s + length new \<le> calls t
     \<and> (calls s + length new = calls t \<longrightarrow> (\<exists>xs. subseq xs new \<and> list_all2 made_of rs xs))"
proof (induction rule: session_run.induct)
  case (finished s)
  show ?case by (auto intro!: exI [of _ "[]"])
next
  case (other s s' rs t)
  from other.hyps(1) obtain e where e: "accepted s' = accepted s @ e" "calls s + length e \<le> calls s'"
    by (rule step_accepted)
  from other.IH obtain new where new: "accepted t = accepted s' @ new" "calls s' + length new \<le> calls t"
    "calls s' + length new = calls t \<longrightarrow> (\<exists>xs. subseq xs new \<and> list_all2 made_of rs xs)" by blast
  have "\<exists>xs. subseq xs (e @ new) \<and> list_all2 made_of rs xs" if "calls s + length (e @ new) = calls t"
  proof -
    have "calls s' + length new = calls t" using that e new by simp
    with new show ?thesis by (meson list_emb_append2)
  qed
  with e new show ?case by (intro exI [of _ "e @ new"]) simp
next
  case (own rs now r s t)
  let ?s = "record_call now r s" and ?x = "make_record now (next_sequence (trail s)) r"
  obtain e where e: "accepted ?s = accepted s @ e" "e = [] \<or> e = [?x]" and calls: "calls ?s = Suc (calls s)"
    by (auto simp: record_call_def)
  from own.IH obtain new where new: "accepted t = accepted ?s @ new" "calls ?s + length new \<le> calls t"
    "calls ?s + length new = calls t \<longrightarrow> (\<exists>xs. subseq xs new \<and> list_all2 made_of rs xs)" by blast
  have "\<exists>xs. subseq xs (e @ new) \<and> list_all2 made_of (r # rs) xs" if "calls s + length (e @ new) = calls t"
  proof -
    from that e(2) calls new(2) have "e = [?x]" "calls ?s + length new = calls t" by auto
    with new(3) obtain xs where "subseq xs new" "list_all2 made_of rs xs" "e = [?x]" by blast
    then show ?thesis by (intro exI [of _ "?x # xs"]) (auto simp: made_of_def)
  qed
  with e calls new show ?case by (intro exI [of _ "e @ new"]) auto
qed

context audited_service
begin

text \<open>The part of the log that belongs to one session.\<close>

lemma session_in_accepted:
  assumes "session_run localtime (audits (run sid c ib)) s t" and "length (accepted s) = calls s"
    and "length (accepted t) = calls t"
  shows "\<exists>first xs last. subseq (first # xs @ [last]) (accepted t)
    \<and> made_of (audit_record_connection proto (remote_ip c) (uint (remote_port c)) sid) first
    \<and> made_of (audit_record_disconnect proto (remote_ip c) (uint (remote_port c)) sid) last
    \<and> list_all2 made_of (butlast (tl (audits (run sid c ib)))) xs"
proof -
  from session_records [of sid c ib] obtain rs where rs: "audits (run sid c ib) =
      audit_record_connection proto (remote_ip c) (uint (remote_port c)) sid # rs
      @ [audit_record_disconnect proto (remote_ip c) (uint (remote_port c)) sid]" by blast
  from session_run_accepted [OF assms(1)] assms(2,3) obtain new xs where
    new: "accepted t = accepted s @ new" "subseq xs new" "list_all2 made_of (audits (run sid c ib)) xs"
    by auto
  then have "subseq xs (accepted t)" by (simp add: list_emb_append2)
  with new(3) rs show ?thesis
    by (auto simp: list_all2_Cons1 list_all2_append1 simp del: append.simps)
qed

end

text \<open>The services of the table that meet the contract of \<open>audited_service\<close>.\<close>

definition audited_handlers :: "service_handler_t list" where
  "audited_handlers =
     [Run_redis_service, Run_telnet_service, Run_dns_service, Run_ftp_service, Run_pop3_service,
      Run_imap_service, Run_postgresql_service, Run_questdb_service]"

definition meets_contract :: "handler_env \<Rightarrow> service_handler_t \<Rightarrow> protocol_type \<Rightarrow> bool" where
  "meets_contract henv h proto \<longleftrightarrow>
     (\<exists>run. audited_service proto run \<and> (\<forall>sid c ib. run_handler henv h sid c ib = Some (run sid c ib)))"

lemma meets_contractI:
  "audited_service proto run \<Longrightarrow> (\<And>sid c ib. run_handler henv h sid c ib = Some (run sid c ib)) \<Longrightarrow>
   meets_contract henv h proto"
  unfolding meets_contract_def by blast

lemma handlers_meet_contract:
  "meets_contract henv Run_redis_service REDIS_PROTOCOL"
  "meets_contract henv Run_telnet_service TELNET_PROTOCOL"
  "meets_contract henv Run_dns_service DNS_PROTOCOL"
  "meets_contract henv Run_ftp_service FTP_PROTOCOL"
  "meets_contract henv Run_pop3_service POP3_PROTOCOL"
  "meets_contract henv Run_imap_service IMAP_PROTOCOL"
  "meets_contract henv Run_postgresql_service POSTGRESQL_PROTOCOL"
  "meets_contract henv Run_questdb_service QUESTDB_PROTOCOL"
  by (rule meets_contractI, rule redis.audited_service_axioms, simp)
    (rule meets_contractI, rule telnet.audited_service_axioms, simp,
     rule meets_contractI, rule dns.audited_service_axioms, simp,
     rule meets_contractI, rule ftp.audited_service_axioms, simp,
     rule meets_contractI, rule pop3.audited_service_axioms, simp,
     rule meets_contractI, rule imap.audited_service_axioms, simp,
     rule meets_contractI, rule pg.audited_service_axioms, simp,
     rule meets_contractI, rule qdb.audited_service_axioms, simp)

lemma audited_handler_contract:
  assumes "b \<in> set service_map" "sb_handler b = Some h" "h \<in> set audited_handlers"
  shows "meets_contract henv h (sb_proto b)"
  using assms by (auto simp: service_map_def audited_handlers_def handlers_meet_contract)

text \<open>C1: What a client does reaches the log file. A session of one of eight services of the table runs while
  the flush thread and any other sessions go on; if no record had to be dropped, then after
  the shutdown the log file holds a line for everything that was recorded, and among them, in order,
  the session's connection under the protocol the table gives, every record the service asked
  for, and its disconnection; and the service closes its socket exactly once.\<close>

theorem session_reaches_log:
  assumes "b \<in> set service_map" "sb_handler b = Some h" "h \<in> set audited_handlers"
    and "run_handler henv h sid c ib = Some es"
    and "audit_init localtime e w = (Some t, w')"
    and "(audit_step localtime)\<^sup>*\<^sup>* (audit_start t w') s0"
    and "session_run localtime (audits es) s0 s"
    and "length (accepted s0) = calls s0" and "length (accepted s) = calls s"
    and "running (trail s)" and "3 \<le> n"
  shows "\<exists>s' first xs last. audit_shutdown localtime env n s = Some s'
    \<and> files (world s') (audit_log_name (localtime (env_now e)))
        = files w (audit_log_name (localtime (env_now e))) @ concat (map (record_line localtime) (accepted s'))
    \<and> subseq (first # xs @ [last]) (accepted s')
    \<and> made_of (audit_record_connection (sb_proto b) (remote_ip c) (uint (remote_port c)) sid) first
    \<and> made_of (audit_record_disconnect (sb_proto b) (remote_ip c) (uint (remote_port c)) sid) last
    \<and> list_all2 made_of (butlast (tl (audits es))) xs
    \<and> closes es = [socket_file_descriptor c]"
proof -
  from audited_handler_contract [OF assms(1-3), of henv] assms(4) obtain run where
    run: "audited_service (sb_proto b) run" "es = run sid c ib" by (auto simp: meets_contract_def)
  have reach: "(audit_step localtime)\<^sup>*\<^sup>* (audit_start t w') s"
    using assms(6) session_run_steps [OF assms(7)] by (rule rtranclp_trans)
  from shutdown_log [OF sys_ok_reachable [OF reach sys_ok_start [OF assms(5)]] assms(10,11), of env]
    audited_service.session_in_accepted [OF run(1) assms(7) [unfolded run(2)] assms(8,9)]
    audited_service.session_records [OF run(1), of sid c ib]
  show ?thesis unfolding run(2) by metis
qed

text \<open>A POP3 client that connects and leaves.\<close>

theorem session_reaches_log_witness:
  "\<exists>w s s' first last. audit_shutdown epoch (\<lambda>_. all_well) 3 s = Some s'
     \<and> files (world s') (audit_log_name (epoch 0)) = concat (map (record_line epoch) (accepted s'))
     \<and> length (accepted s) = 2 \<and> accepted s' = [first, last]
     \<and> audit_init epoch all_well no_files = (Some epoch_trail, w)
     \<and> made_of (audit_record_connection POP3_PROTOCOL ''198.51.100.7'' 4711 ''id'') first
     \<and> made_of (audit_record_disconnect POP3_PROTOCOL ''198.51.100.7'' 4711 ''id'') last"
proof -
  let ?c = "connection_create 5 ''198.51.100.7'' 4711 POP3_PROTOCOL 0 0"
  let ?a = "audit_record_connection POP3_PROTOCOL ''198.51.100.7'' 4711 ''id''"
    and ?z = "audit_record_disconnect POP3_PROTOCOL ''198.51.100.7'' 4711 ''id''"
  obtain w where w: "audit_init epoch all_well no_files = (Some epoch_trail, w)"
    using init_all_well by blast
  let ?init = "audit_start epoch_trail w"
  let ?s = "record_call 1 ?z (record_call 0 ?a ?init)"
  have c: "remote_ip ?c = ''198.51.100.7''" "uint (remote_port ?c) = 4711"
    by (simp_all add: connection_create_def strncpy_def)
  have a: "audits (run_pop3_service ''id'' ?c []) = [?a, ?z]"
    by (simp add: run_pop3_service_def Let_def c)
  have run: "session_run epoch (audits (run_pop3_service ''id'' ?c [])) ?init ?s"
    unfolding a by (rule own, rule own, rule finished)
  have s: "length (accepted ?s) = 2" "calls ?s = 2" "running (trail ?s)"
    using not_full_fresh
    by (simp_all add: record_call_def audit_start_def audit_record_event_def full_def put_record_def
        epoch_trail_def fresh_trail_def AUDIT_RING_BUFFER_SIZE_def word_le_nat_alt)
  let ?b = "\<lparr>sb_port = 1100, sb_proto = POP3_PROTOCOL, sb_handler = Some Run_pop3_service\<rparr>"
  have p: "?b \<in> set service_map" "sb_handler ?b = Some Run_pop3_service"
    "Run_pop3_service \<in> set audited_handlers"
    by (simp_all add: service_map_def audited_handlers_def)
  have h: "run_handler undefined Run_pop3_service ''id'' ?c [] = Some (run_pop3_service ''id'' ?c [])" by simp
  have n: "length (accepted ?init) = calls ?init" "length (accepted ?s) = calls ?s"
    using s by (simp_all add: audit_start_def)
  have "env_now all_well = 0" "files no_files = (\<lambda>_. [])"
    by (simp_all add: all_well_def no_files_def)
  then obtain s' first xs last where r: "audit_shutdown epoch (\<lambda>_. all_well) 3 ?s = Some s'"
    "files (world s') (audit_log_name (epoch 0)) = concat (map (record_line epoch) (accepted s'))"
    "subseq (first # xs @ [last]) (accepted s')" "made_of ?a first" "made_of ?z last" "list_all2 made_of [] xs"
    using session_reaches_log [where env = "\<lambda>_. all_well", OF p h w rtranclp.rtrancl_refl run n s(3) order_refl]
    unfolding a c service_binding_t.simps by auto
  have "accepted s' = accepted ?s"
    using shutdown_log [OF sys_ok_reachable [OF session_run_steps [OF run] sys_ok_start [OF w]] s(3), of 3 "\<lambda>_. all_well"] r(1)
    by simp
  then have "length (accepted s') = length [first, last]" using s by simp
  with r(3,6) have "accepted s' = [first, last]" using subseq_same_length by fastforce
  with r w s show ?thesis by blast
qed

end
